(* ===== verification/Prelude.thy ===== *)
theory Prelude
  imports Complex_Main "HOL-Library.Signed_Division"
begin

text \<open>
  Shared vocabulary of the development: the outcome of a Go call (a value, a returned error or a
  panic), Go's 64-bit \<open>int\<close> arithmetic, Go maps and strings, and the list lemmas the
  components share.
\<close>

named_theorems go_defs
  \<open>definitions that a component unfolds when it evaluates or case-splits its own code\<close>

named_theorems outcome_simps
  \<open>evaluation of the outcome type and of its sequencing\<close>

section \<open>Outcomes of a Go call\<close>

text \<open>
  A Go function with results \<open>(T, error)\<close> returns a value or an error; a run-time fault (integer
  division by zero, index out of range, an explicit \<open>panic\<close>) unwinds the goroutine instead.
  The three are kept apart.
\<close>

datatype ('e, 'a) outcome =
    Ok 'a
  | Err 'e
  | Panic

fun bind_outcome :: "('e, 'a) outcome \<Rightarrow> ('a \<Rightarrow> ('e, 'b) outcome) \<Rightarrow> ('e, 'b) outcome" where
  "bind_outcome (Ok a) f = f a"
| "bind_outcome (Err e) f = Err e"
| "bind_outcome Panic f = Panic"

text \<open>\<open>fmt.Errorf("...: %w", err)\<close>: the error is wrapped, a panic still unwinds.\<close>

fun wrap_err :: "('e \<Rightarrow> 'f) \<Rightarrow> ('e, 'a) outcome \<Rightarrow> ('f, 'a) outcome" where
  "wrap_err w (Ok a) = Ok a"
| "wrap_err w (Err e) = Err (w e)"
| "wrap_err w Panic = Panic"

declare bind_outcome.simps [outcome_simps] wrap_err.simps [outcome_simps]

lemma bind_outcome_Ok_iff [outcome_simps]:
  "bind_outcome m f = Ok b \<longleftrightarrow> (\<exists>a. m = Ok a \<and> f a = Ok b)"
  by (cases m) auto

lemma bind_outcome_Panic_iff [outcome_simps]:
  "bind_outcome m f = Panic \<longleftrightarrow> m = Panic \<or> (\<exists>a. m = Ok a \<and> f a = Panic)"
  by (cases m) auto

lemma wrap_err_Ok_iff [outcome_simps]: "wrap_err w m = Ok a \<longleftrightarrow> m = Ok a"
  by (cases m) auto

lemma wrap_err_Panic_iff [outcome_simps]: "wrap_err w m = Panic \<longleftrightarrow> m = Panic"
  by (cases m) auto

text \<open>A context is live, or done with the error that \<open>ctx.Err()\<close> gives.\<close>

datatype ctx_error = Canceled | DeadlineExceeded
type_synonym ctx = "ctx_error option"

section \<open>Go's \<open>int\<close>: 64-bit two's complement\<close>

text \<open>
  Go integers are modelled as \<open>int\<close>; where a sum or product may leave the 64-bit range the model
  writes \<open>wrap64\<close>. Integer division truncates towards zero (\<open>sdiv\<close> of Signed_Division).
\<close>

definition wrap64 :: "int \<Rightarrow> int" where
  "wrap64 i = (i + 2 ^ 63) mod 2 ^ 64 - 2 ^ 63"

definition int64 :: "int \<Rightarrow> bool" where
  "int64 i \<longleftrightarrow> - (2 ^ 63) \<le> i \<and> i < 2 ^ 63"

lemma wrap64_id [simp]: "int64 i \<Longrightarrow> wrap64 i = i"
  by (simp add: wrap64_def int64_def)

lemma int64_wrap64 [simp, intro]: "int64 (wrap64 i)"
proof -
  have "0 \<le> (i + 2 ^ 63) mod 2 ^ 64" "(i + 2 ^ 63) mod 2 ^ 64 < 2 ^ 64" by simp_all
  then show ?thesis by (simp add: wrap64_def int64_def)
qed

lemma int64I: "0 \<le> i \<Longrightarrow> i \<le> 2 ^ 62 \<Longrightarrow> int64 i"
  by (simp add: int64_def)

lemma int64_nonneg_le: "int64 j \<Longrightarrow> 0 \<le> i \<Longrightarrow> i \<le> j \<Longrightarrow> int64 i"
  by (simp add: int64_def)

lemma sdiv_nonneg:
  fixes a b :: int
  assumes "0 \<le> a" "0 < b"
  shows "a sdiv b = a div b"
  using assms by (simp add: signed_divide_int_def sgn_if)

section \<open>Go maps\<close>

text \<open>
  A Go map is an association list with distinct keys, or nil. Reading a missing key gives the zero
  value, which for slices is nil (the empty list). The list's order stands for the unspecified
  iteration order.
\<close>

type_synonym ('k, 'v) gomap = "('k \<times> 'v) list option"

fun gomap_list :: "('k, 'v) gomap \<Rightarrow> ('k \<times> 'v) list" where
  "gomap_list None = []"
| "gomap_list (Some m) = m"

definition gomap_get :: "('k, 'v) gomap \<Rightarrow> 'k \<Rightarrow> 'v option" where
  "gomap_get m k = map_of (gomap_list m) k"

definition gomap_len :: "('k, 'v) gomap \<Rightarrow> nat" where
  "gomap_len m = length (gomap_list m)"

lemma gomap_get_None [simp]: "gomap_get None k = None"
  by (simp add: gomap_get_def)

lemma gomap_get_Some [simp]: "gomap_get (Some m) k = map_of m k"
  by (simp add: gomap_get_def)

section \<open>Lists\<close>

lemma foldl_invariant:
  assumes "P a" and "\<And>a x. P a \<Longrightarrow> x \<in> set xs \<Longrightarrow> P (f a x)"
  shows "P (foldl f a xs)"
  using assms by (induction xs arbitrary: a) auto

lemma sorted_wrt_map_impl:
  assumes "sorted_wrt P xs" "\<And>x y. x \<in> set xs \<Longrightarrow> y \<in> set xs \<Longrightarrow> P x y \<Longrightarrow> Q (f x) (f y)"
  shows "sorted_wrt Q (map f xs)"
  using assms by (induction xs) auto

lemma last_in_range: "xs \<noteq> [] \<Longrightarrow> xs ! (length xs - 1) = last xs"
  by (simp add: last_conv_nth)

end
