(* ===== verification/Float64.thy ===== *)
theory Float64
  imports Prelude "HOL-Library.Log_Nat"
begin

text \<open>
  Go's \<open>float64\<close> (IEEE 754 binary64) as an executable datatype. A finite value is the rational
  it denotes; every operation computes the exact rational result and rounds it to the nearest
  53-bit value (ties to even, gradual underflow below the normal range, overflow to infinity), as
  the hardware does. Two choices are recorded here. The sign of a zero is not kept: \<open>-0\<close> and \<open>+0\<close>
  compare equal in Go, and the modelled code never divides by a negative zero. A product followed
  by a sum is rounded twice: the Go specification allows a compiler to fuse them, which the amd64
  compiler does not do.
\<close>

section \<open>Rounding a rational to 53 bits\<close>

text \<open>The binary exponent of a positive rational, from the bit lengths of its two parts.\<close>

definition flog2 :: "rat \<Rightarrow> int" where
  "flog2 x = (case quotient_of x of (n, d) \<Rightarrow>
     (let k = bitlen n - bitlen d in if 2 powi k \<le> x then k else k - 1))"

lemma bitlen_powi:
  assumes "0 < (n :: int)"
  shows "2 powi (bitlen n - 1) \<le> (of_int n :: rat)" "(of_int n :: rat) < 2 powi bitlen n"
proof -
  have b: "0 < bitlen n" using assms bitlen_eq_zero_iff[of n] bitlen_nonneg[of n] by linarith
  have nb: "2 ^ nat (bitlen n - 1) \<le> n" "n < 2 ^ nat (bitlen n)"
    using bitlen_bounds[OF assms] by auto
  then have "(2 ^ nat (bitlen n - 1) :: rat) \<le> of_int n" "(of_int n :: rat) < 2 ^ nat (bitlen n)"
    by (metis of_int_le_iff of_int_numeral of_int_power)
       (metis nb(2) of_int_less_iff of_int_numeral of_int_power)
  then show "2 powi (bitlen n - 1) \<le> (of_int n :: rat)" "(of_int n :: rat) < 2 powi bitlen n"
    using b by (simp_all add: power_int_def)
qed

lemma flog2_bounds:
  assumes "0 < x"
  shows "2 powi flog2 x \<le> x" "x < 2 powi (flog2 x + 1)"
proof -
  obtain n d where q: "quotient_of x = (n, d)" by (cases "quotient_of x")
  have d: "0 < d" and x: "x = of_int n / of_int d"
    using quotient_of_denom_pos[OF q] quotient_of_div[OF q] by auto
  have n: "0 < n" using assms d x by (simp add: zero_less_divide_iff)
  define a b where "a = bitlen n" and "b = bitlen d"
  have na: "2 powi (a - 1) \<le> (of_int n :: rat)" "(of_int n :: rat) < 2 powi a"
    and db: "2 powi (b - 1) \<le> (of_int d :: rat)" "(of_int d :: rat) < 2 powi b"
    using bitlen_powi[OF n] bitlen_powi[OF d] by (auto simp: a_def b_def)
  have dp: "(0::rat) < of_int d" using d by simp
  have up: "x < 2 powi (a - b + 1)"
  proof -
    have "of_int n < (2 powi (a - b + 1)) * (2 powi (b - 1) :: rat)"
      using na by (simp add: power_int_add [symmetric])
    also have "\<dots> \<le> 2 powi (a - b + 1) * of_int d"
      using db by (intro mult_left_mono) auto
    finally show ?thesis using dp by (simp add: x field_simps)
  qed
  have lo: "2 powi (a - b - 1) \<le> x"
  proof -
    have "2 powi (a - b - 1) * of_int d \<le> 2 powi (a - b - 1) * (2 powi b :: rat)"
      using db by (intro mult_left_mono) auto
    also have "\<dots> \<le> of_int n"
      using na by (simp add: power_int_add [symmetric])
    finally show ?thesis using dp by (simp add: x field_simps)
  qed
  show "2 powi flog2 x \<le> x" "x < 2 powi (flog2 x + 1)"
    using up lo by (auto simp: flog2_def q Let_def a_def b_def not_le add.commute)
qed

lemma powi2_less_iff [simp]: "(2::rat) powi a < 2 powi b \<longleftrightarrow> a < b"
  using power_int_strict_increasing[of a b "2::rat"] power_int_increasing[of b a "2::rat"]
  by (cases "a < b") auto

lemma powi2_le_iff [simp]: "(2::rat) powi a \<le> 2 powi b \<longleftrightarrow> a \<le> b"
  using powi2_less_iff[of b a] by linarith

lemma flog2_mono:
  assumes "0 < x" "x \<le> y"
  shows "flog2 x \<le> flog2 y"
proof -
  have "(2::rat) powi flog2 x < 2 powi (flog2 y + 1)"
    using flog2_bounds(1)[of x] flog2_bounds(2)[of y] assms by linarith
  then show ?thesis by simp
qed

text \<open>Round to the nearest integer, ties to even.\<close>

definition rne :: "rat \<Rightarrow> int" where
  "rne y = (let f = \<lfloor>y\<rfloor>; r = y - of_int f
            in if r < 1/2 then f else if r > 1/2 then f + 1 else if even f then f else f + 1)"

lemma rne_of_int [simp]: "rne (of_int n) = n"
  by (simp add: rne_def)

lemma rne_0 [simp]: "rne 0 = 0"
  using rne_of_int[of 0] by simp

lemma rne_mono:
  assumes le: "x \<le> y"
  shows "rne x \<le> rne y"
proof (cases "\<lfloor>x\<rfloor> = \<lfloor>y\<rfloor>")
  case True
  then show ?thesis using le by (auto simp: rne_def Let_def)
next
  case False
  then have "\<lfloor>x\<rfloor> + 1 \<le> \<lfloor>y\<rfloor>" using floor_mono[OF le] by linarith
  then show ?thesis by (auto simp: rne_def Let_def)
qed

lemma rne_le_of_int: "y \<le> of_int k \<Longrightarrow> rne y \<le> k"
  using rne_mono[of y "of_int k"] by simp

lemma rne_ge_of_int: "of_int k \<le> y \<Longrightarrow> k \<le> rne y"
  using rne_mono[of "of_int k" y] by simp

lemma rne_minus: "rne (- y) = - rne y"
proof (cases "y = of_int \<lfloor>y\<rfloor>")
  case True
  have "rne (- of_int \<lfloor>y\<rfloor>) = - rne (of_int \<lfloor>y\<rfloor>)"
    using rne_of_int[of "- \<lfloor>y\<rfloor>"] by simp
  then show ?thesis using True by metis
next
  case False
  then have fl: "\<lfloor>- y\<rfloor> = - \<lfloor>y\<rfloor> - 1"
    by (intro floor_unique) (use floor_correct[of y] in linarith)+
  show ?thesis by (auto simp: rne_def Let_def fl field_simps)
qed

text \<open>
  The exponent of the last place kept: 53 significant bits, but never below \<open>2^-1074\<close>, the
  smallest positive binary64 value.
\<close>

definition ulp_exp :: "rat \<Rightarrow> int" where
  "ulp_exp x = max (flog2 \<bar>x\<bar> - 52) (- 1074)"

definition rndq :: "rat \<Rightarrow> rat" where
  "rndq x = (if x = 0 then 0
             else of_int (rne (x / 2 powi ulp_exp x)) * 2 powi ulp_exp x)"

definition representable :: "rat \<Rightarrow> bool" where
  "representable x \<longleftrightarrow> (\<exists>m e. x = of_int m * 2 powi e \<and> \<bar>m\<bar> < 2 ^ 53 \<and> - 1074 \<le> e)"

lemma representableI:
  "x = of_int m * 2 powi e \<Longrightarrow> \<bar>m\<bar> < 2 ^ 53 \<Longrightarrow> - 1074 \<le> e \<Longrightarrow> representable x"
  unfolding representable_def by blast

lemma rndq_0 [simp]: "rndq 0 = 0"
  by (simp add: rndq_def)

lemma rndq_minus: "rndq (- x) = - rndq x"
  by (simp add: rndq_def ulp_exp_def rne_minus)

lemma rndq_nonneg: "0 \<le> x \<Longrightarrow> 0 \<le> rndq x"
  using rne_mono[of 0 "x / 2 powi ulp_exp x"] by (simp add: rndq_def)

lemma rndq_on_grid:
  assumes "x = of_int n * 2 powi ulp_exp x"
  shows "rndq x = x"
proof (cases "x = 0")
  case False
  have "x / 2 powi ulp_exp x = of_int n"
    by (subst assms) simp
  then show ?thesis using False assms by (simp add: rndq_def)
qed simp

lemma powi2_split: "j \<le> k \<Longrightarrow> (2::rat) powi k = of_int (2 ^ nat (k - j)) * 2 powi j"
proof -
  assume "j \<le> k"
  then have "(2::rat) powi (k - j) = of_int (2 ^ nat (k - j))"
    by (simp add: power_int_def)
  then show ?thesis using power_int_add[of "2::rat" "k - j" j] by simp
qed

lemma rndq_id:
  assumes "representable x"
  shows "rndq x = x"
proof (cases "x = 0")
  case False
  obtain m e where x: "x = of_int m * 2 powi e" and m: "\<bar>m\<bar> < 2 ^ 53" and e: "- 1074 \<le> e"
    using assms by (auto simp: representable_def)
  have ax: "0 < \<bar>x\<bar>" using False by simp
  have "\<bar>x\<bar> = of_int \<bar>m\<bar> * 2 powi e" by (simp add: x abs_mult)
  also have "\<dots> < of_int (2 ^ 53) * 2 powi e"
    using m by (intro mult_strict_right_mono) (simp_all only: of_int_less_iff, simp)
  also have "\<dots> = 2 powi (53 + e)" by (simp add: power_int_add)
  finally have "2 powi flog2 \<bar>x\<bar> < (2::rat) powi (53 + e)"
    using flog2_bounds(1)[OF ax] by linarith
  then have "ulp_exp x \<le> e" using e by (simp add: ulp_exp_def)
  then have "x = of_int (m * 2 ^ nat (e - ulp_exp x)) * 2 powi ulp_exp x"
    using powi2_split[of "ulp_exp x" e] x by simp
  then show ?thesis by (rule rndq_on_grid)
qed simp

lemma rndq_le_next_power:
  assumes "0 < x"
  shows "rndq x \<le> 2 powi (flog2 x + 1)"
proof (cases "ulp_exp x \<le> flog2 x + 1")
  case True
  let ?k = "2 ^ nat (flog2 x + 1 - ulp_exp x) :: int"
  have "x / 2 powi ulp_exp x \<le> of_int ?k"
    using powi2_split[OF True] flog2_bounds(2)[OF assms] by (simp add: field_simps)
  then have "rne (x / 2 powi ulp_exp x) \<le> ?k" by (rule rne_le_of_int)
  then have "of_int (rne (x / 2 powi ulp_exp x)) * 2 powi ulp_exp x
      \<le> of_int ?k * (2 powi ulp_exp x :: rat)"
    by (intro mult_right_mono) (simp_all only: of_int_le_iff, simp)
  then show ?thesis using powi2_split[OF True] assms unfolding rndq_def by auto
next
  case False
  then have "(2::rat) powi (flog2 x + 1) \<le> 2 powi (ulp_exp x - 1)" by simp
  then have "x < 2 powi (ulp_exp x - 1)" using flog2_bounds(2)[OF assms] by linarith
  then have half: "x / 2 powi ulp_exp x < 1/2" by (simp add: power_int_diff field_simps)
  have "\<lfloor>x / 2 powi ulp_exp x\<rfloor> = 0"
    using assms half by (intro floor_unique) (auto intro: less_trans)
  then have "rne (x / 2 powi ulp_exp x) = 0" using half by (simp add: rne_def)
  then show ?thesis by (simp add: rndq_def)
qed

lemma rndq_ge_power:
  assumes "0 < x" "- 1074 \<le> flog2 x"
  shows "2 powi flog2 x \<le> rndq x"
proof -
  let ?k = "2 ^ nat (flog2 x - ulp_exp x) :: int"
  have le: "ulp_exp x \<le> flog2 x" using assms by (simp add: ulp_exp_def)
  have "of_int ?k \<le> x / 2 powi ulp_exp x"
    using powi2_split[OF le] flog2_bounds(1)[OF assms(1)] by (simp add: field_simps)
  then have "?k \<le> rne (x / 2 powi ulp_exp x)" by (rule rne_ge_of_int)
  then have "of_int ?k * (2 powi ulp_exp x :: rat)
      \<le> of_int (rne (x / 2 powi ulp_exp x)) * 2 powi ulp_exp x"
    by (intro mult_right_mono) (simp_all only: of_int_le_iff, simp)
  then show ?thesis using powi2_split[OF le] assms unfolding rndq_def by auto
qed

lemma rndq_mono_pos:
  assumes "0 < x" "x \<le> y"
  shows "rndq x \<le> rndq y"
proof (cases "ulp_exp x = ulp_exp y")
  case True
  have "x / 2 powi ulp_exp x \<le> y / 2 powi ulp_exp x" using assms by (simp add: divide_right_mono)
  then have "rne (x / 2 powi ulp_exp x) \<le> rne (y / 2 powi ulp_exp x)" by (rule rne_mono)
  then show ?thesis using assms True by (simp add: rndq_def mult_right_mono)
next
  case False
  have f: "flog2 x < flog2 y" "- 1074 \<le> flog2 y"
    using False flog2_mono[OF assms] assms by (auto simp: ulp_exp_def)
  have "rndq x \<le> 2 powi (flog2 x + 1)" using assms by (intro rndq_le_next_power) simp
  also have "\<dots> \<le> (2::rat) powi flog2 y" using f by simp
  also have "\<dots> \<le> rndq y" using f assms by (intro rndq_ge_power) simp_all
  finally show ?thesis .
qed

lemma rndq_mono:
  assumes le: "x \<le> y"
  shows "rndq x \<le> rndq y"
proof -
  consider "0 < x" | "x \<le> 0" "0 \<le> y" | "y < 0" using le by linarith
  then show ?thesis
  proof cases
    case 1 then show ?thesis using le by (rule rndq_mono_pos)
  next
    case 2
    then show ?thesis using rndq_nonneg[of y] rndq_nonneg[of "- x"] by (simp add: rndq_minus)
  next
    case 3
    then show ?thesis using rndq_mono_pos[of "- y" "- x"] le by (simp add: rndq_minus)
  qed
qed

lemma representable_of_int:
  assumes "\<bar>i\<bar> \<le> 2 ^ 53"
  shows "representable (of_int i)"
proof (cases "\<bar>i\<bar> = 2 ^ 53")
  case True
  then have i: "i = sgn i * 2 ^ 53" by (metis mult_sgn_abs mult.commute)
  have "of_int i = of_int (sgn i * 2 ^ 52) * (2 powi 1 :: rat)"
    by (subst i) simp
  then show ?thesis by (rule representableI) (simp_all add: abs_mult sgn_if)
next
  case False
  have "of_int i = of_int i * (2 powi 0 :: rat)" by simp
  then show ?thesis by (rule representableI) (use False assms in auto)
qed

lemma representable_0 [simp, intro]: "representable 0"
  using representable_of_int[of 0] by simp

lemma rndq_of_int: "\<bar>i\<bar> \<le> 2 ^ 53 \<Longrightarrow> rndq (of_int i) = of_int i"
  by (simp add: representable_of_int rndq_id)

lemma representable_minus:
  assumes "representable x"
  shows "representable (- x)"
proof -
  obtain m e where x: "x = of_int m * 2 powi e" and m: "\<bar>m\<bar> < 2 ^ 53" and e: "- 1074 \<le> e"
    using assms by (auto simp: representable_def)
  have "- x = of_int (- m) * 2 powi e" by (simp add: x)
  then show ?thesis by (rule representableI) (use m e in simp_all)
qed

lemma representable_rndq_pos:
  assumes "0 < x"
  shows "representable (rndq x)"
proof -
  let ?e = "ulp_exp x" and ?n = "rne (x / 2 powi ulp_exp x)"
  have "x < 2 powi (flog2 x + 1)" using assms by (rule flog2_bounds)
  also have "\<dots> \<le> (2::rat) powi (?e + 53)" using assms by (simp add: ulp_exp_def)
  also have "\<dots> = of_int (2 ^ 53) * 2 powi ?e" by (simp add: power_int_add)
  finally have "x / 2 powi ?e \<le> of_int (2 ^ 53)" by (simp add: pos_divide_le_eq)
  then have up: "?n \<le> 2 ^ 53" by (rule rne_le_of_int)
  have lo: "0 \<le> ?n" using assms by (intro rne_ge_of_int) simp
  have r: "rndq x = of_int ?n * 2 powi ?e" using assms by (simp add: rndq_def)
  have e: "- 1074 \<le> ?e" by (simp add: ulp_exp_def)
  show ?thesis
  proof (cases "?n = 2 ^ 53")
    case True
    have "rndq x = of_int (2 ^ 53) * 2 powi ?e" using r True by argo
    also have "\<dots> = of_int (2 ^ 52) * 2 powi (?e + 1)" by (simp add: power_int_add)
    finally have "rndq x = of_int (2 ^ 52) * 2 powi (?e + 1)" .
    then show ?thesis by (rule representableI) (use e in auto)
  next
    case False
    have "\<bar>?n\<bar> < 2 ^ 53" using False up lo by linarith
    then show ?thesis using representableI[OF r] e by blast
  qed
qed

lemma representable_rndq [simp, intro]: "representable (rndq x)"
proof -
  consider "0 < x" | "x = 0" | "0 < - x" by linarith
  then show ?thesis
  proof cases
    case 3
    then show ?thesis using representable_minus[OF representable_rndq_pos[OF 3]]
      by (simp add: rndq_minus)
  qed (auto intro: representable_rndq_pos)
qed

section \<open>The type and its operations\<close>

datatype float64 = NaN | PInf | NInf | Fin rat

text \<open>Rounding an exact result: overflow is decided after rounding.\<close>

definition overflow_bound :: rat where
  "overflow_bound = 2 ^ 1024"

definition rnd :: "rat \<Rightarrow> float64" where
  "rnd x = (let y = rndq x
            in if overflow_bound \<le> y then PInf else if y \<le> - overflow_bound then NInf else Fin y)"

text \<open>A bit pattern of binary64 denotes one of these values.\<close>

fun valid64 :: "float64 \<Rightarrow> bool" where
  "valid64 (Fin r) = (representable r \<and> \<bar>r\<bar> < overflow_bound)"
| "valid64 _ = True"

fun finite64 :: "float64 \<Rightarrow> bool" where
  "finite64 (Fin _) = True"
| "finite64 _ = False"

fun fadd :: "float64 \<Rightarrow> float64 \<Rightarrow> float64" where
  "fadd (Fin a) (Fin b) = rnd (a + b)"
| "fadd NaN _ = NaN"
| "fadd _ NaN = NaN"
| "fadd PInf NInf = NaN"
| "fadd NInf PInf = NaN"
| "fadd PInf _ = PInf"
| "fadd _ PInf = PInf"
| "fadd NInf _ = NInf"
| "fadd _ NInf = NInf"

fun fneg :: "float64 \<Rightarrow> float64" where
  "fneg NaN = NaN"
| "fneg PInf = NInf"
| "fneg NInf = PInf"
| "fneg (Fin a) = Fin (- a)"

fun fsgn :: "float64 \<Rightarrow> rat" where
  "fsgn NaN = 0"
| "fsgn PInf = 1"
| "fsgn NInf = -1"
| "fsgn (Fin a) = sgn a"

text \<open>The result of a product or quotient one side of which is infinite.\<close>

definition finf :: "rat \<Rightarrow> float64" where
  "finf s = (if s = 0 then NaN else if 0 < s then PInf else NInf)"

fun fmul :: "float64 \<Rightarrow> float64 \<Rightarrow> float64" where
  "fmul (Fin a) (Fin b) = rnd (a * b)"
| "fmul NaN _ = NaN"
| "fmul _ NaN = NaN"
| "fmul a b = finf (fsgn a * fsgn b)"

text \<open>Division; a zero divisor is taken as \<open>+0\<close>.\<close>

fun fdiv :: "float64 \<Rightarrow> float64 \<Rightarrow> float64" where
  "fdiv (Fin a) (Fin b) = (if b = 0 then finf (sgn a) else rnd (a / b))"
| "fdiv NaN _ = NaN"
| "fdiv _ NaN = NaN"
| "fdiv (Fin _) _ = Fin 0"
| "fdiv a (Fin b) = finf (fsgn a * (if b < 0 then -1 else 1))"
| "fdiv _ _ = NaN"

fun fless :: "float64 \<Rightarrow> float64 \<Rightarrow> bool" where
  "fless (Fin a) (Fin b) = (a < b)"
| "fless NInf (Fin _) = True"
| "fless NInf PInf = True"
| "fless (Fin _) PInf = True"
| "fless _ _ = False"

fun fle :: "float64 \<Rightarrow> float64 \<Rightarrow> bool" where
  "fle NaN _ = False"
| "fle _ NaN = False"
| "fle a b = (\<not> fless b a)"

text \<open>Go's \<open>==\<close>, which is false on NaN.\<close>

definition feq :: "float64 \<Rightarrow> float64 \<Rightarrow> bool" where
  "feq a b \<longleftrightarrow> a \<noteq> NaN \<and> a = b"

text \<open>
  The arithmetic signs of the source are the library's, at this type, so that the model of a Go
  expression is the same expression.
\<close>

instantiation float64 :: "{zero, one, plus, minus, uminus, times, inverse, ord}"
begin

definition zero_float64 :: float64 where "zero_float64 = Fin 0"
definition one_float64 :: float64 where "one_float64 = Fin 1"
definition plus_float64 :: "float64 \<Rightarrow> float64 \<Rightarrow> float64" where "plus_float64 = fadd"
definition uminus_float64 :: "float64 \<Rightarrow> float64" where "uminus_float64 = fneg"
definition minus_float64 :: "float64 \<Rightarrow> float64 \<Rightarrow> float64" where
  "minus_float64 a b = fadd a (fneg b)"
definition times_float64 :: "float64 \<Rightarrow> float64 \<Rightarrow> float64" where "times_float64 = fmul"
definition divide_float64 :: "float64 \<Rightarrow> float64 \<Rightarrow> float64" where "divide_float64 = fdiv"
definition inverse_float64 :: "float64 \<Rightarrow> float64" where "inverse_float64 = fdiv (Fin 1)"
definition less_float64 :: "float64 \<Rightarrow> float64 \<Rightarrow> bool" where "less_float64 = fless"
definition less_eq_float64 :: "float64 \<Rightarrow> float64 \<Rightarrow> bool" where "less_eq_float64 = fle"

instance ..

end

lemmas float64_ops =
  zero_float64_def one_float64_def plus_float64_def uminus_float64_def minus_float64_def
  times_float64_def divide_float64_def less_float64_def less_eq_float64_def

text \<open>A float literal of the source denotes the nearest binary64 value.\<close>

abbreviation flit :: "rat \<Rightarrow> float64" where "flit \<equiv> rnd"

text \<open>\<open>float64(i)\<close> for an integer \<open>i\<close>.\<close>

definition i2f :: "int \<Rightarrow> float64" where
  "i2f i = rnd (of_int i)"

text \<open>
  \<open>int(x)\<close>: truncation towards zero. For a NaN or a value outside the 64-bit range the Go
  specification leaves the result to the implementation: it is the parameter \<open>cv\<close> of every
  definition that converts (\<open>amd64_cv\<close> is what the amd64 instruction gives).
\<close>

definition trunc :: "rat \<Rightarrow> int" where
  "trunc r = (if 0 \<le> r then \<lfloor>r\<rfloor> else \<lceil>r\<rceil>)"

fun f2i :: "(float64 \<Rightarrow> int) \<Rightarrow> float64 \<Rightarrow> int" where
  "f2i cv (Fin r) = (if int64 (trunc r) then trunc r else cv (Fin r))"
| "f2i cv x = cv x"

definition amd64_cv :: "float64 \<Rightarrow> int" where
  "amd64_cv x = - (2 ^ 63)"

text \<open>Package \<open>math\<close>: \<open>Floor\<close>, \<open>Ceil\<close>, \<open>Round\<close> (halves away from zero), \<open>Abs\<close>, \<open>Max\<close>.\<close>

fun ffloor :: "float64 \<Rightarrow> float64" where
  "ffloor (Fin r) = Fin (of_int \<lfloor>r\<rfloor>)"
| "ffloor x = x"

fun fceil :: "float64 \<Rightarrow> float64" where
  "fceil (Fin r) = Fin (of_int \<lceil>r\<rceil>)"
| "fceil x = x"

fun fround :: "float64 \<Rightarrow> float64" where
  "fround (Fin r) = Fin (of_int (if 0 \<le> r then \<lfloor>r + 1/2\<rfloor> else \<lceil>r - 1/2\<rceil>))"
| "fround x = x"

fun fabs :: "float64 \<Rightarrow> float64" where
  "fabs (Fin r) = Fin \<bar>r\<bar>"
| "fabs NInf = PInf"
| "fabs x = x"

definition fmax :: "float64 \<Rightarrow> float64 \<Rightarrow> float64" where
  "fmax x y = (if x = PInf \<or> y = PInf then PInf
               else if x = NaN \<or> y = NaN then NaN
               else if fless y x then x else y)"

text \<open>
  \<open>math.Sqrt\<close> is correctly rounded. The argument is scaled by a power of 4 until its integer square
  root has at least 55 bits; a non-square remainder is replaced by one half, which rounds to 53
  bits like the exact root.
\<close>

function isqrt :: "int \<Rightarrow> int" where
  "isqrt n = (if n \<le> 0 then 0
              else let s = 2 * isqrt (n div 4) in if (s + 1) * (s + 1) \<le> n then s + 1 else s)"
  by pat_completeness auto
termination
  by (relation "measure nat") auto

declare isqrt.simps [simp del]

definition sqrtq :: "rat \<Rightarrow> rat" where
  "sqrtq x = (let k = 56 - flog2 x div 2;
                  y = x * 2 powi (2 * k);
                  s = isqrt \<lfloor>y\<rfloor>
              in (of_int s + (if of_int s * of_int s = y then 0 else 1/2)) / 2 powi k)"

fun fsqrt :: "float64 \<Rightarrow> float64" where
  "fsqrt (Fin x) = (if x = 0 then Fin 0 else if x < 0 then NaN else rnd (sqrtq x))"
| "fsqrt PInf = PInf"
| "fsqrt _ = NaN"

lemma overflow_bound_powi: "overflow_bound = 2 powi 1024"
  by (simp add: overflow_bound_def power_int_def)

lemma overflow_bound_pos [simp]: "0 < overflow_bound"
  by (simp add: overflow_bound_powi del: power_int_numeral)

section \<open>Evaluation\<close>

text \<open>
  Code equations over integers: a rounding is computed on the numerator and the denominator and its
  result is a fraction of numerals, so that evaluation never carries a growing rational expression.
\<close>

function pow2 :: "int \<Rightarrow> int" where
  "pow2 k = (if k \<le> 0 then 1
             else if even k then (let s = pow2 (k div 2) in s * s) else 2 * pow2 (k - 1))"
  by pat_completeness auto
termination
  by (relation "measure nat") auto

declare pow2.simps [simp del]

lemma pow2_eq: "pow2 k = 2 ^ nat k"
proof (induction k rule: pow2.induct)
  case (1 k)
  consider "k \<le> 0" | "0 < k" "even k" | "0 < k" "odd k" by linarith
  then show ?case
  proof cases
    case 1
    then show ?thesis by (subst pow2.simps) simp
  next
    case 2
    then have "nat k = nat (k div 2) + nat (k div 2)" by (auto elim!: evenE simp: nat_add_distrib[symmetric])
    then show ?thesis using 2 1 by (subst pow2.simps) (simp add: Let_def power_add)
  next
    case 3
    then have "nat k = Suc (nat (k - 1))" by simp
    then show ?thesis using 3 1 by (subst pow2.simps) simp
  qed
qed

lemma powi_pow2: "(2::rat) powi k = (if 0 \<le> k then of_int (pow2 k) else 1 / of_int (pow2 (- k)))"
  unfolding pow2_eq power_int_def by (simp add: power_inverse inverse_eq_divide power_one_over)

text \<open>Bit lengths and fractions over powers of two are computed on the binary numerals.\<close>

fun num_len :: "num \<Rightarrow> int" where
  "num_len num.One = 1"
| "num_len (num.Bit0 n) = num_len n + 1"
| "num_len (num.Bit1 n) = num_len n + 1"

lemma bitlen_step: "0 < x \<Longrightarrow> bitlen (x + x) = bitlen x + 1" "0 < x \<Longrightarrow> bitlen (x + x + 1) = bitlen x + 1" for x :: int
proof -
  assume x: "0 < x"
  have "(x + x) div 2 = x" "(x + x + 1) div 2 = x" by auto
  then show "bitlen (x + x) = bitlen x + 1" "bitlen (x + x + 1) = bitlen x + 1"
    using x compute_bitlen[of "x + x"] compute_bitlen[of "x + x + 1"] by simp_all
qed

lemma bitlen_numeral: "bitlen (numeral n) = num_len n"
proof (induction n)
  case One
  show ?case using compute_bitlen[of 1] by (simp add: bitlen_eq_zero_iff)
next
  case (Bit0 n)
  then show ?case unfolding numeral_Bit0 by (subst bitlen_step(1)) simp_all
next
  case (Bit1 n)
  then show ?case unfolding numeral_Bit1 by (subst bitlen_step(2)) simp_all
qed

lemma bitlen_code [code]:
  "bitlen 0 = 0" "bitlen (Int.Pos n) = num_len n" "bitlen (Int.Neg n) = 0"
  using bitlen_numeral[of n] by (simp_all add: bitlen_eq_zero_iff)

fun num_pow2 :: "num \<Rightarrow> bool" where
  "num_pow2 num.One = True"
| "num_pow2 (num.Bit0 n) = num_pow2 n"
| "num_pow2 (num.Bit1 n) = False"

fun strip_num :: "num \<Rightarrow> num \<Rightarrow> num \<times> num" where
  "strip_num (num.Bit0 a) (num.Bit0 b) = strip_num a b"
| "strip_num a b = (a, b)"

lemma num_pow2_power: "num_pow2 b \<Longrightarrow> \<exists>k. numeral b = (2 ^ k :: int)"
proof (induction b)
  case One
  show ?case by (intro exI[of _ 0]) simp
next
  case (Bit0 b)
  then obtain k where "numeral b = (2 ^ k :: int)" by auto
  then have "numeral (num.Bit0 b) = (2 ^ Suc k :: int)" by (simp only: numeral_Bit0[of b] power_Suc mult_2)
  then show ?case ..
qed simp

lemma normalize_double:
  assumes "0 < q"
  shows "Rat.normalize (2 * p, 2 * q) = Rat.normalize (p, q)"
proof -
  have "gcd (2 * p) (2 * q) = 2 * gcd p q" using gcd_mult_distrib_int[of 2 p q] by simp
  moreover have "2 * p div (2 * gcd p q) = p div gcd p q" "2 * q div (2 * gcd p q) = q div gcd p q" by simp_all
  ultimately show ?thesis unfolding Rat.normalize_def fst_conv snd_conv Let_def using assms by simp
qed

lemma normalize_base:
  fixes s x q :: int
  assumes "coprime x q" "0 < q" "s = 1 \<or> s = - 1"
  shows "Rat.normalize (s * x, q) = (s * x, q)"
proof (rule normalize_stable[OF assms(2)])
  show "coprime (s * x) q" using assms(1,3) by (elim disjE) simp_all
qed

lemma normalize_strip:
  assumes "num_pow2 b" "s = 1 \<or> s = - 1"
  shows "Rat.normalize (s * numeral a, numeral b) =
         (case strip_num a b of (a', b') \<Rightarrow> (s * numeral a', numeral b'))"
  using assms(1)
proof (induction a b rule: strip_num.induct, goal_cases)
  case (1 a b)
  have "Rat.normalize (s * numeral (num.Bit0 a), numeral (num.Bit0 b)) = Rat.normalize (2 * (s * numeral a), 2 * numeral b)"
    unfolding mult_2 numeral_Bit0[of a] numeral_Bit0[of b] distrib_left ..
  also have "\<dots> = Rat.normalize (s * numeral a, numeral b)" by (rule normalize_double) simp
  also have "\<dots> = (case strip_num a b of (a', b') \<Rightarrow> (s * numeral a', numeral b'))"
    by (rule 1(1)) (use 1(2) in \<open>simp only: num_pow2.simps\<close>)
  finally show ?case by (simp only: strip_num.simps)
next
  case (2 b)
  have "coprime 1 (numeral b :: int)" by simp
  from normalize_base[OF this _ assms(2)] show ?case by simp
next
  case (3 v b)
  obtain k where k: "numeral b = (2 ^ k :: int)" using num_pow2_power 3 by blast
  have "coprime (numeral (num.Bit1 v)) (numeral b :: int)"
    unfolding k by (simp only: coprime_power_right_iff coprime_right_2_iff_odd odd_numeral simp_thms)
  from normalize_base[OF this _ assms(2)] show ?case by (simp only: strip_num.simps prod.case zero_less_numeral)
next
  case (4 v)
  have "coprime (numeral (num.Bit0 v)) (1 :: int)" by simp
  from normalize_base[OF this _ assms(2)] show ?case by simp
next
  case (5 a v)
  then show ?case by (simp only: num_pow2.simps)
qed

lemma normalize_code [code]:
  "Rat.normalize (Int.Pos a, Int.Pos b) =
     (if num_pow2 b then (case strip_num a b of (a', b') \<Rightarrow> (Int.Pos a', Int.Pos b'))
      else let g = gcd (Int.Pos a) (Int.Pos b) in (Int.Pos a div g, Int.Pos b div g))"
  "Rat.normalize (Int.Neg a, Int.Pos b) =
     (if num_pow2 b then (case strip_num a b of (a', b') \<Rightarrow> (Int.Neg a', Int.Pos b'))
      else let g = gcd (Int.Neg a) (Int.Pos b) in (Int.Neg a div g, Int.Pos b div g))"
  "Rat.normalize (0, Int.Pos b) = (0, 1)"
  "Rat.normalize (p, 0) = (0, 1)"
  "Rat.normalize (p, Int.Neg b) =
     (let g = - gcd p (Int.Neg b) in (p div g, Int.Neg b div g))"
proof -
  have "Rat.normalize (0, q) = (0, 1)" if "0 < q" for q using that by (simp add: Rat.normalize_def Let_def)
  then show "Rat.normalize (0, Int.Pos b) = (0, 1)" by simp
qed (use normalize_strip[of b 1 a] normalize_strip[of b "-1" a] in
    \<open>auto simp: Rat.normalize_def Let_def split: prod.splits\<close>)

text \<open>The rounding of a positive fraction, in steps that each evaluate their arguments once.\<close>

definition flog2_step :: "int \<Rightarrow> int \<Rightarrow> int \<Rightarrow> int" where
  "flog2_step n d k = (if (if 0 \<le> k then pow2 k * d \<le> n else d \<le> n * pow2 (- k)) then k else k - 1)"

definition fexp :: "int \<Rightarrow> int \<Rightarrow> int" where
  "fexp n d = max (flog2_step n d (bitlen n - bitlen d) - 52) (- 1074)"

definition rne_step :: "int \<Rightarrow> int \<Rightarrow> int \<Rightarrow> int" where
  "rne_step b f r = (if r < b then f else if b < r then f + 1 else if even f then f else f + 1)"

definition rne_div :: "int \<Rightarrow> int \<Rightarrow> int" where
  "rne_div a b = rne_step b (a div b) (2 * (a mod b))"

definition fmant :: "int \<Rightarrow> int \<Rightarrow> int \<Rightarrow> int" where
  "fmant n d e = (if 0 \<le> e then rne_div n (d * pow2 e) else rne_div (n * pow2 (- e)) d)"

definition fpack :: "bool \<Rightarrow> int \<Rightarrow> int \<Rightarrow> float64" where
  "fpack neg m e =
     (if m \<noteq> 0 \<and> bitlen m + e > 1024 then (if neg then NInf else PInf)
      else if 0 \<le> e then Fin (Fract ((if neg then - m else m) * pow2 e) 1)
      else Fin (Fract (if neg then - m else m) (pow2 (- e))))"

definition rnd_at :: "bool \<Rightarrow> int \<Rightarrow> int \<Rightarrow> int \<Rightarrow> float64" where
  "rnd_at neg n d e = fpack neg (fmant n d e) e"

definition rnd_ratio :: "int \<Rightarrow> int \<Rightarrow> float64" where
  "rnd_ratio n d =
     (if n = 0 then Fin (Fract 0 1) else if 0 < n then rnd_at False n d (fexp n d) else rnd_at True (- n) d (fexp (- n) d))"

lemma flog2_unique:
  assumes "2 powi l \<le> x" "x < 2 powi (l + 1)"
  shows "flog2 x = l"
proof -
  have "(0::rat) < 2 powi l" by simp
  then have x: "0 < x" using assms(1) by linarith
  note b = flog2_bounds[OF x]
  have "(2::rat) powi l < 2 powi (flog2 x + 1)" "(2::rat) powi flog2 x < 2 powi (l + 1)"
    using le_less_trans[OF assms(1) b(2)] le_less_trans[OF b(1) assms(2)] .
  then show ?thesis unfolding powi2_less_iff by linarith
qed

lemma powi_le_frac:
  assumes "0 < d"
  shows "2 powi k \<le> (of_int n / of_int d :: rat) \<longleftrightarrow> (if 0 \<le> k then pow2 k * d \<le> n else d \<le> n * pow2 (- k))"
proof -
  have p: "0 < pow2 j" for j by (simp add: pow2_eq)
  have "2 powi k \<le> (of_int n / of_int d :: rat) \<longleftrightarrow>
      (if 0 \<le> k then of_int (pow2 k) * of_int d \<le> (of_int n :: rat)
       else of_int d \<le> (of_int n * of_int (pow2 (- k)) :: rat))"
    unfolding powi_pow2 using assms p[of "-k"] by (simp add: field_simps)
  then show ?thesis by (simp only: of_int_mult[symmetric] of_int_le_iff)
qed

lemma flog2_frac:
  assumes n: "0 < n" and d: "0 < d"
  shows "flog2 (of_int n / of_int d) = flog2_step n d (bitlen n - bitlen d)"
proof -
  let ?k = "bitlen n - bitlen d" and ?x = "of_int n / of_int d :: rat"
  note bn = bitlen_powi[OF n] and bd = bitlen_powi[OF d]
  have dp: "(0::rat) < of_int d" using d by simp
  have e: "(2::rat) powi (a + b) = 2 powi a * 2 powi b" for a b by (simp add: power_int_add)
  have "(2::rat) powi (?k - 1) * of_int d \<le> 2 powi (?k - 1) * 2 powi bitlen d"
    using bd(2) by (intro mult_left_mono) simp_all
  also have "\<dots> = 2 powi (bitlen n - 1)" unfolding e[symmetric] by (simp add: algebra_simps)
  also have "\<dots> \<le> of_int n" by (rule bn(1))
  finally have lo: "2 powi (?k - 1) \<le> ?x" using dp by (simp only: pos_le_divide_eq)
  have "of_int n < (2::rat) powi bitlen n" by (rule bn(2))
  also have "\<dots> = 2 powi (?k + 1) * 2 powi (bitlen d - 1)" unfolding e[symmetric] by (simp add: algebra_simps)
  also have "\<dots> \<le> 2 powi (?k + 1) * of_int d" using bd(1) by (intro mult_left_mono) simp_all
  finally have hi: "?x < 2 powi (?k + 1)" using dp by (simp only: pos_divide_less_eq)
  show ?thesis
  proof (cases "2 powi ?k \<le> ?x")
    case True
    then show ?thesis unfolding flog2_step_def powi_le_frac[OF d, symmetric] using flog2_unique[OF True hi] by (simp only: if_True)
  next
    case False
    then have "?x < 2 powi (?k - 1 + 1)" by simp
    from flog2_unique[OF lo this] False show ?thesis
      unfolding flog2_step_def powi_le_frac[OF d, symmetric] by (simp only: if_False)
  qed
qed

lemma rne_div_frac: "0 < b \<Longrightarrow> rne (of_int a / of_int b) = rne_div a b"
proof -
  assume b: "0 < b"
  let ?f = "a div b"
  have fl: "\<lfloor>of_int a / (of_int b :: rat)\<rfloor> = ?f" by (rule floor_divide_of_int_eq)
  have r: "of_int a / of_int b - (of_int ?f :: rat) = of_int (a - ?f * b) / of_int b"
    using b by (simp add: field_simps)
  have "of_int (a - ?f * b) / of_int b < (1/2 :: rat) \<longleftrightarrow> of_int (2 * (a - ?f * b)) < (of_int b :: rat)"
    "(1/2 :: rat) < of_int (a - ?f * b) / of_int b \<longleftrightarrow> (of_int b :: rat) < of_int (2 * (a - ?f * b))"
    using b by (simp_all add: field_simps)
  then show ?thesis
    unfolding rne_def fl Let_def r rne_div_def rne_step_def minus_div_mult_eq_mod by (simp only: of_int_less_iff)
qed

lemma rndq_frac:
  assumes "0 < n" "0 < d"
  shows "rndq (of_int n / of_int d) = of_int (fmant n d (fexp n d)) * 2 powi fexp n d"
proof -
  let ?x = "of_int n / of_int d :: rat" and ?e = "fexp n d"
  have pos: "0 < ?x" using assms by simp
  have e: "ulp_exp ?x = ?e" using pos flog2_frac[OF assms] by (simp only: ulp_exp_def fexp_def abs_of_pos)
  have p: "0 < pow2 k" for k by (simp add: pow2_eq)
  have "rne (?x / 2 powi ?e) = fmant n d ?e"
  proof (cases "0 \<le> ?e")
    case True
    have "?x / 2 powi ?e = of_int n / of_int (d * pow2 ?e)" unfolding powi_pow2 using True by simp
    then have "rne (?x / 2 powi ?e) = rne_div n (d * pow2 ?e)"
      using rne_div_frac[of "d * pow2 ?e" n] assms(2) p by (simp only: zero_less_mult_iff simp_thms)
    then show ?thesis using True by (simp only: fmant_def if_True)
  next
    case False
    have "?x / 2 powi ?e = of_int (n * pow2 (- ?e)) / of_int d" unfolding powi_pow2 using False by simp
    then have "rne (?x / 2 powi ?e) = rne_div (n * pow2 (- ?e)) d"
      using rne_div_frac[OF assms(2), of "n * pow2 (- ?e)"] by simp
    then show ?thesis using False by (simp only: fmant_def if_False)
  qed
  then show ?thesis unfolding rndq_def e using pos by (simp only: if_False less_imp_neq[symmetric] simp_thms)
qed

lemma overflow_mant:
  assumes "0 \<le> m"
  shows "overflow_bound \<le> of_int m * 2 powi e \<longleftrightarrow> m \<noteq> 0 \<and> bitlen m + e > 1024"
proof (cases "m = 0")
  case True
  then show ?thesis using overflow_bound_pos by (simp add: not_le del: overflow_bound_pos)
next
  case False
  then have m: "0 < m" using assms by simp
  note b = bitlen_powi[OF m]
  have pos: "(0::rat) < 2 powi e" by simp
  have "2 powi (bitlen m - 1) * 2 powi e \<le> of_int m * (2 powi e :: rat)"
    by (rule mult_right_mono[OF b(1) less_imp_le[OF pos]])
  then have lo: "2 powi (bitlen m - 1 + e) \<le> of_int m * (2 powi e :: rat)"
    by (simp only: power_int_add[of "2::rat"] zero_neq_numeral[symmetric] simp_thms not_False_eq_True)
  have "of_int m * (2 powi e :: rat) < 2 powi bitlen m * 2 powi e"
    by (rule mult_strict_right_mono[OF b(2) pos])
  then have hi: "of_int m * (2 powi e :: rat) < 2 powi (bitlen m + e)"
    by (simp only: power_int_add[of "2::rat"] zero_neq_numeral[symmetric] simp_thms not_False_eq_True)
  show ?thesis
  proof (cases "bitlen m + e > 1024")
    case True
    then have "(2::rat) powi 1024 \<le> 2 powi (bitlen m - 1 + e)" unfolding powi2_le_iff by linarith
    from order_trans[OF this lo] have "overflow_bound \<le> of_int m * 2 powi e" by (simp only: overflow_bound_powi)
    then show ?thesis using True m by (simp only: simp_thms)
  next
    case False
    then have "(2::rat) powi (bitlen m + e) \<le> 2 powi 1024" unfolding powi2_le_iff by linarith
    from less_le_trans[OF hi this] have "of_int m * 2 powi e < overflow_bound" by (simp only: overflow_bound_powi)
    then show ?thesis using False by (simp only: not_le[symmetric] simp_thms)
  qed
qed

lemma fpack_value:
  assumes "0 \<le> m" "rndq x = of_int m * 2 powi e"
  shows "rnd x = fpack False m e" "rnd (- x) = fpack True m e"
proof -
  define y where "y = (of_int m * 2 powi e :: rat)"
  have "0 \<le> y" using assms(1) by (simp add: y_def)
  then have le: "\<not> y \<le> - overflow_bound" "\<not> overflow_bound \<le> - y" using overflow_bound_pos by linarith+
  have neg: "- y \<le> - overflow_bound \<longleftrightarrow> overflow_bound \<le> y" by linarith
  have big: "overflow_bound \<le> y \<longleftrightarrow> m \<noteq> 0 \<and> bitlen m + e > 1024"
    unfolding y_def by (rule overflow_mant[OF assms(1)])
  have val: "y = (if 0 \<le> e then of_int (m * pow2 e) else of_int m / of_int (pow2 (- e)))"
    unfolding y_def powi_pow2[of e] by simp
  have p: "0 < pow2 (- e)" by (simp add: pow2_eq)
  have F: "Fin y = (if 0 \<le> e then Fin (Fract (m * pow2 e) 1) else Fin (Fract m (pow2 (- e))))"
    "Fin (- y) = (if 0 \<le> e then Fin (Fract (- m * pow2 e) 1) else Fin (Fract (- m) (pow2 (- e))))"
    unfolding val by (simp_all add: Fract_of_int_quotient)
  show "rnd x = fpack False m e"
    unfolding rnd_def Let_def assms(2) y_def[symmetric] fpack_def big[symmetric] if_False F(1)[symmetric]
    using le(1) by (simp only: if_False)
  have "rndq (- x) = - y" unfolding rndq_minus assms(2) y_def ..
  then show "rnd (- x) = fpack True m e"
    unfolding rnd_def Let_def fpack_def big[symmetric] if_True F(2)[symmetric]
    using le(2) neg by (simp only: if_False)
qed

lemma rnd_ratio: "0 < d \<Longrightarrow> rnd (of_int n / of_int d) = rnd_ratio n d"
proof -
  assume d: "0 < d"
  have m: "0 \<le> fmant k d (fexp k d)" if "0 < k" for k
  proof -
    have "0 \<le> rndq (of_int k / of_int d)" using that d by (intro rndq_nonneg) simp
    moreover have "(0::rat) < 2 powi fexp k d" by simp
    ultimately show ?thesis unfolding rndq_frac[OF that d] by (auto simp: zero_le_mult_iff)
  qed
  consider "n = 0" | "0 < n" | "0 < - n" by linarith
  then show ?thesis
  proof cases
    case 2
    from fpack_value(1)[OF m[OF 2] rndq_frac[OF 2 d]] 2 show ?thesis by (simp add: rnd_ratio_def rnd_at_def)
  next
    case 3
    from fpack_value(2)[OF m[OF 3] rndq_frac[OF 3 d]] 3 show ?thesis by (simp add: rnd_ratio_def rnd_at_def)
  qed (simp add: rnd_ratio_def rat_number_collapse rnd_def rndq_def not_le)
qed

fun rnd_pair :: "int \<times> int \<Rightarrow> float64" where
  "rnd_pair (n, d) = rnd_ratio n d"

fun fadd_pair :: "int \<times> int \<Rightarrow> int \<times> int \<Rightarrow> float64" where
  "fadd_pair (a, b) (c, d) = rnd_ratio (a * d + c * b) (b * d)"

fun fmul_pair :: "int \<times> int \<Rightarrow> int \<times> int \<Rightarrow> float64" where
  "fmul_pair (a, b) (c, d) = rnd_ratio (a * c) (b * d)"

fun fdiv_pair :: "int \<times> int \<Rightarrow> int \<times> int \<Rightarrow> float64" where
  "fdiv_pair (a, b) (c, d) =
     (if c = 0 then finf (of_int (sgn a)) else rnd_ratio (if c < 0 then - (a * d) else a * d) (b * \<bar>c\<bar>))"

fun fless_pair :: "int \<times> int \<Rightarrow> int \<times> int \<Rightarrow> bool" where
  "fless_pair (a, b) (c, d) = (a * d < c * b)"

lemma quotient_of_E:
  obtains n d where "quotient_of x = (n, d)" "x = of_int n / of_int d" "0 < d"
  using that quotient_of_div quotient_of_denom_pos by (cases "quotient_of x") blast

lemma rnd_code [code]: "rnd x = rnd_pair (quotient_of x)"
  by (rule quotient_of_E[of x]) (simp add: rnd_ratio)

lemma fadd_Fin_code: "fadd (Fin x) (Fin y) = fadd_pair (quotient_of x) (quotient_of y)"
proof -
  obtain a b where x: "quotient_of x = (a, b)" "x = of_int a / of_int b" "0 < b" by (rule quotient_of_E)
  obtain c d where y: "quotient_of y = (c, d)" "y = of_int c / of_int d" "0 < d" by (rule quotient_of_E)
  have "x + y = of_int (a * d + c * b) / of_int (b * d)" using x(2,3) y(2,3) by (simp add: field_simps)
  then show ?thesis using rnd_ratio[of "b * d" "a * d + c * b"] x y by simp
qed

lemma fmul_Fin_code: "fmul (Fin x) (Fin y) = fmul_pair (quotient_of x) (quotient_of y)"
proof -
  obtain a b where x: "quotient_of x = (a, b)" "x = of_int a / of_int b" "0 < b" by (rule quotient_of_E)
  obtain c d where y: "quotient_of y = (c, d)" "y = of_int c / of_int d" "0 < d" by (rule quotient_of_E)
  have "x * y = of_int (a * c) / of_int (b * d)" using x(2,3) y(2,3) by simp
  then show ?thesis using rnd_ratio[of "b * d" "a * c"] x y by simp
qed

lemma fdiv_Fin_code: "fdiv (Fin x) (Fin y) = fdiv_pair (quotient_of x) (quotient_of y)"
proof -
  obtain a b where x: "quotient_of x = (a, b)" "x = of_int a / of_int b" "0 < b" by (rule quotient_of_E)
  obtain c d where y: "quotient_of y = (c, d)" "y = of_int c / of_int d" "0 < d" by (rule quotient_of_E)
  have sg: "sgn x = of_int (sgn a)" using x(3) unfolding x(2) by (simp add: sgn_if zero_less_divide_iff)
  show ?thesis
  proof (cases "c = 0")
    case False
    have "x / y = of_int (if c < 0 then - (a * d) else a * d) / of_int (b * \<bar>c\<bar>)"
      using x(3) y(3) False unfolding x(2) y(2) by (simp add: field_simps)
    moreover have "0 < b * \<bar>c\<bar>" using x(3) False by simp
    ultimately show ?thesis using rnd_ratio[of "b * \<bar>c\<bar>" "if c < 0 then - (a * d) else a * d"] x(1) y False by simp
  qed (use x(1) y sg in simp)
qed

lemma fless_Fin_code: "fless (Fin x) (Fin y) = fless_pair (quotient_of x) (quotient_of y)"
proof -
  obtain a b where x: "quotient_of x = (a, b)" "x = of_int a / of_int b" "0 < b" by (rule quotient_of_E)
  obtain c d where y: "quotient_of y = (c, d)" "y = of_int c / of_int d" "0 < d" by (rule quotient_of_E)
  have "x < y \<longleftrightarrow> (of_int (a * d) :: rat) < of_int (c * b)" using x(3) y(3) unfolding x(2) y(2) by (simp add: field_simps)
  then show ?thesis using x(1) y(1) by (simp only: fless.simps fless_pair.simps of_int_less_iff)
qed

lemmas fadd_code [code] = fadd_Fin_code fadd.simps(2-)
lemmas fmul_code [code] = fmul_Fin_code fmul.simps(2-)
lemmas fdiv_code [code] = fdiv_Fin_code fdiv.simps(2-)
lemmas fless_code [code] = fless_Fin_code fless.simps(2-)

lemma flog2_code [code]:
  "flog2 x = (case quotient_of x of (n, d) \<Rightarrow> flog2_step n d (bitlen n - bitlen d))"
proof -
  obtain n d where q: "quotient_of x = (n, d)" by (cases "quotient_of x")
  then have x: "x = of_int n / of_int d" and d: "0 < d"
    by (simp_all add: quotient_of_div quotient_of_denom_pos)
  show ?thesis unfolding flog2_def q prod.case flog2_step_def powi_le_frac[OF d, symmetric] x[symmetric] Let_def ..
qed


lemma sqrtq_code [code]:
  "sqrtq x = (case quotient_of x of (n, d) \<Rightarrow>
     (let k = 56 - flog2 x div 2;
          (a, b) = (if 0 \<le> k then (n * pow2 (2 * k), d) else (n, d * pow2 (- (2 * k))));
          s = isqrt (a div b);
          t = 2 * s + (if s * s * b = a then 0 else 1)
      in if 0 \<le> k then of_int t / of_int (2 * pow2 k) else of_int (t * pow2 (- k)) / 2))"
proof -
  obtain n d where q: "quotient_of x = (n, d)" by (cases "quotient_of x")
  then have x: "x = of_int n / of_int d" and d: "0 < d"
    by (simp_all add: quotient_of_div quotient_of_denom_pos)
  define k where "k = 56 - flog2 x div 2"
  define a where "a = (if 0 \<le> k then n * pow2 (2 * k) else n)"
  define b where "b = (if 0 \<le> k then d else d * pow2 (- (2 * k)))"
  define s where "s = isqrt (a div b)"
  have p: "0 < pow2 j" for j by (simp add: pow2_eq)
  have b: "0 < b" using d p by (simp add: b_def)
  have y: "x * 2 powi (2 * k) = of_int a / of_int b"
    by (simp add: a_def b_def x powi_pow2)
  have fl: "\<lfloor>x * 2 powi (2 * k)\<rfloor> = a div b" unfolding y by (rule floor_divide_of_int_eq)
  have "of_int s * of_int s = x * 2 powi (2 * k) \<longleftrightarrow> (of_int (s * s * b) :: rat) = of_int a"
    unfolding y using b by (simp add: eq_divide_eq)
  then have eq: "of_int s * of_int s = x * 2 powi (2 * k) \<longleftrightarrow> s * s * b = a"
    by (simp only: of_int_eq_iff)
  have "sqrtq x = (of_int s + (if s * s * b = a then 0 else 1/2)) / 2 powi k"
    unfolding sqrtq_def Let_def k_def[symmetric] fl s_def[symmetric] eq ..
  also have "\<dots> = (if 0 \<le> k then of_int (2 * s + (if s * s * b = a then 0 else 1)) / of_int (2 * pow2 k)
       else of_int ((2 * s + (if s * s * b = a then 0 else 1)) * pow2 (- k)) / 2)"
    using p[of k] by (simp add: powi_pow2 field_simps)
  finally show ?thesis
    unfolding q Let_def k_def[symmetric] by (cases "0 \<le> k") (simp_all add: a_def b_def s_def)
qed

text \<open>The integer square root under \<open>fsqrt\<close> is the exact one.\<close>

lemma isqrt_spec:
  assumes "0 \<le> n"
  shows "0 \<le> isqrt n \<and> isqrt n * isqrt n \<le> n \<and> n < (isqrt n + 1) * (isqrt n + 1)"
  using assms
proof (induction n rule: isqrt.induct)
  case (1 n)
  show ?case
  proof (cases "n \<le> 0")
    case True
    then show ?thesis using 1 by (subst isqrt.simps, subst (2) isqrt.simps) (simp add: isqrt.simps)
  next
    case False
    let ?s = "isqrt (n div 4)"
    have IH: "0 \<le> ?s" "?s * ?s \<le> n div 4" "n div 4 < (?s + 1) * (?s + 1)" using 1 False by auto
    have "4 * (?s * ?s) \<le> n" "n < 4 * ((?s + 1) * (?s + 1))" using IH by linarith+
    then show ?thesis using False IH(1)
      by (subst (1 2 3 4 5) isqrt.simps) (auto simp: Let_def algebra_simps)
  qed
qed

section \<open>Order\<close>

text \<open>
  The comparisons on the constructors. NaN compares false with everything; the other values are
  linearly ordered.
\<close>

lemma float64_less [simp]:
  "Fin a < Fin b \<longleftrightarrow> a < b" "NInf < Fin a" "NInf < PInf" "Fin a < PInf"
  "\<not> NaN < x" "\<not> x < NaN" "\<not> PInf < x" "\<not> x < NInf"
  by (cases x; simp add: less_float64_def)+

lemma float64_le [simp]:
  "Fin a \<le> Fin b \<longleftrightarrow> a \<le> b" "NInf \<le> x \<longleftrightarrow> x \<noteq> NaN" "x \<le> PInf \<longleftrightarrow> x \<noteq> NaN"
  "\<not> NaN \<le> x" "\<not> x \<le> NaN" "PInf \<le> x \<longleftrightarrow> x = PInf" "x \<le> NInf \<longleftrightarrow> x = NInf"
  by (cases x; auto simp: less_eq_float64_def)+

lemma zero_float64 [simp]: "(0::float64) = Fin 0"
  by (simp add: zero_float64_def)

lemma one_float64 [simp]: "(1::float64) = Fin 1"
  by (simp add: one_float64_def)

lemma float64_le_refl [simp]: "x \<le> (x::float64) \<longleftrightarrow> x \<noteq> NaN"
  by (cases x) auto

lemma float64_le_trans: "x \<le> y \<Longrightarrow> y \<le> z \<Longrightarrow> x \<le> (z::float64)"
  by (cases x; cases y; cases z) auto

lemma float64_less_le_trans: "x < y \<Longrightarrow> y \<le> z \<Longrightarrow> x < (z::float64)"
  by (cases x; cases y; cases z) auto

lemma float64_le_less_trans: "x \<le> y \<Longrightarrow> y < z \<Longrightarrow> x < (z::float64)"
  by (cases x; cases y; cases z) auto

lemma float64_less_imp_le: "x < y \<Longrightarrow> x \<le> (y::float64)"
  by (cases x; cases y) auto

lemma float64_not_less: "x \<noteq> NaN \<Longrightarrow> y \<noteq> NaN \<Longrightarrow> \<not> x < y \<longleftrightarrow> y \<le> (x::float64)"
  by (cases x; cases y) auto

lemma float64_not_le: "x \<noteq> NaN \<Longrightarrow> y \<noteq> NaN \<Longrightarrow> \<not> x \<le> y \<longleftrightarrow> y < (x::float64)"
  by (cases x; cases y) auto

lemma float64_le_antisym: "x \<le> y \<Longrightarrow> y \<le> x \<Longrightarrow> x = (y::float64)"
  by (cases x; cases y) auto

lemma float64_le_notNaN: "x \<le> (y::float64) \<Longrightarrow> x \<noteq> NaN \<and> y \<noteq> NaN"
  by auto

section \<open>Rounding and arithmetic\<close>

lemma rnd_not_NaN [simp]: "rnd x \<noteq> NaN" "NaN \<noteq> rnd x"
  by (simp_all add: rnd_def Let_def)

lemma rnd_mono: "x \<le> y \<Longrightarrow> rnd x \<le> rnd y"
  using rndq_mono[of x y] overflow_bound_pos by (auto simp: rnd_def Let_def)

lemma valid64_rnd [simp, intro]: "valid64 (rnd x)"
  by (auto simp: rnd_def Let_def not_le abs_less_iff)

lemma rnd_id: "valid64 (Fin r) \<Longrightarrow> rnd r = Fin r"
  by (auto simp: rnd_def rndq_id abs_less_iff)

lemma rnd_of_int: "\<bar>i\<bar> \<le> 2 ^ 53 \<Longrightarrow> rnd (of_int i) = Fin (of_int i)"
proof -
  assume i: "\<bar>i\<bar> \<le> 2 ^ 53"
  have "\<bar>of_int i\<bar> \<le> (of_int (2 ^ 53) :: rat)"
    using i by (simp only: of_int_abs [symmetric] of_int_le_iff)
  also have "\<dots> < 2 powi 1024" by (simp del: power_int_numeral add: power_int_def)
  finally have "\<bar>of_int i\<bar> < overflow_bound" by (simp only: overflow_bound_powi)
  then show ?thesis using representable_of_int[OF i] by (intro rnd_id) simp
qed

lemma rnd_0 [simp]: "rnd 0 = Fin 0"
  using rnd_of_int[of 0] by simp

lemma rnd_nonneg [simp]: "0 \<le> x \<Longrightarrow> Fin 0 \<le> rnd x"
  using rnd_mono[of 0 x] by simp

lemma rnd_not_neg [simp]: "0 \<le> x \<Longrightarrow> \<not> rnd x < Fin 0"
  using rnd_nonneg[of x] by (cases "rnd x") auto

lemma rnd_nonpos: "x \<le> 0 \<Longrightarrow> rnd x \<le> Fin 0"
  using rnd_mono[of x 0] by simp

lemma fadd_mono:
  assumes "a \<le> b" "c \<le> d" "finite64 a" "finite64 b" "finite64 c" "finite64 d"
  shows "a + c \<le> b + (d :: float64)"
  using assms by (cases a; cases b; cases c; cases d) (auto simp: plus_float64_def intro: rnd_mono)

lemma fmul_nonneg_mono:
  assumes "a \<le> b" "Fin 0 \<le> c" "finite64 a" "finite64 b" "finite64 c"
  shows "a * c \<le> b * (c :: float64)"
  using assms by (cases a; cases b; cases c)
    (auto simp: times_float64_def intro!: rnd_mono mult_right_mono)

lemma fmul_pos_mono:
  assumes "a \<le> b" "Fin 0 < c" "finite64 c"
  shows "a * c \<le> b * (c :: float64)"
  using assms by (cases a; cases b; cases c)
    (auto simp: times_float64_def finf_def intro!: rnd_mono mult_right_mono)

lemma fdiv_pos_mono:
  assumes "a \<le> b" "Fin 0 < c" "finite64 c"
  shows "a / c \<le> b / (c :: float64)"
  using assms by (cases a; cases b; cases c)
    (auto simp: divide_float64_def finf_def intro!: rnd_mono divide_right_mono)

lemma fadd_nonneg: "Fin 0 \<le> a \<Longrightarrow> Fin 0 \<le> b \<Longrightarrow> Fin 0 \<le> a + (b :: float64)"
  by (cases a; cases b) (auto simp: plus_float64_def)

lemma fmul_nonneg:
  "Fin 0 \<le> a \<Longrightarrow> Fin 0 \<le> b \<Longrightarrow> a * b \<noteq> NaN \<Longrightarrow> Fin 0 \<le> a * (b :: float64)"
  by (cases a; cases b) (auto simp: times_float64_def finf_def sgn_if)

lemma fdiv_nonneg:
  "Fin 0 \<le> a \<Longrightarrow> Fin 0 < b \<Longrightarrow> a / b \<noteq> NaN \<Longrightarrow> Fin 0 \<le> a / (b :: float64)"
  by (cases a; cases b) (auto simp: divide_float64_def finf_def sgn_if)

lemma finite64_cases [elim]: "finite64 x \<Longrightarrow> (\<And>r. x = Fin r \<Longrightarrow> P) \<Longrightarrow> P"
  by (cases x) auto

lemma finite64_not_special [simp]: "finite64 x \<Longrightarrow> x \<noteq> NaN" "finite64 x \<Longrightarrow> x \<noteq> PInf"
  "finite64 x \<Longrightarrow> x \<noteq> NInf"
  by (cases x; simp)+

lemma fadd_mono_right:
  assumes "a \<le> b" "finite64 v"
  shows "v + a \<le> v + (b :: float64)"
  using assms by (cases a; cases b; cases v) (auto simp: plus_float64_def intro: rnd_mono)

lemma fmul_nonneg_mono_scale:
  assumes "z \<le> z'" "0 \<le> z" "Fin 0 < c"
  shows "Fin z * c \<le> Fin z' * c \<or> c = PInf"
  using assms by (cases c) (auto simp: times_float64_def intro!: rnd_mono mult_right_mono)

lemma fmax_mono: "a \<le> b \<Longrightarrow> fmax (Fin c) a \<le> fmax (Fin c) b"
  by (cases a; cases b) (auto simp: fmax_def)

lemma fmax_zero_not_neg: "\<not> fmax (Fin 0) x < Fin 0"
  by (cases x) (auto simp: fmax_def)

lemma sqrtq_nonneg: "0 < x \<Longrightarrow> 0 \<le> sqrtq x"
proof -
  assume "0 < x"
  then have "0 \<le> \<lfloor>x * 2 powi (2 * (56 - flog2 x div 2))\<rfloor>" by simp
  then have "0 \<le> isqrt \<lfloor>x * 2 powi (2 * (56 - flog2 x div 2))\<rfloor>" using isqrt_spec by blast
  then have "0 \<le> (of_int (isqrt \<lfloor>x * 2 powi (2 * (56 - flog2 x div 2))\<rfloor>) :: rat)"
    by (simp only: of_int_0_le_iff)
  then show ?thesis unfolding sqrtq_def Let_def by simp
qed

lemma fsqrt_not_neg: "\<not> fsqrt x < Fin 0"
proof (cases x)
  case (Fin r)
  consider "r < 0" | "r = 0" | "0 < r" by linarith
  then show ?thesis
  proof cases
    case 3
    then show ?thesis using rnd_nonneg[OF sqrtq_nonneg[OF 3]] Fin
      by (cases "rnd (sqrtq r)") auto
  qed (use Fin in auto)
qed auto

section \<open>Conversions\<close>

lemma i2f_small [simp]: "\<bar>i\<bar> \<le> 2 ^ 53 \<Longrightarrow> i2f i = Fin (of_int i)"
  by (simp add: i2f_def rnd_of_int)

lemma i2f_mono: "i \<le> j \<Longrightarrow> i2f i \<le> i2f j"
  by (simp add: i2f_def rnd_mono)

lemma i2f_not_NaN [simp]: "i2f i \<noteq> NaN"
  by (simp add: i2f_def)

lemma trunc_of_int [simp]: "trunc (of_int i) = i"
  by (simp add: trunc_def)

lemma trunc_mono: "x \<le> y \<Longrightarrow> trunc x \<le> trunc y"
proof -
  assume le: "x \<le> y"
  show ?thesis
  proof (cases "0 \<le> x \<or> y < 0")
    case True
    then show ?thesis using le by (auto simp: trunc_def floor_mono ceiling_mono)
  next
    case False
    then have "\<lceil>x\<rceil> \<le> 0" "0 \<le> \<lfloor>y\<rfloor>" by (simp_all add: not_le ceiling_le_zero)
    then have "\<lceil>x\<rceil> \<le> \<lfloor>y\<rfloor>" by (rule order_trans)
    then show ?thesis using False by (simp add: trunc_def)
  qed
qed

lemma trunc_nonneg: "0 \<le> r \<Longrightarrow> trunc r = \<lfloor>r\<rfloor>"
  by (simp add: trunc_def)

lemma f2i_Fin_of_int [simp]: "int64 i \<Longrightarrow> f2i cv (Fin (of_int i)) = i"
  by simp

text \<open>A conversion is in range when the truncated value fits in 64 bits.\<close>

fun in_range64 :: "float64 \<Rightarrow> bool" where
  "in_range64 (Fin r) = int64 (trunc r)"
| "in_range64 _ = False"

lemma f2i_mono: "x \<le> y \<Longrightarrow> in_range64 x \<Longrightarrow> in_range64 y \<Longrightarrow> f2i cv x \<le> f2i cv y"
  by (cases x; cases y) (auto intro: trunc_mono)

lemma in_range64_between:
  "x \<le> y \<Longrightarrow> y \<le> z \<Longrightarrow> in_range64 x \<Longrightarrow> in_range64 z \<Longrightarrow> in_range64 y"
  using trunc_mono by (cases x; cases y; cases z) (fastforce simp: int64_def)+

lemma fceil_mono: "x \<le> y \<Longrightarrow> fceil x \<le> fceil y"
  by (cases x; cases y) (auto intro: ceiling_mono)

lemma ffloor_mono: "x \<le> y \<Longrightarrow> ffloor x \<le> ffloor y"
  by (cases x; cases y) (auto intro: floor_mono)

lemma fround_mono:
  assumes "x \<le> y"
  shows "fround x \<le> fround y"
proof -
  have "(if 0 \<le> a then \<lfloor>a + 1/2\<rfloor> else \<lceil>a - 1/2\<rceil>) \<le> (if 0 \<le> b then \<lfloor>b + 1/2\<rfloor> else \<lceil>b - 1/2\<rceil>)"
    if "a \<le> b" for a b :: rat
  proof (cases "a < 0 \<and> 0 \<le> b")
    case True
    then have "\<lceil>a - 1/2\<rceil> \<le> 0" "0 \<le> \<lfloor>b + 1/2\<rfloor>" by (simp_all add: ceiling_le_iff le_floor_iff)
    then have "\<lceil>a - 1/2\<rceil> \<le> \<lfloor>b + 1/2\<rfloor>" by (rule order_trans)
    then show ?thesis using True by simp
  next
    case False
    then show ?thesis using that by (auto intro!: floor_mono ceiling_mono)
  qed
  then show ?thesis using assms by (cases x; cases y) (simp_all del: of_int_floor_le)
qed

end
