(* ===== verification/Capacity.thy ===== *)
theory Capacity
  imports Float64
begin

text \<open>
  The capacity planner of \<open>src/pkg/capacity/planner.go\<close>: a forecast series becomes a series of
  replica counts under a policy (target per pod, headroom or quantile, bounds, rate limits, prewarm
  window, rounding). Every definition takes the parameter \<open>cv\<close>, the platform's result for a
  float-to-int conversion that is out of range.
\<close>

section \<open>The policy and the planner\<close>

record Policy =
  TargetPerPod :: float64
  Headroom :: float64
  QuantileLevel :: float64
  MinReplicas :: int
  MaxReplicas :: int
  UpMaxFactorPerStep :: float64
  DownMaxPercentPerStep :: int
  PrewarmWindowSteps :: int
  RoundingMode :: string

type_synonym quantiles = "(float64, float64 list) gomap"

definition roundPods :: "(float64 \<Rightarrow> int) \<Rightarrow> float64 \<Rightarrow> string \<Rightarrow> int" where
  "roundPods cv x mode =
     (if mode = ''floor'' then f2i cv (ffloor x)
      else if mode = ''round'' then f2i cv (fround x)
      else f2i cv (fceil x))"

definition clampBounds :: "int \<Rightarrow> int \<Rightarrow> int \<Rightarrow> int" where
  "clampBounds x lo hi =
     (if hi > 0 \<and> x > hi then hi
      else if x < lo then lo
      else x)"

definition clampChange :: "(float64 \<Rightarrow> int) \<Rightarrow> int \<Rightarrow> int \<Rightarrow> float64 \<Rightarrow> int \<Rightarrow> int" where
  "clampChange cv prev next upFactor downPct =
     (let prev = (if prev < 0 then 0 else prev)
      in if prev = 0
         then (if upFactor > 0
               then (let maxUp = f2i cv (fceil (i2f 1 * upFactor))
                     in if next > maxUp then maxUp else next)
               else next)
         else (let maxUp = f2i cv (fceil (i2f prev * upFactor));
                   minDown = f2i cv (ffloor (i2f prev * (1 - i2f downPct / flit 100)))
               in if next > maxUp then maxUp
                  else if next < minDown then minDown
                  else next))"

text \<open>
  The defaulting of the policy's fields at the head of \<open>ToReplicas\<close>; the one field that reads
  another, \<open>MaxReplicas\<close>, reads the minimum already raised to zero.
\<close>

definition sanitize :: "Policy \<Rightarrow> Policy" where
  "sanitize p =
     (let minR = (if MinReplicas p < 0 then 0 else MinReplicas p);
          down = (if DownMaxPercentPerStep p < 0 then 0 else DownMaxPercentPerStep p)
      in p\<lparr>TargetPerPod := if TargetPerPod p \<le> 0 then 1 else TargetPerPod p,
           Headroom := if Headroom p < 1 then 1 else Headroom p,
           MinReplicas := minR,
           MaxReplicas := if MaxReplicas p > 0 \<and> MaxReplicas p < minR then minR else MaxReplicas p,
           UpMaxFactorPerStep := if UpMaxFactorPerStep p \<le> 0 then flit 2 else UpMaxFactorPerStep p,
           DownMaxPercentPerStep := if down > 100 then 100 else down,
           PrewarmWindowSteps := if PrewarmWindowSteps p < 0 then 0 else PrewarmWindowSteps p\<rparr>)"

text \<open>
  \<open>len(quantiles[q]) == len(forecast)\<close> on a missing key compares the length of a nil slice.
\<close>

definition quantileAt :: "quantiles \<Rightarrow> float64 \<Rightarrow> float64 list" where
  "quantileAt qs q = (case gomap_get qs q of None \<Rightarrow> [] | Some vs \<Rightarrow> vs)"

definition useQuantile :: "Policy \<Rightarrow> quantiles \<Rightarrow> float64 list \<Rightarrow> bool" where
  "useQuantile p qs forecast \<longleftrightarrow>
     QuantileLevel p > 0 \<and> qs \<noteq> None \<and>
     length (quantileAt qs (QuantileLevel p)) = length forecast"

text \<open>The first loop: the load of each step in units of one pod's target.\<close>

definition rawNeed :: "Policy \<Rightarrow> quantiles \<Rightarrow> float64 list \<Rightarrow> nat \<Rightarrow> float64" where
  "rawNeed p qs forecast i =
     (let v = forecast ! i;
          v = (if v < 0 then 0 else v);
          capacityValue =
            (if useQuantile p qs forecast
             then (let c = quantileAt qs (QuantileLevel p) ! i in if c < 0 then 0 else c)
             else v * Headroom p)
      in capacityValue / TargetPerPod p)"

definition adjust :: "Policy \<Rightarrow> quantiles \<Rightarrow> float64 list \<Rightarrow> float64 list" where
  "adjust p qs forecast = map (rawNeed p qs forecast) [0..<length forecast]"

text \<open>
  The window \<open>adj[i .. jEnd]\<close> of step \<open>i\<close>; the sum \<open>i + PrewarmWindowSteps\<close> is a machine sum, so a
  huge window can wrap to a negative end, and the loop then runs zero times.
\<close>

definition window :: "Policy \<Rightarrow> float64 list \<Rightarrow> nat \<Rightarrow> float64 list" where
  "window p adj i =
     (let jEnd = wrap64 (int i + PrewarmWindowSteps p);
          jEnd = (if jEnd \<ge> int (length adj) then int (length adj) - 1 else jEnd)
      in take (nat (jEnd - int i + 1)) (drop i adj))"

definition maxNeed :: "float64 list \<Rightarrow> float64" where
  "maxNeed xs = foldl (\<lambda>need a. if a > need then a else need) 0 xs"

text \<open>One iteration of the second loop.\<close>

definition desiredStep :: "(float64 \<Rightarrow> int) \<Rightarrow> Policy \<Rightarrow> float64 list \<Rightarrow> int \<Rightarrow> nat \<Rightarrow> int" where
  "desiredStep cv p adj prevOut i =
     (let need = maxNeed (window p adj i);
          desired = roundPods cv need (RoundingMode p);
          desired = clampBounds desired (MinReplicas p) (MaxReplicas p);
          desired = clampChange cv prevOut desired (UpMaxFactorPerStep p) (DownMaxPercentPerStep p);
          desired = clampBounds desired (MinReplicas p) (MaxReplicas p)
      in desired)"

fun replicaLoop :: "(float64 \<Rightarrow> int) \<Rightarrow> Policy \<Rightarrow> float64 list \<Rightarrow> int \<Rightarrow> nat list \<Rightarrow> int list" where
  "replicaLoop cv p adj prevOut [] = []"
| "replicaLoop cv p adj prevOut (i # is) =
     (let desired = desiredStep cv p adj prevOut i
      in desired # replicaLoop cv p adj desired is)"

text \<open>\<open>stepSec\<close> is defaulted by the source and then not used.\<close>

definition ToReplicas ::
  "(float64 \<Rightarrow> int) \<Rightarrow> int \<Rightarrow> float64 list \<Rightarrow> int \<Rightarrow> Policy \<Rightarrow> quantiles \<Rightarrow> int list" where
  "ToReplicas cv prev forecast stepSec p quantiles =
     (if forecast = [] then []
      else let p = sanitize p;
               adj = adjust p quantiles forecast;
               prevOut = clampBounds prev (MinReplicas p) (MaxReplicas p)
           in replicaLoop cv p adj prevOut [0..<length forecast])"

section \<open>The sanitized policy\<close>

text \<open>What the planner's loops rely on; \<open>NaN\<close> factors survive the source's comparisons.\<close>

definition policy_ok :: "Policy \<Rightarrow> bool" where
  "policy_ok p \<longleftrightarrow>
     \<not> TargetPerPod p \<le> 0 \<and> \<not> Headroom p < 1 \<and> 0 \<le> MinReplicas p \<and>
     (0 < MaxReplicas p \<longrightarrow> MinReplicas p \<le> MaxReplicas p) \<and>
     \<not> UpMaxFactorPerStep p \<le> 0 \<and>
     0 \<le> DownMaxPercentPerStep p \<and> DownMaxPercentPerStep p \<le> 100 \<and> 0 \<le> PrewarmWindowSteps p"

lemma sanitize_fields [simp]:
  "TargetPerPod (sanitize p) = (if TargetPerPod p \<le> Fin 0 then Fin 1 else TargetPerPod p)"
  "Headroom (sanitize p) = (if Headroom p < Fin 1 then Fin 1 else Headroom p)"
  "QuantileLevel (sanitize p) = QuantileLevel p"
  "MinReplicas (sanitize p) = max 0 (MinReplicas p)"
  "MaxReplicas (sanitize p) =
     (if 0 < MaxReplicas p then max (MaxReplicas p) (MinReplicas p) else MaxReplicas p)"
  "UpMaxFactorPerStep (sanitize p) =
     (if UpMaxFactorPerStep p \<le> Fin 0 then flit 2 else UpMaxFactorPerStep p)"
  "DownMaxPercentPerStep (sanitize p) = max 0 (min 100 (DownMaxPercentPerStep p))"
  "PrewarmWindowSteps (sanitize p) = max 0 (PrewarmWindowSteps p)"
  "RoundingMode (sanitize p) = RoundingMode p"
  by (auto simp: sanitize_def Let_def max_def min_def)

lemma flit_2 [simp]: "rnd 2 = Fin 2"
  using rnd_of_int[of 2] by simp

lemma flit_100 [simp]: "rnd 100 = Fin 100"
  using rnd_of_int[of 100] by simp

lemma policy_ok_sanitize [simp]: "policy_ok (sanitize p)"
  by (auto simp: policy_ok_def)

lemma sanitize_id: "policy_ok p \<Longrightarrow> sanitize p = p"
  by (auto simp: policy_ok_def intro!: Policy.equality)

section \<open>Bounds\<close>

lemma clampBounds_bounds:
  assumes "0 < hi \<longrightarrow> lo \<le> hi"
  shows "lo \<le> clampBounds x lo hi" "0 < hi \<longrightarrow> clampBounds x lo hi \<le> hi"
  using assms by (auto simp: clampBounds_def)

lemma clampBounds_id: "lo \<le> x \<Longrightarrow> (0 < hi \<longrightarrow> x \<le> hi) \<Longrightarrow> clampBounds x lo hi = x"
  by (auto simp: clampBounds_def)

lemma clampBounds_mono: "(0 < hi \<longrightarrow> lo \<le> hi) \<Longrightarrow> x \<le> y \<Longrightarrow> clampBounds x lo hi \<le> clampBounds y lo hi"
  by (auto simp: clampBounds_def)

definition in_bounds :: "Policy \<Rightarrow> int \<Rightarrow> bool" where
  "in_bounds p r \<longleftrightarrow> MinReplicas p \<le> r \<and> (0 < MaxReplicas p \<longrightarrow> r \<le> MaxReplicas p)"

lemma in_bounds_clampBounds:
  "policy_ok p \<Longrightarrow> in_bounds p (clampBounds x (MinReplicas p) (MaxReplicas p))"
  using clampBounds_bounds by (auto simp: in_bounds_def policy_ok_def)

lemma in_bounds_desiredStep: "policy_ok p \<Longrightarrow> in_bounds p (desiredStep cv p adj prevOut i)"
  by (simp add: desiredStep_def Let_def in_bounds_clampBounds)

lemma length_replicaLoop [simp]: "length (replicaLoop cv p adj prevOut is) = length is"
  by (induction "is" arbitrary: prevOut) (simp_all add: Let_def)

lemma replicaLoop_nth:
  "k < length is \<Longrightarrow>
   replicaLoop cv p adj prevOut is ! k =
     desiredStep cv p adj (if k = 0 then prevOut else replicaLoop cv p adj prevOut is ! (k - 1)) (is ! k)"
proof (induction "is" arbitrary: prevOut k)
  case (Cons i "is")
  show ?case
  proof (cases k)
    case (Suc m)
    then have "m < length is" using Cons.prems by simp
    from Cons.IH[OF this] show ?thesis unfolding Suc by (cases m) (simp_all add: Let_def)
  qed (simp add: Let_def)
qed simp

lemma in_bounds_replicaLoop:
  "policy_ok p \<Longrightarrow> r \<in> set (replicaLoop cv p adj prevOut is) \<Longrightarrow> in_bounds p r"
  by (induction "is" arbitrary: prevOut) (auto simp: Let_def in_bounds_desiredStep)

text \<open>The count that step \<open>i\<close> of a plan starts from.\<close>

definition previous :: "(float64 \<Rightarrow> int) \<Rightarrow> int \<Rightarrow> float64 list \<Rightarrow> int \<Rightarrow> Policy \<Rightarrow> quantiles \<Rightarrow> nat \<Rightarrow> int" where
  "previous cv prev forecast stepSec p qs i =
     (if i = 0 then clampBounds prev (MinReplicas (sanitize p)) (MaxReplicas (sanitize p))
      else ToReplicas cv prev forecast stepSec p qs ! (i - 1))"

lemma length_ToReplicas [simp]:
  "length (ToReplicas cv prev forecast stepSec p qs) = length forecast"
  by (simp add: ToReplicas_def Let_def)

lemma ToReplicas_nth:
  assumes "i < length forecast"
  shows "ToReplicas cv prev forecast stepSec p qs ! i =
         desiredStep cv (sanitize p) (adjust (sanitize p) qs forecast)
           (previous cv prev forecast stepSec p qs i) i"
proof -
  have "forecast \<noteq> []" using assms by auto
  then show ?thesis
    using assms by (simp add: ToReplicas_def Let_def previous_def replicaLoop_nth del: sanitize_fields)
qed

lemma in_bounds_previous:
  assumes "i < length forecast"
  shows "in_bounds (sanitize p) (previous cv prev forecast stepSec p qs i)"
proof (cases i)
  case 0
  then show ?thesis
    using in_bounds_clampBounds[OF policy_ok_sanitize] by (simp add: previous_def del: sanitize_fields)
next
  case (Suc k)
  then show ?thesis
    using assms ToReplicas_nth[of k forecast] in_bounds_desiredStep[OF policy_ok_sanitize]
    by (simp add: previous_def)
qed

section \<open>Rate limits\<close>

abbreviation upCap :: "(float64 \<Rightarrow> int) \<Rightarrow> int \<Rightarrow> float64 \<Rightarrow> int" where
  "upCap cv prev up \<equiv> f2i cv (fceil (i2f prev * up))"

abbreviation downFloor :: "(float64 \<Rightarrow> int) \<Rightarrow> int \<Rightarrow> int \<Rightarrow> int" where
  "downFloor cv prev pct \<equiv> f2i cv (ffloor (i2f prev * (1 - i2f pct / flit 100)))"

text \<open>
  The largest count and the largest factor for which the products of the planner stay inside the
  64-bit range; both are far beyond any deployment.
\<close>

abbreviation max_count :: int where "max_count \<equiv> 2 ^ 53"
abbreviation max_factor :: rat where "max_factor \<equiv> 2 ^ 9"

lemma rnd_pow2_62 [simp]: "rnd (2 ^ 62) = Fin (2 ^ 62)"
  by code_simp

lemma rnd_between:
  assumes "rnd a = Fin a" "rnd b = Fin b" "a \<le> x" "x \<le> b"
  obtains y where "rnd x = Fin y" "a \<le> y" "y \<le> b"
proof -
  have "Fin a \<le> rnd x" "rnd x \<le> Fin b" using assms rnd_mono[of a x] rnd_mono[of x b] by auto
  then show ?thesis using that by (cases "rnd x") auto
qed

lemma upCap_bounds:
  assumes prev: "1 \<le> prev" "prev \<le> max_count" and u: "1 \<le> u" "u \<le> max_factor"
  shows "prev \<le> upCap cv prev (Fin u)" "in_range64 (fceil (i2f prev * Fin u))"
proof -
  have "of_int prev \<le> (of_int max_count :: rat)" using prev(2) by (simp only: of_int_le_iff)
  then have hi: "of_int prev * u \<le> 2 ^ 53 * 2 ^ 9"
    using prev u by (intro mult_mono) auto
  have lo: "of_int prev \<le> of_int prev * u" using prev u by (simp add: mult_le_cancel_left1)
  have "rnd (of_int prev) = Fin (of_int prev)" using prev by (intro rnd_of_int) auto
  then obtain y where y: "rnd (of_int prev * u) = Fin y" "of_int prev \<le> y" "y \<le> 2 ^ 62"
    using rnd_between[OF _ rnd_pow2_62 lo] hi by auto
  have ceil: "prev \<le> \<lceil>y\<rceil>" and "\<lceil>y\<rceil> \<le> 2 ^ 62"
    using y(2,3) by (linarith, simp add: ceiling_le_iff)
  moreover have "0 \<le> \<lceil>y\<rceil>" using ceil prev(1) by linarith
  ultimately have "int64 \<lceil>y\<rceil>" by (intro int64I)
  then show "prev \<le> upCap cv prev (Fin u)" "in_range64 (fceil (i2f prev * Fin u))"
    using prev y(1) ceil by (simp_all add: times_float64_def)
qed

lemma downFactor_range:
  assumes "0 \<le> pct" "pct \<le> 100"
  obtains f where "1 - i2f pct / flit 100 = Fin f" "0 \<le> f" "f \<le> 1"
proof -
  have r1: "rnd 1 = Fin 1" using rnd_of_int[of 1] by simp
  have "0 \<le> of_int pct / (100::rat)" "of_int pct / (100::rat) \<le> 1" using assms by simp_all
  then obtain q where q: "rnd (of_int pct / 100) = Fin q" "0 \<le> q" "q \<le> 1"
    using rnd_between[OF rnd_0 r1] by blast
  then obtain f where "rnd (1 - q) = Fin f" "0 \<le> f" "f \<le> 1"
    using rnd_between[OF rnd_0 r1, of "1 - q"] by auto
  moreover have "\<bar>pct\<bar> \<le> 2 ^ 53" using assms by simp
  ultimately show ?thesis using that q(1) by (simp add: divide_float64_def minus_float64_def)
qed

lemma downFloor_bounds:
  assumes prev: "1 \<le> prev" "prev \<le> max_count" and pct: "0 \<le> pct" "pct \<le> 100"
  shows "0 \<le> downFloor cv prev pct" "downFloor cv prev pct \<le> prev"
    "in_range64 (ffloor (i2f prev * (1 - i2f pct / flit 100)))"
proof -
  obtain f where f: "1 - i2f pct / flit 100 = Fin f" "0 \<le> f" "f \<le> 1"
    using downFactor_range[OF pct] .
  have "rnd (of_int prev) = Fin (of_int prev)" using prev by (intro rnd_of_int) auto
  moreover have "0 \<le> of_int prev * f" "of_int prev * f \<le> of_int prev"
    using prev f by (simp_all add: mult_left_le)
  ultimately obtain y where y: "rnd (of_int prev * f) = Fin y" "0 \<le> y" "y \<le> of_int prev"
    using rnd_between[of 0 "of_int prev" "of_int prev * f"] by auto
  have fl: "0 \<le> \<lfloor>y\<rfloor>" "\<lfloor>y\<rfloor> \<le> prev" using y by (simp, linarith)
  have "\<lfloor>y\<rfloor> \<le> 2 ^ 62" by (rule order_trans[OF fl(2)]) (use prev in simp)
  then have "int64 \<lfloor>y\<rfloor>" by (rule int64I[OF fl(1)])
  then show "0 \<le> downFloor cv prev pct" "downFloor cv prev pct \<le> prev"
    "in_range64 (ffloor (i2f prev * (1 - i2f pct / flit 100)))"
    using prev y(1) fl f(1) by (simp_all add: times_float64_def)
qed

lemma max_min_if: "lo \<le> hi \<Longrightarrow> (if hi < n then hi else if n < lo then lo else n) = max lo (min n hi)"
  for lo hi n :: int
  by (simp add: max_def min_def)

lemma clampChange_pos:
  assumes "1 \<le> prev" "downFloor cv prev pct \<le> upCap cv prev up"
  shows "clampChange cv prev next up pct = max (downFloor cv prev pct) (min next (upCap cv prev up))"
proof -
  have "\<not> prev < 0" "prev \<noteq> 0" using assms(1) by auto
  then show ?thesis
    unfolding clampChange_def Let_def max_min_if[OF assms(2), symmetric] by simp
qed

lemma clampChange_zero:
  assumes "Fin 0 < up"
  shows "clampChange cv 0 next up pct = min next (upCap cv 1 up)"
  unfolding clampChange_def Let_def using assms by (simp add: min_def)

text \<open>
  The scale-up factor is usable: at least one (a smaller one would force scaling down) and not so
  large that the product overflows. The default factor 2 is.
\<close>

definition upFactor_ok :: "Policy \<Rightarrow> bool" where
  "upFactor_ok p \<longleftrightarrow>
     UpMaxFactorPerStep (sanitize p) \<ge> Fin 1 \<and> UpMaxFactorPerStep (sanitize p) \<le> Fin max_factor"

lemma upFactor_okE:
  assumes "upFactor_ok p"
  obtains u where "UpMaxFactorPerStep (sanitize p) = Fin u" "1 \<le> u" "u \<le> max_factor"
  using assms that unfolding upFactor_ok_def by (cases "UpMaxFactorPerStep (sanitize p)") auto

text \<open>With a usable factor the final bounds check changes nothing: the rate limits win over the
  need, and the bounds are already respected.\<close>

lemma clampChange_in_bounds:
  fixes p
  defines "q \<equiv> sanitize p"
  assumes up: "upFactor_ok p" and P: "in_bounds q prev" "prev \<le> max_count" and n: "in_bounds q next"
  shows "in_bounds q (clampChange cv prev next (UpMaxFactorPerStep q) (DownMaxPercentPerStep q))"
proof -
  obtain u where u: "UpMaxFactorPerStep q = Fin u" "1 \<le> u" "u \<le> max_factor"
    using upFactor_okE[OF up] unfolding q_def by blast
  have q: "policy_ok q" by (simp add: q_def)
  show ?thesis
  proof (cases "1 \<le> prev")
    case True
    have pct: "0 \<le> DownMaxPercentPerStep q" "DownMaxPercentPerStep q \<le> 100"
      using q by (simp_all add: policy_ok_def)
    note dn = downFloor_bounds(1,2)[OF True P(2) pct, of cv] and uc = upCap_bounds(1)[OF True P(2) u(2,3), of cv]
    show ?thesis
      using P(1) n dn uc by (subst clampChange_pos[OF True]) (auto simp: in_bounds_def u(1))
  next
    case False
    then have "prev = 0" using P(1) q by (auto simp: in_bounds_def policy_ok_def)
    moreover have "1 \<le> upCap cv 1 (Fin u)" using upCap_bounds(1)[of 1, OF _ _ u(2,3)] by simp
    ultimately show ?thesis
      using P(1) n u by (auto simp add: clampChange_zero in_bounds_def min_def)
  qed
qed

lemma desiredStep_clampChange:
  assumes "upFactor_ok p" "in_bounds (sanitize p) prev" "prev \<le> max_count"
  shows "desiredStep cv (sanitize p) adj prev i =
         clampChange cv prev
           (clampBounds (roundPods cv (maxNeed (window (sanitize p) adj i)) (RoundingMode p))
              (MinReplicas (sanitize p)) (MaxReplicas (sanitize p)))
           (UpMaxFactorPerStep (sanitize p)) (DownMaxPercentPerStep (sanitize p))"
proof -
  have "in_bounds (sanitize p)
          (clampChange cv prev
             (clampBounds (roundPods cv (maxNeed (window (sanitize p) adj i)) (RoundingMode p))
                (MinReplicas (sanitize p)) (MaxReplicas (sanitize p)))
             (UpMaxFactorPerStep (sanitize p)) (DownMaxPercentPerStep (sanitize p)))"
    using assms by (intro clampChange_in_bounds in_bounds_clampBounds) simp_all
  then show ?thesis
    unfolding desiredStep_def Let_def in_bounds_def
    by (subst clampBounds_id) (simp_all del: sanitize_fields add: sanitize_fields(9))
qed

section \<open>The need of a step\<close>

lemma maxNeed_invariant:
  assumes "P 0" "\<And>x. x \<in> set xs \<Longrightarrow> P x"
  shows "P (maxNeed xs)"
  unfolding maxNeed_def by (rule foldl_invariant[where P = P]) (use assms in auto)

lemma maxNeed_nonneg: "Fin 0 \<le> maxNeed xs"
  unfolding maxNeed_def
  using float64_le_less_trans[THEN float64_less_imp_le]
  by (intro foldl_invariant[where P = "\<lambda>x. Fin 0 \<le> x"]) auto

lemma maxNeed_snoc: "maxNeed (xs @ [x]) = (if x > maxNeed xs then x else maxNeed xs)"
  by (simp add: maxNeed_def)

lemma maxNeed_not_NaN [simp]: "maxNeed xs \<noteq> NaN"
  using maxNeed_nonneg[of xs] by auto

lemma maxNeed_ge: "x \<in> set xs \<Longrightarrow> x \<noteq> NaN \<Longrightarrow> x \<le> maxNeed xs"
proof (induction xs rule: rev_induct)
  case (snoc y ys)
  show ?case
  proof (cases "x = y")
    case True
    then show ?thesis
      using snoc.prems float64_not_less[of "maxNeed ys" y] by (auto simp: maxNeed_snoc)
  next
    case False
    then have "x \<le> maxNeed ys" using snoc by simp
    then show ?thesis
      using float64_le_less_trans[of x "maxNeed ys" y]
      by (simp add: maxNeed_snoc float64_less_imp_le)
  qed
qed simp

lemma maxNeed_mem: "maxNeed xs = 0 \<or> maxNeed xs \<in> set xs"
  by (rule maxNeed_invariant[where P = "\<lambda>y. y = 0 \<or> y \<in> set xs"]) simp_all

lemma maxNeed_mono:
  assumes "list_all2 (\<le>) xs ys"
  shows "maxNeed xs \<le> maxNeed ys"
  using maxNeed_mem[of xs]
proof
  assume "maxNeed xs \<in> set xs"
  then obtain i where i: "i < length xs" "xs ! i = maxNeed xs" by (auto simp: in_set_conv_nth)
  then have le: "maxNeed xs \<le> ys ! i" and m: "ys ! i \<in> set ys"
    using assms by (auto simp: list_all2_conv_all_nth)
  have "ys ! i \<le> maxNeed ys" using m le by (intro maxNeed_ge) auto
  with le show ?thesis by (rule float64_le_trans)
qed (simp add: maxNeed_nonneg)

lemma window_no_wrap:
  assumes "0 \<le> PrewarmWindowSteps p" "PrewarmWindowSteps p + int (length adj) < 2 ^ 63" "i < length adj"
  shows "window p adj i = take (Suc (nat (PrewarmWindowSteps p))) (drop i adj)"
proof -
  have "int64 (int i + PrewarmWindowSteps p)" using assms by (simp add: int64_def)
  then have "wrap64 (int i + PrewarmWindowSteps p) = int i + PrewarmWindowSteps p" by simp
  then have w: "window p adj i =
      take (nat ((if int (length adj) \<le> int i + PrewarmWindowSteps p then int (length adj) - 1
                  else int i + PrewarmWindowSteps p) - int i + 1)) (drop i adj)"
    by (simp only: window_def Let_def)
  show ?thesis
  proof (cases "int (length adj) \<le> int i + PrewarmWindowSteps p")
    case True
    then have "length adj - i \<le> Suc (nat (PrewarmWindowSteps p))" by simp
    moreover have "nat (int (length adj) - 1 - int i + 1) = length adj - i" by simp
    ultimately show ?thesis unfolding w using True by simp
  next
    case False
    have "nat (int i + PrewarmWindowSteps p - int i + 1) = Suc (nat (PrewarmWindowSteps p))"
      using assms(1) by simp
    then show ?thesis unfolding w using False by simp
  qed
qed

lemma set_window:
  assumes "0 \<le> PrewarmWindowSteps p" "PrewarmWindowSteps p + int (length adj) < 2 ^ 63" "i < length adj"
  shows "set (window p adj i) = {adj ! j | j. i \<le> j \<and> int j \<le> int i + PrewarmWindowSteps p \<and> j < length adj}"
    (is "?L = ?R")
proof -
  have *: "k < min (length adj - i) (Suc (nat (PrewarmWindowSteps p))) \<longleftrightarrow>
        int (i + k) \<le> int i + PrewarmWindowSteps p \<and> i + k < length adj" for k
    using assms by auto
  have "take n (drop i adj) = map (\<lambda>k. adj ! (i + k)) [0..<min (length adj - i) n]" for n
    by (rule nth_equalityI) auto
  then have "?L = {adj ! (i + k) | k. int (i + k) \<le> int i + PrewarmWindowSteps p \<and> i + k < length adj}"
    unfolding window_no_wrap[OF assms] * [symmetric] by auto
  also have "\<dots> = ?R" by (auto simp: le_iff_add)
  finally show ?thesis .
qed

section \<open>The plan, step by step\<close>

text \<open>
  The count that the forecast alone asks for at step \<open>i\<close>, before the rate limits. It is a term of the
  statements below, not a function of the code, and not the planned count.
\<close>

definition demand :: "(float64 \<Rightarrow> int) \<Rightarrow> float64 list \<Rightarrow> Policy \<Rightarrow> quantiles \<Rightarrow> nat \<Rightarrow> int" where
  "demand cv forecast p qs i =
     (let q = sanitize p
      in clampBounds (roundPods cv (maxNeed (window q (adjust q qs forecast) i)) (RoundingMode p))
           (MinReplicas q) (MaxReplicas q))"

lemma in_bounds_demand: "in_bounds (sanitize p) (demand cv forecast p qs i)"
  unfolding demand_def Let_def by (rule in_bounds_clampBounds) simp

lemma ToReplicas_clampChange:
  assumes "upFactor_ok p" "i < length forecast" "previous cv prev forecast stepSec p qs i \<le> max_count"
  shows "ToReplicas cv prev forecast stepSec p qs ! i =
         clampChange cv (previous cv prev forecast stepSec p qs i) (demand cv forecast p qs i)
           (UpMaxFactorPerStep (sanitize p)) (DownMaxPercentPerStep (sanitize p))"
  unfolding demand_def Let_def
  using desiredStep_clampChange[OF assms(1) in_bounds_previous[OF assms(2)] assms(3)]
  by (simp only: ToReplicas_nth[OF assms(2)])

lemma clampChange_limits:
  fixes p cv
  defines "q \<equiv> sanitize p"
  assumes up: "upFactor_ok p" and P: "in_bounds q prev" "prev \<le> max_count" and n: "in_bounds q next"
  defines "r \<equiv> clampChange cv prev next (UpMaxFactorPerStep q) (DownMaxPercentPerStep q)"
  shows "min prev next \<le> r" "r \<le> max prev next"
    "r \<le> upCap cv (max 1 prev) (UpMaxFactorPerStep q)"
    "1 \<le> prev \<Longrightarrow> downFloor cv prev (DownMaxPercentPerStep q) \<le> r"
    "next \<le> r \<or> r = upCap cv (max 1 prev) (UpMaxFactorPerStep q)"
proof -
  obtain u where u: "UpMaxFactorPerStep q = Fin u" "1 \<le> u" "u \<le> max_factor"
    using upFactor_okE[OF up] unfolding q_def by blast
  have pct: "0 \<le> DownMaxPercentPerStep q" "DownMaxPercentPerStep q \<le> 100" and "0 \<le> MinReplicas q"
    by (simp_all add: q_def)
  then have "0 \<le> prev" "0 \<le> next" using P(1) n by (auto simp: in_bounds_def)
  have "(min prev next \<le> r \<and> r \<le> max prev next) \<and>
    r \<le> upCap cv (max 1 prev) (UpMaxFactorPerStep q) \<and>
    (1 \<le> prev \<longrightarrow> downFloor cv prev (DownMaxPercentPerStep q) \<le> r) \<and>
    (next \<le> r \<or> r = upCap cv (max 1 prev) (UpMaxFactorPerStep q))"
  proof (cases "1 \<le> prev")
    case True
    note dn = downFloor_bounds(1,2)[OF True P(2) pct, of cv] and uc = upCap_bounds(1)[OF True P(2) u(2,3), of cv]
    have "r = max (downFloor cv prev (DownMaxPercentPerStep q)) (min next (upCap cv prev (Fin u)))"
      unfolding r_def u(1) using dn uc by (intro clampChange_pos[OF True]) linarith
    then show ?thesis using dn uc True unfolding u(1) max.absorb2[OF True]
      by (simp del: f2i.simps add: max_def min_def)
  next
    case False
    then have prev: "prev = 0" "max 1 prev = 1" using \<open>0 \<le> prev\<close> by auto
    have "r = min next (upCap cv 1 (Fin u))"
      unfolding r_def u(1) prev(1) using u by (intro clampChange_zero) simp
    moreover have "1 \<le> upCap cv 1 (Fin u)" using upCap_bounds(1)[of 1, OF _ _ u(2,3)] by simp
    ultimately show ?thesis using \<open>0 \<le> next\<close> unfolding u(1) prev
      by (simp del: f2i.simps add: max_def min_def)
  qed
  then show "min prev next \<le> r" "r \<le> max prev next"
    "r \<le> upCap cv (max 1 prev) (UpMaxFactorPerStep q)"
    "1 \<le> prev \<Longrightarrow> downFloor cv prev (DownMaxPercentPerStep q) \<le> r"
    "next \<le> r \<or> r = upCap cv (max 1 prev) (UpMaxFactorPerStep q)" by blast+
qed

section \<open>Monotonicity\<close>

lemma in_range64_pods:
  assumes "Fin 0 \<le> x" "x \<le> Fin (2 ^ 62)"
  shows "in_range64 (fceil x)" "in_range64 (ffloor x)" "in_range64 (fround x)"
proof -
  have r: "in_range64 (Fin 0)" "in_range64 (Fin (2 ^ 62))" by (simp_all add: trunc_def int64_def)
  have "fceil (Fin 0) \<le> fceil x" "fceil x \<le> fceil (Fin (2 ^ 62))" using assms by (intro fceil_mono; simp)+
  then show "in_range64 (fceil x)" using in_range64_between r by (fastforce simp: ceiling_numeral)
  have "ffloor (Fin 0) \<le> ffloor x" "ffloor x \<le> ffloor (Fin (2 ^ 62))" using assms by (intro ffloor_mono; simp)+
  then show "in_range64 (ffloor x)" using in_range64_between r by fastforce
  have "fround (Fin 0) \<le> fround x" "fround x \<le> fround (Fin (2 ^ 62))" using assms by (intro fround_mono; simp)+
  moreover have "fround (Fin 0) = Fin 0" "fround (Fin (2 ^ 62)) = Fin (2 ^ 62)" by code_simp+
  ultimately show "in_range64 (fround x)" using in_range64_between r by fastforce
qed

lemma roundPods_mono:
  assumes "Fin 0 \<le> x" "x \<le> y" "y \<le> Fin (2 ^ 62)"
  shows "roundPods cv x mode \<le> roundPods cv y mode"
proof -
  have x: "x \<le> Fin (2 ^ 62)" and y: "Fin 0 \<le> y" using assms float64_le_trans by blast+
  note rx = in_range64_pods[OF assms(1) x] and ry = in_range64_pods[OF y assms(3)]
  show ?thesis
    using f2i_mono[OF fceil_mono[OF assms(2)] rx(1) ry(1)] f2i_mono[OF ffloor_mono[OF assms(2)] rx(2) ry(2)]
      f2i_mono[OF fround_mono[OF assms(2)] rx(3) ry(3)]
    by (simp add: roundPods_def)
qed

lemma upCap_mono:
  assumes "1 \<le> prev" "prev \<le> prev'" "prev' \<le> max_count" "1 \<le> u" "u \<le> max_factor"
  shows "upCap cv prev (Fin u) \<le> upCap cv prev' (Fin u)"
  using assms by (intro f2i_mono fceil_mono fmul_pos_mono i2f_mono upCap_bounds(2)) auto

lemma downFloor_mono:
  assumes "1 \<le> prev" "prev \<le> prev'" "prev' \<le> max_count" "0 \<le> pct" "pct \<le> 100"
  shows "downFloor cv prev pct \<le> downFloor cv prev' pct"
proof -
  obtain f where f: "1 - i2f pct / flit 100 = Fin f" "0 \<le> f" "f \<le> 1"
    using downFactor_range[OF assms(4,5)] .
  have "i2f prev * Fin f \<le> i2f prev' * Fin f"
    using assms f by (intro fmul_nonneg_mono i2f_mono) auto
  moreover have "in_range64 (ffloor (i2f prev * (1 - i2f pct / flit 100)))"
    "in_range64 (ffloor (i2f prev' * (1 - i2f pct / flit 100)))"
    using assms by (intro downFloor_bounds(3); simp)+
  ultimately show ?thesis unfolding f(1) by (intro f2i_mono ffloor_mono)
qed

lemma clampChange_mono:
  fixes p cv
  defines "q \<equiv> sanitize p"
  assumes up: "upFactor_ok p" and P: "in_bounds q prev" "in_bounds q prev'" "prev \<le> prev'" "prev' \<le> max_count"
    and n: "next \<le> next'"
  shows "clampChange cv prev next (UpMaxFactorPerStep q) (DownMaxPercentPerStep q)
       \<le> clampChange cv prev' next' (UpMaxFactorPerStep q) (DownMaxPercentPerStep q)"
proof -
  obtain u where u: "UpMaxFactorPerStep q = Fin u" "1 \<le> u" "u \<le> max_factor"
    using upFactor_okE[OF up] unfolding q_def by blast
  have pct: "0 \<le> DownMaxPercentPerStep q" "DownMaxPercentPerStep q \<le> 100" and "0 \<le> MinReplicas q"
    by (simp_all add: q_def)
  then have nn: "0 \<le> prev" "0 \<le> prev'" using P(1,2) by (auto simp: in_bounds_def)
  have pos: "clampChange cv r m (Fin u) (DownMaxPercentPerStep q) =
      max (downFloor cv r (DownMaxPercentPerStep q)) (min m (upCap cv r (Fin u)))"
    if "1 \<le> r" "r \<le> max_count" for r m
    using downFloor_bounds(2)[OF that pct, of cv] upCap_bounds(1)[OF that u(2,3), of cv]
    by (intro clampChange_pos[OF that(1)]) linarith
  have zero: "clampChange cv 0 m (Fin u) (DownMaxPercentPerStep q) = min m (upCap cv 1 (Fin u))" for m
    using u by (intro clampChange_zero) simp
  consider "1 \<le> prev" | "prev = 0" "1 \<le> prev'" | "prev = 0" "prev' = 0" using nn by linarith
  then show ?thesis
  proof cases
    case 1
    then have "1 \<le> prev'" "prev \<le> max_count" using P by auto
    then show ?thesis unfolding u(1) using P(3,4) 1 n pct u
      by (simp only: pos) (intro max.mono min.mono upCap_mono downFloor_mono n; simp)
  next
    case 2
    then show ?thesis unfolding u(1) 2(1) zero pos[OF 2(2) P(4)]
      using P(4) u n by (intro max.coboundedI2 min.mono upCap_mono) auto
  next
    case 3
    then show ?thesis unfolding u(1) 3 zero using n by (intro min.mono) auto
  qed
qed

text \<open>
  Two forecasts are compared step by step; when the planner uses their quantiles, it does so for both
  and the quantiles are compared too.
\<close>

definition forecasts_le :: "Policy \<Rightarrow> float64 list \<Rightarrow> quantiles \<Rightarrow> float64 list \<Rightarrow> quantiles \<Rightarrow> bool" where
  "forecasts_le p f qs g qs' \<longleftrightarrow>
     list_all2 (\<le>) f g \<and> useQuantile p qs f = useQuantile p qs' g \<and>
     (useQuantile p qs f \<longrightarrow> list_all2 (\<le>) (quantileAt qs (QuantileLevel p)) (quantileAt qs' (QuantileLevel p)))"

lemma clip_mono: "x \<le> y \<Longrightarrow> (if x < Fin 0 then Fin 0 else x) \<le> (if y < Fin 0 then Fin 0 else y)"
  for x y :: float64
  by (cases x; cases y) auto

lemma rawNeed_mono:
  assumes p: "policy_ok p" "finite64 (Headroom p)" "finite64 (TargetPerPod p)"
    and fg: "forecasts_le p f qs g qs'" "i < length f"
  shows "rawNeed p qs f i \<le> rawNeed p qs' g i"
proof -
  have pos: "Fin 0 < Headroom p" "Fin 0 < TargetPerPod p"
    using p by (auto simp: policy_ok_def elim!: finite64_cases)
  have u: "useQuantile p qs' g = useQuantile p qs f" using fg(1) by (simp add: forecasts_le_def)
  show ?thesis
  proof (cases "useQuantile p qs f")
    case True
    let ?c = "\<lambda>qs. quantileAt qs (QuantileLevel p) ! i"
    have "?c qs \<le> ?c qs'" using fg True by (auto simp: forecasts_le_def useQuantile_def list_all2_conv_all_nth)
    then have "(if ?c qs < Fin 0 then Fin 0 else ?c qs) / TargetPerPod p \<le> (if ?c qs' < Fin 0 then Fin 0 else ?c qs') / TargetPerPod p"
      using p(3) pos by (intro fdiv_pos_mono clip_mono)
    then show ?thesis using True u by (simp only: rawNeed_def Let_def zero_float64 if_True)
  next
    case False
    have "f ! i \<le> g ! i" using fg by (simp add: forecasts_le_def list_all2_conv_all_nth)
    then have "(if f ! i < Fin 0 then Fin 0 else f ! i) * Headroom p / TargetPerPod p
        \<le> (if g ! i < Fin 0 then Fin 0 else g ! i) * Headroom p / TargetPerPod p"
      using p(2,3) pos by (intro fdiv_pos_mono fmul_pos_mono clip_mono)
    then show ?thesis using False u by (simp only: rawNeed_def Let_def zero_float64 if_False)
  qed
qed

lemma adjust_mono:
  assumes "policy_ok p" "finite64 (Headroom p)" "finite64 (TargetPerPod p)" "forecasts_le p f qs g qs'"
  shows "list_all2 (\<le>) (adjust p qs f) (adjust p qs' g)"
proof -
  have "length f = length g" using assms(4) by (auto simp: forecasts_le_def dest: list_all2_lengthD)
  then show ?thesis using rawNeed_mono[OF assms] by (auto simp: adjust_def list_all2_conv_all_nth)
qed

lemma length_adjust [simp]: "length (adjust p qs f) = length f"
  by (simp add: adjust_def)

lemma window_mono: "list_all2 (\<le>) xs ys \<Longrightarrow> list_all2 (\<le>) (window p xs i) (window p ys i)"
  unfolding window_def Let_def by (auto dest: list_all2_lengthD)

lemma set_window_subset: "set (window p xs i) \<subseteq> set xs"
  unfolding window_def Let_def by (meson order_trans set_drop_subset set_take_subset)

lemma demand_mono:
  assumes "finite64 (Headroom (sanitize p))" "finite64 (TargetPerPod (sanitize p))"
    and fg: "forecasts_le (sanitize p) f qs g qs'"
    and big: "\<forall>x \<in> set (adjust (sanitize p) qs' g). x \<le> Fin (2 ^ 62)"
  shows "demand cv f p qs i \<le> demand cv g p qs' i"
proof -
  let ?nf = "maxNeed (window (sanitize p) (adjust (sanitize p) qs f) i)"
  let ?ng = "maxNeed (window (sanitize p) (adjust (sanitize p) qs' g) i)"
  have "?nf \<le> ?ng"
    by (intro maxNeed_mono window_mono adjust_mono policy_ok_sanitize assms)
  moreover have "?ng \<le> Fin (2 ^ 62)"
    by (rule maxNeed_invariant[where P = "\<lambda>x. x \<le> Fin (2 ^ 62)"])
      (use big set_window_subset in \<open>simp, blast\<close>)
  ultimately have "roundPods cv ?nf (RoundingMode p) \<le> roundPods cv ?ng (RoundingMode p)"
    by (intro roundPods_mono maxNeed_nonneg)
  then show ?thesis unfolding demand_def Let_def
    by (intro clampBounds_mono) (auto split: if_splits)
qed

lemma max_count_previous:
  assumes "i < length f" "0 < MaxReplicas p" "MaxReplicas (sanitize p) \<le> max_count"
  shows "previous cv prev f stepSec p qs i \<le> max_count"
  using in_bounds_previous[OF assms(1), of p cv prev stepSec qs] assms(2,3)
  by (auto simp: in_bounds_def)

lemma upCap_double:
  assumes "1 \<le> prev" "prev \<le> 2 ^ 52" "2 \<le> u" "u \<le> max_factor"
  shows "2 * prev \<le> upCap cv prev (Fin u)"
proof -
  have dbl: "upCap cv prev (Fin 2) = 2 * prev"
  proof -
    have "rnd (of_int (prev * 2)) = Fin (of_int (prev * 2))"
      using assms(1,2) by (intro rnd_of_int) auto
    moreover have "int64 (prev * 2)" using assms by (intro int64I) auto
    moreover have "trunc (of_int prev * 2) = prev * 2" "\<lceil>of_int prev * (2 :: rat)\<rceil> = prev * 2"
      using trunc_of_int[of "prev * 2"] ceiling_of_int[of "prev * 2", where 'a = rat] by simp_all
    ultimately show ?thesis using assms(1,2)
      by (simp add: times_float64_def)
  qed
  have "i2f prev * Fin 2 \<le> i2f prev * Fin u"
    using assms by (auto simp: times_float64_def intro!: rnd_mono mult_left_mono)
  then have "upCap cv prev (Fin 2) \<le> upCap cv prev (Fin u)"
    using assms by (intro f2i_mono fceil_mono upCap_bounds(2)) auto
  then show ?thesis unfolding dbl .
qed

lemma ToReplicas_doubles:
  assumes up: "Fin 2 \<le> UpMaxFactorPerStep (sanitize p)" "UpMaxFactorPerStep (sanitize p) \<le> Fin max_factor"
    and hi: "0 < MaxReplicas p" "MaxReplicas (sanitize p) \<le> 2 ^ 52"
    and i: "i < length forecast"
  shows "min (demand cv forecast p qs i) (2 * max 1 (previous cv prev forecast stepSec p qs i))
         \<le> ToReplicas cv prev forecast stepSec p qs ! i"
proof -
  let ?r0 = "previous cv prev forecast stepSec p qs i"
  have ok: "upFactor_ok p"
    using up float64_le_trans[of "Fin 1" "Fin 2"] by (simp only: upFactor_ok_def) simp
  obtain u where u: "UpMaxFactorPerStep (sanitize p) = Fin u" "2 \<le> u" "u \<le> max_factor"
    using up by (cases "UpMaxFactorPerStep (sanitize p)") (simp_all del: sanitize_fields)
  have r0: "?r0 \<le> 2 ^ 52"
    using in_bounds_previous[OF i, of p cv prev stepSec qs] hi by (auto simp: in_bounds_def)
  then have "2 * max 1 ?r0 \<le> upCap cv (max 1 ?r0) (UpMaxFactorPerStep (sanitize p))"
    unfolding u(1) using u by (intro upCap_double) auto
  moreover have "?r0 \<le> max_count" using r0 by simp
  ultimately show ?thesis
    using clampChange_limits(5)[OF ok in_bounds_previous[OF i] \<open>?r0 \<le> max_count\<close>
        in_bounds_demand[of p cv forecast qs i], of cv]
    unfolding ToReplicas_clampChange[OF ok i \<open>?r0 \<le> max_count\<close>]
    by (auto simp del: sanitize_fields f2i.simps)
qed

section \<open>Properties of the planner\<close>

text \<open>
  C3: every planned count respects the bounds of the policy, one count per forecast step. This holds
  for every policy (also a nonsensical one), every forecast (also NaN and infinite values), every
  previous count and every platform conversion: never below the minimum and never negative, never
  above a maximum that is set.
\<close>

theorem ToReplicas_in_bounds:
  "length (ToReplicas cv prev forecast stepSec p qs) = length forecast \<and>
   (\<forall>r \<in> set (ToReplicas cv prev forecast stepSec p qs).
      max 0 (MinReplicas p) \<le> r \<and>
      (MaxReplicas p > 0 \<longrightarrow> r \<le> max (MaxReplicas p) (MinReplicas p)))"
proof -
  have "in_bounds (sanitize p) r" if "r \<in> set (ToReplicas cv prev forecast stepSec p qs)" for r
    using that in_bounds_replicaLoop[OF policy_ok_sanitize]
    by (auto simp: ToReplicas_def Let_def simp del: sanitize_fields split: if_splits)
  then show ?thesis by (auto simp: in_bounds_def)
qed

text \<open>
  C5: the rate limits hold between consecutive steps. With a scale-up factor from 1 to 512 and a previous
  count of at most \<open>2 ^ 53\<close>, each count lies between the previous count and the count the forecast asks for (no overshoot), is at
  most the previous count times the factor, rounded up, and, from a positive count, at least what the
  scale-down percentage leaves.
\<close>

theorem ToReplicas_rate_limited:
  assumes "upFactor_ok p" "i < length forecast"
    "previous cv prev forecast stepSec p qs i \<le> max_count"
  shows "let r = ToReplicas cv prev forecast stepSec p qs ! i;
             r0 = previous cv prev forecast stepSec p qs i;
             d = demand cv forecast p qs i
         in min r0 d \<le> r \<and> r \<le> max r0 d \<and>
            r \<le> f2i cv (fceil (i2f (max 1 r0) * UpMaxFactorPerStep (sanitize p))) \<and>
            (1 \<le> r0 \<longrightarrow>
              f2i cv (ffloor (i2f r0 * (1 - i2f (DownMaxPercentPerStep (sanitize p)) / flit 100))) \<le> r)"
  unfolding Let_def ToReplicas_clampChange[OF assms]
  using clampChange_limits[OF assms(1) in_bounds_previous[OF assms(2)] assms(3) in_bounds_demand]
  by blast

text \<open>
  C4: within the planner's numeric range, the plan is monotone in the forecast. When one forecast is
  pointwise at most another (no NaN; with quantiles in use, the quantiles too) and the previous counts are
  ordered the same way, the plan is pointwise at most the other's, through rounding, prewarm window,
  both clamps and the rate limits of every step. The conditions: the scale-up factor is from 1 to 512,
  headroom and target are finite, no step of the larger forecast needs more than \<open>2 ^ 62\<close> pods, and its
  plan makes no step from a count above \<open>2 ^ 53\<close>, as is the case under a maximum up to \<open>2 ^ 53\<close>. A
  factor below one, which validation accepts, or a need beyond the \<open>int\<close> range breaks monotonicity
  (\<open>mono_needs_factor\<close>, \<open>mono_needs_range\<close>).
\<close>

theorem ToReplicas_mono:
  assumes up: "upFactor_ok p" and fin: "finite64 (Headroom (sanitize p))" "finite64 (TargetPerPod (sanitize p))"
    and fg: "forecasts_le (sanitize p) f qs g qs'" and prev: "prev \<le> prev'"
    and big: "\<forall>x \<in> set (adjust (sanitize p) qs' g). x \<le> Fin (2 ^ 62)"
    and hi: "\<forall>i < length g. previous cv prev' g stepSec p qs' i \<le> max_count"
  shows "list_all2 (\<le>) (ToReplicas cv prev f stepSec p qs) (ToReplicas cv prev' g stepSec p qs')"
proof -
  have len: "length f = length g" using fg by (auto simp: forecasts_le_def dest: list_all2_lengthD)
  have step: "ToReplicas cv prev f stepSec p qs ! i \<le> ToReplicas cv prev' g stepSec p qs' ! i"
    if i: "i < length f" and le: "previous cv prev f stepSec p qs i \<le> previous cv prev' g stepSec p qs' i" for i
  proof -
    have g: "i < length g" "previous cv prev' g stepSec p qs' i \<le> max_count" using i len hi by simp_all
    then have f: "previous cv prev f stepSec p qs i \<le> max_count" using le by linarith
    show ?thesis
      unfolding ToReplicas_clampChange[OF up i f] ToReplicas_clampChange[OF up g]
      by (rule clampChange_mono[OF up in_bounds_previous[OF i] in_bounds_previous[OF g(1)] le g(2) demand_mono[OF fin fg big]])
  qed
  have "ToReplicas cv prev f stepSec p qs ! i \<le> ToReplicas cv prev' g stepSec p qs' ! i" if "i < length f" for i
    using that
  proof (induction i)
    case 0
    then show ?case using prev by (intro step) (auto simp: previous_def intro!: clampBounds_mono split: if_splits)
  next
    case (Suc i)
    then show ?case by (intro step) (simp_all add: previous_def)
  qed
  then show ?thesis using len by (simp add: list_all2_conv_all_nth)
qed

text \<open>
  C10: capacity covers the need unless a limit stops it. With rounding up, the mode of every policy the
  program builds (an empty mode, or any but \<open>floor\<close> and \<open>round\<close>), a count below the maximum and below
  the scale-up limit is at least the load, in pods, of its own step and of every step of the prewarm
  window ahead that is not NaN: \<open>count * TargetPerPod\<close> sustains the forecast with its headroom. The
  conditions: the scale-up factor is from 1 to 512, the step starts from at most \<open>2 ^ 53\<close> pods, window
  and forecast together have fewer than \<open>2 ^ 63\<close> steps, and no step of the forecast needs more than
  \<open>2 ^ 62\<close> pods; a need beyond the \<open>int\<close> range is not covered
  (\<open>overflow_planned_as_idle\<close>).
\<close>

theorem ToReplicas_covers_window:
  assumes up: "upFactor_ok p" and i: "i < length forecast"
    and prev: "previous cv prev forecast stepSec p qs i \<le> max_count"
    and mode: "RoundingMode p \<noteq> ''floor''" "RoundingMode p \<noteq> ''round''"
    and win: "PrewarmWindowSteps p + int (length forecast) < 2 ^ 63" "int (length forecast) < 2 ^ 63"
    and big: "\<forall>x \<in> set (adjust (sanitize p) qs forecast). \<not> Fin (2 ^ 62) < x"
    and r: "r = ToReplicas cv prev forecast stepSec p qs ! i"
    and free: "MaxReplicas p \<le> 0 \<or> r < MaxReplicas (sanitize p)"
      "r < f2i cv (fceil (i2f (max 1 (previous cv prev forecast stepSec p qs i)) * UpMaxFactorPerStep (sanitize p)))"
    and j: "i \<le> j" "int j \<le> int i + max 0 (PrewarmWindowSteps p)" "j < length forecast"
      "adjust (sanitize p) qs forecast ! j \<noteq> NaN"
  shows "adjust (sanitize p) qs forecast ! j \<le> Fin (of_int r)"
proof -
  let ?adj = "adjust (sanitize p) qs forecast"
  let ?need = "maxNeed (window (sanitize p) ?adj i)"
  have "demand cv forecast p qs i \<le> r"
    using clampChange_limits(5)[OF up in_bounds_previous[OF i] prev in_bounds_demand] free(2)
    unfolding r ToReplicas_clampChange[OF up i prev] by fastforce
  moreover have "roundPods cv ?need (RoundingMode p) \<le> demand cv forecast p qs i \<or>
      0 < MaxReplicas p \<and> demand cv forecast p qs i = MaxReplicas (sanitize p)"
    unfolding demand_def Let_def clampBounds_def by (auto split: if_splits)
  ultimately have "f2i cv (fceil ?need) \<le> r" using free(1) mode by (auto simp: roundPods_def)
  moreover obtain n where n: "?need = Fin n" "0 \<le> n" "n \<le> 2 ^ 62"
  proof -
    have "\<not> Fin (2 ^ 62) < ?need"
      by (rule maxNeed_invariant[where P = "\<lambda>x. \<not> Fin (2 ^ 62) < x"])
        (use big set_window_subset in \<open>simp, blast\<close>)
    with maxNeed_nonneg[of "window (sanitize p) ?adj i"] that show ?thesis by (cases ?need) auto
  qed
  moreover have "int64 \<lceil>n\<rceil>" using in_range64_pods(1)[of "Fin n"] n by simp
  ultimately have "\<lceil>n\<rceil> \<le> r" by simp
  then have "n \<le> of_int r" by (simp add: ceiling_le_iff)
  moreover have "?adj ! j \<le> ?need"
  proof (rule maxNeed_ge)
    show "?adj ! j \<in> set (window (sanitize p) ?adj i)"
      using i j win by (subst set_window) auto
    show "?adj ! j \<noteq> NaN" by (rule j(4))
  qed
  ultimately show ?thesis using n(1) by (cases "?adj ! j") auto
qed

text \<open>
  C18: the plan reaches the demand. With a scale-up factor from two (the default) to 512 and a maximum
  of at most \<open>2 ^ 52\<close>, while the
  forecast asks for at least \<open>D\<close> pods, the plan has at least \<open>D\<close> pods as soon as \<open>2 ^ (i + 1)\<close> is
  at least \<open>D\<close>, from any previous count, zero included: a logarithmic number of steps.
\<close>

theorem ToReplicas_reaches_demand:
  assumes up: "Fin 2 \<le> UpMaxFactorPerStep (sanitize p)" "UpMaxFactorPerStep (sanitize p) \<le> Fin max_factor"
    and hi: "0 < MaxReplicas p" "MaxReplicas (sanitize p) \<le> 2 ^ 52"
    and i: "i < length forecast" and D: "\<forall>k \<le> i. D \<le> demand cv forecast p qs k" "D \<le> 2 ^ (i + 1)"
  shows "D \<le> ToReplicas cv prev forecast stepSec p qs ! i"
proof -
  have "min D (2 ^ (k + 1)) \<le> ToReplicas cv prev forecast stepSec p qs ! k" if "k \<le> i" for k
    using that
  proof (induction k)
    case 0
    then show ?case using ToReplicas_doubles[OF up hi, of 0 forecast cv qs prev stepSec] i D(1) by fastforce
  next
    case (Suc k)
    then have "min D (2 ^ (k + 1)) \<le> previous cv prev forecast stepSec p qs (Suc k)"
      by (simp add: previous_def)
    moreover have "D \<le> demand cv forecast p qs (Suc k)" using D(1) Suc by simp
    ultimately show ?case
      using ToReplicas_doubles[OF up hi, of "Suc k" forecast cv qs prev stepSec] Suc i by fastforce
  qed
  from this[of i] D(2) show ?thesis by simp
qed

text \<open>A need of \<open>2 ^ 63\<close> pods or more is converted, on amd64, to the most negative integer.\<close>

lemma roundPods_overflow:
  assumes "Fin (2 ^ 63) \<le> need"
  shows "roundPods amd64_cv need mode = - (2 ^ 63)"
proof (cases need)
  case (Fin n)
  have "\<not> int64 (trunc (of_int n))" if "2 ^ 63 \<le> n" for n using that by (simp add: int64_def)
  then have conv: "f2i amd64_cv (Fin (of_int n)) = - (2 ^ 63)" if "2 ^ 63 \<le> n" for n
    using that by (simp add: amd64_cv_def)
  have n: "2 ^ 63 \<le> n" using assms Fin by simp
  then have "2 ^ 63 \<le> \<lfloor>n\<rfloor>" "2 ^ 63 \<le> \<lfloor>n + 1/2\<rfloor>" "2 ^ 63 \<le> \<lceil>n\<rceil>"
    by (simp_all add: le_floor_iff le_ceiling_iff)
  then have "f2i amd64_cv (Fin (of_int \<lfloor>n\<rfloor>)) = - (2 ^ 63)"
    "f2i amd64_cv (Fin (of_int \<lfloor>n + 1/2\<rfloor>)) = - (2 ^ 63)"
    "f2i amd64_cv (Fin (of_int \<lceil>n\<rceil>)) = - (2 ^ 63)"
    by (simp_all only: conv)
  moreover have "0 \<le> n" using n by simp
  ultimately show ?thesis unfolding Fin roundPods_def by (simp del: f2i.simps)
qed (use assms in \<open>auto simp: roundPods_def amd64_cv_def\<close>)

lemma roundPods_zero: "roundPods cv (Fin 0) mode = 0"
proof -
  have "\<lfloor>1 / 2 :: rat\<rfloor> = 0" by (simp add: floor_eq_iff)
  then show ?thesis by (simp add: roundPods_def int64_def trunc_def)
qed

text \<open>The steps on which two loads ask for the same count are planned alike.\<close>

lemma replicaLoop_cong:
  assumes "\<And>i. i \<in> set is \<Longrightarrow> roundPods cv (maxNeed (window p adj i)) (RoundingMode p) \<le> 0"
    "\<And>i. i \<in> set is \<Longrightarrow> roundPods cv (maxNeed (window p adj' i)) (RoundingMode p) \<le> 0" "0 \<le> MinReplicas p"
  shows "replicaLoop cv p adj prev is = replicaLoop cv p adj' prev is"
  using assms(1,2)
proof (induction "is" arbitrary: prev)
  case (Cons i "is")
  have "clampBounds x (MinReplicas p) (MaxReplicas p) = MinReplicas p" if "x \<le> 0" for x
    using that assms(3) by (auto simp: clampBounds_def)
  then have "desiredStep cv p adj prev i = desiredStep cv p adj' prev i" for prev
    using Cons.prems[of i] by (simp add: desiredStep_def Let_def)
  then show ?case using Cons by (simp add: Let_def)
qed simp

lemma no_load_need:
  assumes "policy_ok p"
  shows "maxNeed (window p (adjust p None (replicate n 0)) i) = Fin 0"
proof -
  have "0 * Headroom p / TargetPerPod p \<in> {Fin 0, NaN}"
    using assms by (cases "Headroom p"; cases "TargetPerPod p") (auto simp: policy_ok_def times_float64_def divide_float64_def finf_def)
  then have "set (adjust p None (replicate n 0)) \<subseteq> {Fin 0, NaN}"
    by (auto simp: adjust_def rawNeed_def useQuantile_def)
  then show ?thesis
    using maxNeed_mem[of "window p (adjust p None (replicate n 0)) i"] maxNeed_not_NaN set_window_subset by fastforce
qed

text \<open>
  C19: a forecast beyond the 64-bit range is planned like no load at all. On amd64 an out-of-range
  conversion gives the most negative integer. When every step of a forecast needs \<open>2 ^ 63\<close> pods or more
  (a runaway or infinite forecast), the plan is, step by step, that of a forecast of zeros: instead of
  growing to the maximum, the workload shrinks to the minimum as fast as its scale-down limit allows.
\<close>

theorem overflow_planned_as_idle:
  assumes "\<forall>x \<in> set (adjust (sanitize p) qs forecast). Fin (2 ^ 63) \<le> x"
  shows "ToReplicas amd64_cv prev forecast stepSec p qs =
         ToReplicas amd64_cv prev (replicate (length forecast) 0) stepSec p None"
proof -
  let ?q = "sanitize p"
  let ?need = "\<lambda>i. maxNeed (window ?q (adjust ?q qs forecast) i)"
  have "roundPods amd64_cv (?need i) (RoundingMode ?q) \<le> 0" for i
  proof (cases "?need i = 0")
    case False
    then have "Fin (2 ^ 63) \<le> ?need i"
      using maxNeed_mem[of "window ?q (adjust ?q qs forecast) i"] set_window_subset assms by blast
    then show ?thesis by (simp only: roundPods_overflow) simp
  qed (simp add: roundPods_zero)
  then have "replicaLoop amd64_cv ?q (adjust ?q qs forecast) prev is =
      replicaLoop amd64_cv ?q (adjust ?q None (replicate (length forecast) 0)) prev is" for prev "is"
    by (intro replicaLoop_cong) (simp_all only: no_load_need policy_ok_sanitize roundPods_zero, simp_all)
  then show ?thesis by (simp add: ToReplicas_def Let_def del: sanitize_fields)
qed

section \<open>A concrete plan\<close>

text \<open>A policy with the defaults of the forecaster's configuration, and a forecast that jumps.\<close>

definition sample_policy :: Policy where
  "sample_policy = \<lparr>TargetPerPod = flit 100, Headroom = flit (12/10), QuantileLevel = 0,
     MinReplicas = 1, MaxReplicas = 100, UpMaxFactorPerStep = flit 2, DownMaxPercentPerStep = 50,
     PrewarmWindowSteps = 1, RoundingMode = ''ceil''\<rparr>"

definition sample_forecast :: "float64 list" where
  "sample_forecast = [flit 100, flit 150, flit 900, flit 900]"

lemma sample_plan: "ToReplicas amd64_cv 1 sample_forecast 60 sample_policy None = [2, 4, 8, 11]"
  by code_simp

lemma sample_upFactor_ok: "upFactor_ok sample_policy"
  by (simp add: upFactor_ok_def sample_policy_def)

lemma sample_length: "length sample_forecast = 4"
  by (simp add: sample_forecast_def)

lemma sample_previous:
  "previous amd64_cv 1 sample_forecast 60 sample_policy None 2 = 4"
  by (simp add: previous_def sample_plan)

lemma sample_fields:
  "MaxReplicas (sanitize sample_policy) = 100" "UpMaxFactorPerStep (sanitize sample_policy) = Fin 2"
  "finite64 (Headroom (sanitize sample_policy))" "finite64 (TargetPerPod (sanitize sample_policy))"
  by code_simp+

lemma sample_modes:
  "RoundingMode sample_policy = ''ceil''" "PrewarmWindowSteps sample_policy = 1"
  by (simp_all add: sample_policy_def)

lemma sample_adjust_small:
  "\<forall>x \<in> set (adjust (sanitize sample_policy) None sample_forecast). x \<le> Fin (2 ^ 62)"
  by code_simp

lemma sample_demand: "\<forall>k \<le> 3. 2 \<le> demand amd64_cv sample_forecast sample_policy None k"
proof -
  have "2 \<le> demand amd64_cv sample_forecast sample_policy None k" if "k \<in> {0, 1, 2, 3}" for k
    using that by (elim insertE emptyE; hypsubst; code_simp)
  moreover have "k \<in> {0, 1, 2, 3}" if "k \<le> 3" for k :: nat using that by auto
  ultimately show ?thesis by blast
qed

theorem ToReplicas_in_bounds_witness:
  "8 \<in> set (ToReplicas amd64_cv 1 sample_forecast 60 sample_policy None) \<and> (1::int) \<le> 8 \<and> (8::int) \<le> 100"
proof -
  have "8 \<in> set (ToReplicas amd64_cv 1 sample_forecast 60 sample_policy None)" by (simp add: sample_plan)
  with ToReplicas_in_bounds[of amd64_cv 1 sample_forecast 60 sample_policy None] show ?thesis
    by (simp add: sample_policy_def)
qed

theorem ToReplicas_rate_limited_witness:
  "upFactor_ok sample_policy \<and> 2 < length sample_forecast \<and>
   previous amd64_cv 1 sample_forecast 60 sample_policy None 2 \<le> max_count \<and>
   ToReplicas amd64_cv 1 sample_forecast 60 sample_policy None ! 2
     \<le> f2i amd64_cv (fceil (i2f 4 * UpMaxFactorPerStep (sanitize sample_policy)))"
proof -
  have h: "2 < length sample_forecast" "previous amd64_cv 1 sample_forecast 60 sample_policy None 2 \<le> max_count"
    by (simp_all add: sample_length sample_previous)
  show ?thesis
    using ToReplicas_rate_limited[OF sample_upFactor_ok h] h sample_upFactor_ok
    unfolding Let_def sample_previous by simp
qed

text \<open>Where monotonicity ends: a factor of one half, and an infinite forecast.\<close>

lemma mono_needs_factor:
  "ToReplicas amd64_cv 10 [flit 400] 60 (sample_policy\<lparr>UpMaxFactorPerStep := flit (1/2), DownMaxPercentPerStep := 10\<rparr>) None = [9]"
  "ToReplicas amd64_cv 10 [flit 500] 60 (sample_policy\<lparr>UpMaxFactorPerStep := flit (1/2), DownMaxPercentPerStep := 10\<rparr>) None = [5]"
  by code_simp+

lemma mono_needs_range:
  "ToReplicas amd64_cv 1 [flit 1000] 60 sample_policy None = [2]" "ToReplicas amd64_cv 1 [PInf] 60 sample_policy None = [1]"
  by code_simp+

theorem ToReplicas_mono_witness:
  "list_all2 (\<le>) [flit 100, flit 120, flit 30, flit 900] sample_forecast \<and>
   list_all2 (\<le>) (ToReplicas amd64_cv 1 [flit 100, flit 120, flit 30, flit 900] 60 sample_policy None)
     (ToReplicas amd64_cv 1 sample_forecast 60 sample_policy None)"
proof -
  have fg: "list_all2 (\<le>) [flit 100, flit 120, flit 30, flit 900] sample_forecast"
    by (simp add: sample_forecast_def rnd_mono)
  then have le: "forecasts_le (sanitize sample_policy) [flit 100, flit 120, flit 30, flit 900] None sample_forecast None"
    by (simp add: forecasts_le_def useQuantile_def)
  have "\<forall>i < length sample_forecast. previous amd64_cv 1 sample_forecast 60 sample_policy None i \<le> max_count"
    by (intro allI impI max_count_previous) (simp_all add: sample_policy_def)
  from ToReplicas_mono[OF sample_upFactor_ok sample_fields(3,4) le order_refl sample_adjust_small this]
  show ?thesis using fg by blast
qed

text \<open>A policy as the program builds it: no prewarm window and no rounding mode.\<close>

definition built_policy :: Policy where
  "built_policy = sample_policy\<lparr>PrewarmWindowSteps := 0, RoundingMode := []\<rparr>"

lemma built_plan: "ToReplicas amd64_cv 1 sample_forecast 60 built_policy None = [2, 2, 4, 8]"
  by code_simp

theorem ToReplicas_covers_window_witness:
  "ToReplicas amd64_cv 1 sample_forecast 60 built_policy None ! 1 = 2 \<and>
   adjust (sanitize built_policy) None sample_forecast ! 1 \<le> Fin (of_int 2)"
proof -
  have prev: "previous amd64_cv 1 sample_forecast 60 built_policy None (Suc 0) = 2"
    by (simp add: previous_def built_plan)
  have up: "upFactor_ok built_policy" "UpMaxFactorPerStep (sanitize built_policy) = Fin 2" "MaxReplicas (sanitize built_policy) = 100"
    "RoundingMode built_policy = []" "PrewarmWindowSteps built_policy = 0"
    by (simp_all add: upFactor_ok_def built_policy_def sample_policy_def)
  have small: "\<forall>x \<in> set (adjust (sanitize built_policy) None sample_forecast). \<not> Fin (2 ^ 62) < x"
    "adjust (sanitize built_policy) None sample_forecast ! 1 \<noteq> NaN"
    by code_simp+
  have "(2::int) < f2i amd64_cv (fceil (i2f (max 1 2) * Fin 2))" by code_simp
  then have "adjust (sanitize built_policy) None sample_forecast ! 1 \<le> Fin (of_int 2)"
    by (intro ToReplicas_covers_window[OF up(1) _ _ _ _ _ _ small(1),
          where cv = amd64_cv and prev = 1 and stepSec = 60 and i = 1])
      (use small(2) in \<open>simp_all add: prev built_plan sample_length up del: sanitize_fields\<close>)
  then show ?thesis by (simp add: built_plan)
qed

theorem ToReplicas_reaches_demand_witness:
  "2 \<le> demand amd64_cv sample_forecast sample_policy None 3 \<and>
   2 \<le> ToReplicas amd64_cv 0 sample_forecast 60 sample_policy None ! 3"
proof -
  have hi: "0 < MaxReplicas sample_policy" "MaxReplicas (sanitize sample_policy) \<le> 2 ^ 52"
    by (simp_all add: sample_policy_def)
  have up: "Fin 2 \<le> UpMaxFactorPerStep (sanitize sample_policy)"
    "UpMaxFactorPerStep (sanitize sample_policy) \<le> Fin max_factor"
    unfolding sample_fields(2) by simp_all
  have i: "3 < length sample_forecast" "(2::int) \<le> 2 ^ (3 + 1)" by (simp_all add: sample_forecast_def)
  show ?thesis using ToReplicas_reaches_demand[OF up hi i(1) sample_demand i(2)] sample_demand by blast
qed

theorem overflow_planned_as_idle_witness:
  "ToReplicas amd64_cv 100 [PInf, PInf, PInf] 60 sample_policy None = [50, 25, 12] \<and>
   ToReplicas amd64_cv 100 [0, 0, 0] 60 sample_policy None = [50, 25, 12]"
proof -
  have "\<forall>x \<in> set (adjust (sanitize sample_policy) None [PInf, PInf, PInf]). Fin (2 ^ 63) \<le> x" by code_simp
  then have "ToReplicas amd64_cv 100 [PInf, PInf, PInf] 60 sample_policy None = ToReplicas amd64_cv 100 [0, 0, 0] 60 sample_policy None"
    using overflow_planned_as_idle[of sample_policy None "[PInf, PInf, PInf]" 100 60] by (simp add: numeral_3_eq_3)
  moreover have "ToReplicas amd64_cv 100 [0, 0, 0] 60 sample_policy None = [50, 25, 12]" by code_simp
  ultimately show ?thesis by simp
qed

end
