(* ===== verification/Strconv.thy ===== *)
theory Strconv
  imports Float64
begin

text \<open>
  The parts of Go's packages \<open>strconv\<close>, \<open>strings\<close> and \<open>fmt\<close> that the program's parsers and
  printers use, on byte strings: decimal printing, \<open>ParseInt\<close>, \<open>ParseFloat\<close> (decimal and
  hexadecimal, with the underscore rule and the special values), \<open>ParseBool\<close>, \<open>TrimSpace\<close>.
\<close>

section \<open>Digits and decimal printing\<close>

definition byte :: "char \<Rightarrow> int" where "byte c = of_char c"

definition dig :: "int \<Rightarrow> char" where "dig n = char_of (48 + n)"

definition isDigit :: "char \<Rightarrow> bool" where "isDigit c \<longleftrightarrow> 48 \<le> byte c \<and> byte c \<le> 57"

definition digVal :: "char \<Rightarrow> int" where "digVal c = byte c - 48"

function utoa :: "int \<Rightarrow> string" where
  "utoa n = (if n < 10 then [dig n] else utoa (n div 10) @ [dig (n mod 10)])"
  by pat_completeness auto
termination
  by (relation "measure nat") auto

declare utoa.simps [simp del]

text \<open>\<open>strconv.Itoa\<close>, \<open>fmt.Sprintf("%d")\<close>.\<close>

definition itoa :: "int \<Rightarrow> string" where
  "itoa n = (if n < 0 then CHR ''-'' # utoa (- n) else utoa n)"

text \<open>\<open>%.1f\<close>: the exact value rounded to one decimal, ties to even.\<close>

definition fmt_f1 :: "float64 \<Rightarrow> string" where
  "fmt_f1 x = (case x of
      NaN \<Rightarrow> ''NaN'' | PInf \<Rightarrow> ''+Inf'' | NInf \<Rightarrow> ''-Inf''
    | Fin r \<Rightarrow> (let t = rne (\<bar>r\<bar> * 10)
               in (if r < 0 then ''-'' else []) @ utoa (t div 10) @ ''.'' @ [dig (t mod 10)]))"

section \<open>Parsing integers\<close>

datatype num_error = ErrSyntax | ErrRange

fun digits_val :: "int \<Rightarrow> string \<Rightarrow> int option" where
  "digits_val acc [] = Some acc"
| "digits_val acc (c # cs) = (if isDigit c then digits_val (acc * 10 + digVal c) cs else None)"

definition parseUnsigned :: "string \<Rightarrow> int option" where
  "parseUnsigned s = (if s = [] then None else digits_val 0 s)"

text \<open>\<open>strconv.ParseInt(s, 10, 64)\<close> and \<open>strconv.Atoi\<close>.\<close>

definition split_sign :: "string \<Rightarrow> bool \<times> string" where
  "split_sign s = (case s of [] \<Rightarrow> (False, [])
     | c # cs \<Rightarrow> if c = CHR ''-'' then (True, cs) else if c = CHR ''+'' then (False, cs) else (False, s))"

definition parseInt64 :: "string \<Rightarrow> (num_error, int) outcome" where
  "parseInt64 s =
     (case split_sign s of (neg, ds) \<Rightarrow>
        (case parseUnsigned ds of
           None \<Rightarrow> Err ErrSyntax
         | Some n \<Rightarrow> let v = (if neg then - n else n) in if int64 v then Ok v else Err ErrRange))"

text \<open>\<open>strconv.ParseBool\<close>.\<close>

definition parseBool :: "string \<Rightarrow> (num_error, bool) outcome" where
  "parseBool s =
     (if s \<in> {''1'', ''t'', ''T'', ''TRUE'', ''true'', ''True''} then Ok True
      else if s \<in> {''0'', ''f'', ''F'', ''FALSE'', ''false'', ''False''} then Ok False
      else Err ErrSyntax)"

section \<open>Parsing floats\<close>

definition lower_byte :: "char \<Rightarrow> int" where
  "lower_byte c = (let b = byte c in if 65 \<le> b \<and> b \<le> 90 then b + 32 else b)"

definition isHexLetter :: "char \<Rightarrow> bool" where
  "isHexLetter c \<longleftrightarrow> 97 \<le> lower_byte c \<and> lower_byte c \<le> 102"

definition eqFold :: "string \<Rightarrow> string \<Rightarrow> bool" where
  "eqFold s t \<longleftrightarrow> map lower_byte s = map lower_byte t"

text \<open>The scan of the mantissa: dot seen, digits seen, value of the digits, digits after the dot,
  underscore seen.\<close>

record mant =
  sawdot :: bool
  sawdigits :: bool
  mval :: int
  mfrac :: int
  munder :: bool

fun scanMant :: "bool \<Rightarrow> mant \<Rightarrow> string \<Rightarrow> mant \<times> string" where
  "scanMant hex m [] = (m, [])"
| "scanMant hex m (c # cs) =
     (if c = CHR ''_'' then scanMant hex (m\<lparr>munder := True\<rparr>) cs
      else if c = CHR ''.'' then
        (if sawdot m then (m, c # cs) else scanMant hex (m\<lparr>sawdot := True\<rparr>) cs)
      else if isDigit c \<or> hex \<and> isHexLetter c then
        (let v = (if isDigit c then digVal c else lower_byte c - 87)
         in scanMant hex (m\<lparr>sawdigits := True, mval := mval m * (if hex then 16 else 10) + v,
                           mfrac := mfrac m + (if sawdot m then 1 else 0)\<rparr>) cs)
      else (m, c # cs))"

text \<open>The exponent's digits; the value stops growing once it reaches 10000.\<close>

fun scanExp :: "int \<Rightarrow> bool \<Rightarrow> string \<Rightarrow> int \<times> bool \<times> string" where
  "scanExp e us [] = (e, us, [])"
| "scanExp e us (c # cs) =
     (if c = CHR ''_'' then scanExp e True cs
      else if isDigit c then scanExp (if e < 10000 then e * 10 + digVal c else e) us cs
      else (e, us, c # cs))"

text \<open>\<open>underscoreOK\<close>: an underscore stands between digits, or between a base prefix and a digit.\<close>

datatype saw = SawStart | SawDigit | SawUnderscore | SawOther

fun underscoreScan :: "bool \<Rightarrow> saw \<Rightarrow> string \<Rightarrow> bool" where
  "underscoreScan hex sw [] = (sw \<noteq> SawUnderscore)"
| "underscoreScan hex sw (c # cs) =
     (if isDigit c \<or> hex \<and> isHexLetter c then underscoreScan hex SawDigit cs
      else if c = CHR ''_'' then (if sw \<noteq> SawDigit then False else underscoreScan hex SawUnderscore cs)
      else if sw = SawUnderscore then False
      else underscoreScan hex SawOther cs)"

definition underscoreOK :: "string \<Rightarrow> bool" where
  "underscoreOK s =
     (case snd (split_sign s) of
        c0 # c1 # cs \<Rightarrow>
          if c0 = CHR ''0'' \<and> lower_byte c1 \<in> {98, 111, 120}
          then underscoreScan (lower_byte c1 = 120) SawDigit cs
          else underscoreScan False SawStart (c0 # c1 # cs)
      | cs \<Rightarrow> underscoreScan False SawStart cs)"

definition special :: "string \<Rightarrow> float64 option" where
  "special s =
     (case split_sign s of (neg, t) \<Rightarrow>
        if eqFold t ''inf'' \<or> eqFold t ''infinity'' then Some (if neg then NInf else PInf)
        else if eqFold s ''nan'' then Some NaN
        else None)"

definition mant0 :: mant where
  "mant0 = \<lparr>sawdot = False, sawdigits = False, mval = 0, mfrac = 0, munder = False\<rparr>"

text \<open>The exact value of a well-formed literal that spans the whole string.\<close>

definition readFloat :: "string \<Rightarrow> rat option" where
  "readFloat s =
     (case split_sign s of (neg, t) \<Rightarrow>
       (let hex = (case t of c0 # c1 # c2 # _ \<Rightarrow> c0 = CHR ''0'' \<and> lower_byte c1 = 120 | _ \<Rightarrow> False);
            (m, rest) = scanMant hex mant0 (if hex then drop 2 t else t);
            base = (if hex then 16 else 10);
            expBase = (if hex then 2 else 10);
            v = (if neg then -1 else 1) * rat_of_int (mval m) / base ^ nat (mfrac m)
        in if \<not> sawdigits m then None
           else (case rest of
             c # cs \<Rightarrow>
               if lower_byte c = (if hex then 112 else 101)
               then (case split_sign cs of (eneg, es) \<Rightarrow>
                 (case es of [] \<Rightarrow> None
                  | d # _ \<Rightarrow>
                    if \<not> isDigit d then None
                    else (case scanExp 0 (munder m) es of (e, us, rest') \<Rightarrow>
                      if rest' \<noteq> [] \<or> us \<and> \<not> underscoreOK s then None
                      else Some (v * expBase powi (if eneg then - e else e)))))
               else None
           | [] \<Rightarrow> if hex \<or> munder m \<and> \<not> underscoreOK s then None else Some v)))"

text \<open>\<open>strconv.ParseFloat(s, 64)\<close>: the literal's value correctly rounded; an overflow is an error.\<close>

definition parseFloat :: "string \<Rightarrow> (num_error, float64) outcome" where
  "parseFloat s =
     (case special s of
        Some x \<Rightarrow> Ok x
      | None \<Rightarrow> (case readFloat s of
           None \<Rightarrow> Err ErrSyntax
         | Some r \<Rightarrow> (case rnd r of Fin x \<Rightarrow> Ok (Fin x) | _ \<Rightarrow> Err ErrRange)))"

section \<open>White space\<close>

text \<open>The UTF-8 encodings of the code points that \<open>unicode.IsSpace\<close> accepts.\<close>

definition utf8_spaces :: "int list list" where
  "utf8_spaces = [[9], [10], [11], [12], [13], [32], [194, 133], [194, 160], [225, 154, 128],
     [226, 128, 128], [226, 128, 129], [226, 128, 130], [226, 128, 131], [226, 128, 132],
     [226, 128, 133], [226, 128, 134], [226, 128, 135], [226, 128, 136], [226, 128, 137],
     [226, 128, 138], [226, 128, 168], [226, 128, 169], [226, 128, 175], [226, 129, 159],
     [227, 128, 128]]"

definition space_len :: "int list list \<Rightarrow> string \<Rightarrow> nat" where
  "space_len pats s =
     (case find (\<lambda>p. p = map byte (take (length p) s)) pats of None \<Rightarrow> 0 | Some p \<Rightarrow> length p)"

function trim_by :: "int list list \<Rightarrow> string \<Rightarrow> string" where
  "trim_by pats s = (let k = space_len pats s in if k = 0 \<or> s = [] then s else trim_by pats (drop k s))"
  by pat_completeness auto
termination
  by (relation "measure (\<lambda>(_, s). length s)") auto

declare trim_by.simps [simp del]

definition trimSpace :: "string \<Rightarrow> string" where
  "trimSpace s = rev (trim_by (map rev utf8_spaces) (rev (trim_by utf8_spaces s)))"

section \<open>Printing and parsing integers\<close>

lemma byte_dig [simp]: "0 \<le> n \<Longrightarrow> n < 10 \<Longrightarrow> byte (dig n) = 48 + n"
  by (simp add: byte_def dig_def)

lemma isDigit_dig [simp]: "0 \<le> n \<Longrightarrow> n < 10 \<Longrightarrow> isDigit (dig n)"
  by (simp add: isDigit_def)

lemma digVal_dig [simp]: "0 \<le> n \<Longrightarrow> n < 10 \<Longrightarrow> digVal (dig n) = n"
  by (simp add: digVal_def)

lemma digits_val_append:
  "digits_val a (s @ t) = (case digits_val a s of None \<Rightarrow> None | Some b \<Rightarrow> digits_val b t)"
  by (induction s arbitrary: a) auto

lemma utoa_not_Nil [simp]: "utoa n \<noteq> []"
  by (subst utoa.simps) simp

lemma digits_val_utoa: "0 \<le> n \<Longrightarrow> digits_val 0 (utoa n) = Some n"
proof (induction n rule: utoa.induct)
  case (1 n)
  show ?case
  proof (cases "n < 10")
    case True
    then show ?thesis using 1 by (subst utoa.simps) simp
  next
    case False
    then have "digits_val 0 (utoa (n div 10)) = Some (n div 10)" using 1 by simp
    then show ?thesis using False by (subst utoa.simps) (simp add: digits_val_append)
  qed
qed

lemma isDigit_hd_utoa: "0 \<le> n \<Longrightarrow> isDigit (hd (utoa n))"
proof (induction n rule: utoa.induct)
  case (1 n)
  then show ?case by (subst utoa.simps) (auto simp: hd_append)
qed

lemma split_sign_utoa: "0 \<le> n \<Longrightarrow> split_sign (utoa n) = (False, utoa n)"
proof -
  assume "0 \<le> n"
  then have "isDigit (hd (utoa n))" by (rule isDigit_hd_utoa)
  then have "hd (utoa n) \<noteq> CHR ''-''" "hd (utoa n) \<noteq> CHR ''+''" by (auto simp: isDigit_def byte_def)
  then show ?thesis by (cases "utoa n") (auto simp: split_sign_def)
qed

lemma parseInt64_itoa:
  assumes "int64 n"
  shows "parseInt64 (itoa n) = Ok n"
proof (cases "n < 0")
  case True
  then show ?thesis using assms digits_val_utoa[of "- n"]
    by (simp add: parseInt64_def itoa_def split_sign_def parseUnsigned_def)
next
  case False
  then show ?thesis using assms digits_val_utoa[of n] split_sign_utoa[of n]
    by (simp add: parseInt64_def itoa_def parseUnsigned_def)
qed

end
