(* ===== verification/Gotime.thy ===== *)
theory Gotime
  imports Strconv "HOL-Library.Monad_Syntax"
begin

text \<open>
  The part of Go's package \<open>time\<close> the program uses: instants with a zone offset, saturating
  differences, the civil calendar, and the RFC 3339 layout in both directions. An instant is a
  number of nanoseconds since the Unix epoch; the monotonic clock reading is not kept.
\<close>

section \<open>Instants and durations\<close>

record Time =
  tnanos :: int
  toffset :: int

type_synonym Duration = int

abbreviation Second :: Duration where "Second \<equiv> 10 ^ 9"
abbreviation Minute :: Duration where "Minute \<equiv> 60 * Second"
abbreviation Hour :: Duration where "Hour \<equiv> 60 * Minute"

definition maxDuration :: Duration where "maxDuration = 2 ^ 63 - 1"
definition minDuration :: Duration where "minDuration = - (2 ^ 63)"

text \<open>\<open>t.Sub(u)\<close> saturates; \<open>time.Since(u)\<close> is \<open>now.Sub(u)\<close>.\<close>

definition time_Sub :: "Time \<Rightarrow> Time \<Rightarrow> Duration" where
  "time_Sub t u = max minDuration (min maxDuration (tnanos t - tnanos u))"

definition time_Add :: "Time \<Rightarrow> Duration \<Rightarrow> Time" where
  "time_Add t d = t\<lparr>tnanos := tnanos t + d\<rparr>"

definition time_UTC :: "Time \<Rightarrow> Time" where
  "time_UTC t = t\<lparr>toffset := 0\<rparr>"

definition unix_utc :: "int \<Rightarrow> int \<Rightarrow> Time" where
  "unix_utc sec nsec = \<lparr>tnanos = sec * Second + nsec, toffset = 0\<rparr>"

text \<open>\<open>time.Unix\<close> gives a time in the local zone: the zone is a function of the instant.\<close>

definition unix_local :: "(int \<Rightarrow> int) \<Rightarrow> int \<Rightarrow> int \<Rightarrow> Time" where
  "unix_local loc sec nsec = \<lparr>tnanos = sec * Second + nsec, toffset = loc sec\<rparr>"

definition unixSec :: "Time \<Rightarrow> int" where
  "unixSec t = tnanos t div Second"

text \<open>\<open>t.Truncate(d)\<close> rounds down to a multiple of \<open>d\<close> since the zero time, year 1.\<close>

definition unixToInternal :: int where
  "unixToInternal = 719162 * 86400"

definition time_Truncate :: "Time \<Rightarrow> Duration \<Rightarrow> Time" where
  "time_Truncate t d =
     (if d \<le> 0 then t
      else t\<lparr>tnanos := tnanos t - (tnanos t + unixToInternal * Second) mod d\<rparr>)"

section \<open>The civil calendar\<close>

text \<open>Seconds of the wall clock, its day and its second of the day.\<close>

definition wallSec :: "Time \<Rightarrow> int" where "wallSec t = unixSec t + toffset t"
definition wallDay :: "Time \<Rightarrow> int" where "wallDay t = wallSec t div 86400"
definition secOfDay :: "Time \<Rightarrow> int" where "secOfDay t = wallSec t mod 86400"

definition time_Hour :: "Time \<Rightarrow> int" where "time_Hour t = secOfDay t div 3600"
definition time_Minute :: "Time \<Rightarrow> int" where "time_Minute t = secOfDay t mod 3600 div 60"
definition time_Second :: "Time \<Rightarrow> int" where "time_Second t = secOfDay t mod 60"

text \<open>Sunday is 0; the epoch day was a Thursday.\<close>

definition time_Weekday :: "Time \<Rightarrow> int" where "time_Weekday t = (wallDay t + 4) mod 7"

definition isLeap :: "int \<Rightarrow> bool" where
  "isLeap y \<longleftrightarrow> y mod 4 = 0 \<and> (y mod 100 \<noteq> 0 \<or> y mod 400 = 0)"

text \<open>Year and day of the year from the days since 1 January of year 1, by cycles of 400, 100, 4
  and 1 years; the last year of a long cycle absorbs its extra day.\<close>

definition yearDay :: "int \<Rightarrow> int \<times> int" where
  "yearDay d =
     (let n400 = d div 146097; d = d mod 146097;
          n100 = d div 36524; n100 = n100 - n100 div 4; d = d - 36524 * n100;
          n4 = d div 1461; d = d - 1461 * n4;
          n1 = d div 365; n1 = n1 - n1 div 4; d = d - 365 * n1
      in (1 + 400 * n400 + 100 * n100 + 4 * n4 + n1, d))"

definition daysBeforeYear :: "int \<Rightarrow> int" where
  "daysBeforeYear y = (let z = y - 1 in 365 * z + z div 4 - z div 100 + z div 400)"

definition monthLens :: "bool \<Rightarrow> int list" where
  "monthLens leap = [31, if leap then 29 else 28, 31, 30, 31, 30, 31, 31, 30, 31, 30, 31]"

text \<open>Month and day of the month: the month that the day falls into, counted from \<open>m\<close>.\<close>

fun scanMonth :: "int \<Rightarrow> int list \<Rightarrow> int \<Rightarrow> int \<times> int" where
  "scanMonth m [] d = (m, d + 1)"
| "scanMonth m (l # ls) d = (if d < l then (m, d + 1) else scanMonth (m + 1) ls (d - l))"

definition time_Date :: "Time \<Rightarrow> int \<times> int \<times> int" where
  "time_Date t =
     (case yearDay (wallDay t + 719162) of (y, yd) \<Rightarrow> (y, scanMonth 1 (monthLens (isLeap y)) yd))"

definition daysIn :: "int \<Rightarrow> int \<Rightarrow> int" where
  "daysIn m y = monthLens (isLeap y) ! nat (m - 1)"

text \<open>Days since the epoch of a civil date.\<close>

definition dayNumber :: "int \<Rightarrow> int \<Rightarrow> int \<Rightarrow> int" where
  "dayNumber y m d =
     daysBeforeYear y + sum_list (take (nat (m - 1)) (monthLens (isLeap y))) + d - 1 - 719162"

section \<open>The calendar is consistent\<close>

lemma div_between:
  fixes x k :: int
  assumes "0 < k"
  shows "k * (x div k) \<le> x" "x < k * (x div k) + k"
  using assms mult_div_mod_eq[of k x] pos_mod_bound[of k x] pos_mod_sign[of k x] by linarith+

lemma div_eqI: "k * q \<le> x \<Longrightarrow> x < k * q + k \<Longrightarrow> x div k = q" for x k q :: int
  by (rule int_div_pos_eq[where r = "x - k * q"]) auto

lemma quarter: "0 \<le> a \<Longrightarrow> a \<le> 4 \<Longrightarrow> a - a div 4 = a \<and> a \<le> 3 \<or> a - a div 4 = 3 \<and> a = 4" for a :: int
  by (cases "a = 4") auto

lemma yearDay_correct:
  assumes "yearDay d = (y, yd)"
  shows "daysBeforeYear y + yd = d" "0 \<le> yd" "yd \<le> 365" "yd = 365 \<Longrightarrow> isLeap y"
proof -
  define n400 where "n400 = d div 146097"
  define r where "r = d mod 146097"
  define a where "a = r div 36524"
  define n100 where "n100 = a - a div 4"
  define r2 where "r2 = r - 36524 * n100"
  define n4 where "n4 = r2 div 1461"
  define r3 where "r3 = r2 - 1461 * n4"
  define b where "b = r3 div 365"
  define n1 where "n1 = b - b div 4"
  have y: "y = 1 + 400 * n400 + 100 * n100 + 4 * n4 + n1" and yd: "yd = r3 - 365 * n1"
    using assms
    by (simp_all only: yearDay_def Let_def prod.inject n400_def[symmetric] r_def[symmetric] a_def[symmetric]
        n100_def[symmetric] r2_def[symmetric] n4_def[symmetric] r3_def[symmetric] b_def[symmetric] n1_def[symmetric])
  have d: "d = 146097 * n400 + r" by (simp add: n400_def r_def)
  have r: "0 \<le> r" "r \<le> 146096" unfolding r_def by simp_all
  have a: "36524 * a \<le> r" "r < 36524 * a + 36524" unfolding a_def by (rule div_between; simp)+
  then have "0 \<le> a" "a \<le> 4" using r by linarith+
  from quarter[OF this] have n100: "n100 = a \<and> a \<le> 3 \<or> n100 = 3 \<and> a = 4" unfolding n100_def .
  have r2: "0 \<le> r2" "r2 \<le> 36524" "r2 = 36524 \<longrightarrow> n100 = 3" "0 \<le> n100" "n100 \<le> 3"
    using a r n100 \<open>0 \<le> a\<close> unfolding r2_def by linarith+
  have "1461 * n4 \<le> r2" "r2 < 1461 * n4 + 1461" unfolding n4_def by (rule div_between; simp)+
  then have n4: "0 \<le> n4" "n4 \<le> 24" and r3: "0 \<le> r3" "r3 \<le> 1460" using r2 unfolding r3_def by linarith+
  have b: "365 * b \<le> r3" "r3 < 365 * b + 365" unfolding b_def by (rule div_between; simp)+
  then have "0 \<le> b" "b \<le> 4" using r3 by linarith+
  from quarter[OF this] have n1: "n1 = b \<and> b \<le> 3 \<or> n1 = 3 \<and> b = 4" unfolding n1_def .
  have n1': "0 \<le> n1" "n1 \<le> 3" using n1 \<open>0 \<le> b\<close> by linarith+
  show "0 \<le> yd" "yd \<le> 365" using b r3 n1 unfolding yd by linarith+
  let ?z = "400 * n400 + 100 * n100 + 4 * n4 + n1"
  have "?z div 4 = 100 * n400 + 25 * n100 + n4" "?z div 100 = 4 * n400 + n100" "?z div 400 = n400"
    by (rule div_eqI; use n1' n4 r2(4,5) in \<open>simp add: distrib_left\<close>)+
  then have "daysBeforeYear (1 + ?z) = 365 * ?z + (100 * n400 + 25 * n100 + n4) - (4 * n400 + n100) + n400"
    unfolding daysBeforeYear_def Let_def by simp
  moreover have "y = 1 + ?z" using y by simp
  ultimately show "daysBeforeYear y + yd = d" using yd d r2_def r3_def by (simp add: distrib_left)
  assume "yd = 365"
  then have l: "r3 = 1460" "n1 = 3" using b r3 n1 unfolding yd by linarith+
  then have y': "y = 4 + 400 * n400 + 100 * n100 + 4 * n4" using y by simp
  have "n4 = 24 \<Longrightarrow> n100 = 3" using l r2(3) unfolding r3_def by linarith
  then consider "n4 = 24" "n100 = 3" | "n4 < 24" using n4(2) by linarith
  then show "isLeap y"
  proof cases
    case 1
    then have "y = 400 * (n400 + 1)" using y' by simp
    then show ?thesis by (simp add: isLeap_def)
  next
    case 2
    have "y div 100 = 4 * n400 + n100" unfolding y' using 2 n4 by (intro div_eqI) (simp_all add: distrib_left)
    then have "y mod 100 \<noteq> 0" using 2 n4 y' by (simp add: minus_mult_div_eq_mod [symmetric])
    moreover have "y = 4 * (1 + 100 * n400 + 25 * n100 + n4)" using y' by simp
    ultimately show ?thesis unfolding isLeap_def by simp
  qed
qed

lemma scanMonth_correct:
  assumes "scanMonth m ls d = (m', d')" "0 \<le> d" "d < sum_list ls"
  shows "m \<le> m' \<and> m' < m + int (length ls) \<and> 1 \<le> d' \<and> d' \<le> ls ! nat (m' - m) \<and>
         sum_list (take (nat (m' - m)) ls) + d' - 1 = d"
  using assms
proof (induction ls arbitrary: m d)
  case (Cons l ls)
  show ?case
  proof (cases "d < l")
    case False
    then have IH: "m + 1 \<le> m' \<and> m' < m + 1 + int (length ls) \<and> 1 \<le> d' \<and> d' \<le> ls ! nat (m' - (m + 1)) \<and>
        sum_list (take (nat (m' - (m + 1))) ls) + d' - 1 = d - l"
      using Cons.prems by (intro Cons.IH) auto
    then have "nat (m' - m) = Suc (nat (m' - (m + 1)))" by auto
    then show ?thesis using IH by auto
  qed (use Cons.prems in auto)
qed simp

lemma sum_monthLens: "sum_list (monthLens leap) = (if leap then 366 else 365)"
  by (simp add: monthLens_def)

lemma time_Date_correct:
  assumes "time_Date t = (y, m, d)"
  shows "dayNumber y m d = wallDay t" "1 \<le> m" "m \<le> 12" "1 \<le> d" "d \<le> daysIn m y"
proof -
  obtain yd where yd: "yearDay (wallDay t + 719162) = (y, yd)" "scanMonth 1 (monthLens (isLeap y)) yd = (m, d)"
    using assms by (auto simp: time_Date_def split: prod.splits)
  note c = yearDay_correct[OF yd(1)]
  have "yd < sum_list (monthLens (isLeap y))" using c(3,4) by (auto simp: sum_monthLens order_le_less)
  from scanMonth_correct[OF yd(2) c(2) this] c(1)
  show "1 \<le> m" "m \<le> 12" "1 \<le> d" "d \<le> daysIn m y" "dayNumber y m d = wallDay t"
    unfolding dayNumber_def daysIn_def by (auto simp: monthLens_def)
qed

section \<open>RFC 3339\<close>

definition pad2 :: "int \<Rightarrow> string" where "pad2 n = [dig (n div 10), dig (n mod 10)]"

text \<open>\<open>appendInt(b, x, 4)\<close>: at least four digits, after a minus sign for a negative year.\<close>

definition pad4 :: "int \<Rightarrow> string" where
  "pad4 x = (let u = utoa \<bar>x\<bar> in (if x < 0 then ''-'' else []) @ replicate (4 - length u) (CHR ''0'') @ u)"

definition format_zone :: "int \<Rightarrow> string" where
  "format_zone off =
     (if off = 0 then ''Z''
      else let zone = off sdiv 60
           in (if zone < 0 then ''-'' else ''+'') @ pad2 (\<bar>zone\<bar> div 60) @ '':'' @ pad2 (\<bar>zone\<bar> mod 60))"

text \<open>\<open>t.Format(time.RFC3339)\<close>.\<close>

definition format_rfc3339 :: "Time \<Rightarrow> string" where
  "format_rfc3339 t =
     (case time_Date t of (y, m, d) \<Rightarrow>
        pad4 y @ ''-'' @ pad2 m @ ''-'' @ pad2 d @ ''T'' @
        pad2 (time_Hour t) @ '':'' @ pad2 (time_Minute t) @ '':'' @ pad2 (time_Second t) @
        format_zone (toffset t))"

text \<open>\<open>getnum\<close>: two digits, or one when the field is not fixed.\<close>

fun getnum :: "bool \<Rightarrow> string \<Rightarrow> (int \<times> string) option" where
  "getnum fixed [] = None"
| "getnum fixed [c] = (if isDigit c \<and> \<not> fixed then Some (digVal c, []) else None)"
| "getnum fixed (c # d # cs) =
     (if \<not> isDigit c then None
      else if isDigit d then Some (digVal c * 10 + digVal d, cs)
      else if fixed then None else Some (digVal c, d # cs))"

definition getnum_in :: "bool \<Rightarrow> int \<Rightarrow> int \<Rightarrow> string \<Rightarrow> (int \<times> string) option" where
  "getnum_in fixed lo hi s =
     (case getnum fixed s of None \<Rightarrow> None
      | Some (n, r) \<Rightarrow> if lo \<le> n \<and> n \<le> hi then Some (n, r) else None)"

definition skip :: "char \<Rightarrow> string \<Rightarrow> string option" where
  "skip c s = (case s of [] \<Rightarrow> None | d # ds \<Rightarrow> if d = c then Some ds else None)"

definition getyear :: "string \<Rightarrow> (int \<times> string) option" where
  "getyear s = (if length s < 4 then None
     else case digits_val 0 (take 4 s) of None \<Rightarrow> None | Some y \<Rightarrow> Some (y, drop 4 s))"

text \<open>A fraction of a second after the seconds, introduced by a period or a comma; nine digits count.\<close>

definition getfrac :: "string \<Rightarrow> int \<times> string" where
  "getfrac s = (case s of
      c # d # ds \<Rightarrow>
        if (c = CHR ''.'' \<or> c = CHR '','') \<and> isDigit d
        then (let ns = takeWhile isDigit (d # ds);
                  k = take 9 ns;
                  v = (case digits_val 0 k of Some v \<Rightarrow> v | None \<Rightarrow> 0)
              in (v * 10 ^ (9 - length k), dropWhile isDigit (d # ds)))
        else (0, s)
    | _ \<Rightarrow> (0, s))"

definition getzone :: "string \<Rightarrow> (int \<times> string) option" where
  "getzone s = (case s of
      [] \<Rightarrow> None
    | c # cs \<Rightarrow>
        if c = CHR ''Z'' then Some (0, cs)
        else (case cs of
            h1 # h2 # col # m1 # m2 # rest \<Rightarrow>
              if col \<noteq> CHR '':'' then None
              else (case (getnum_in True 0 24 [h1, h2], getnum_in True 0 60 [m1, m2]) of
                  (Some (hr, _), Some (mm, _)) \<Rightarrow>
                    (let off = (hr * 60 + mm) * 60
                     in if c = CHR ''+'' then Some (off, rest)
                        else if c = CHR ''-'' then Some (- off, rest)
                        else None)
                | _ \<Rightarrow> None)
          | _ \<Rightarrow> None))"

text \<open>\<open>time.Parse(time.RFC3339, s)\<close>; every failure of the layout is one error.\<close>

definition parse_rfc3339 :: "string \<Rightarrow> Time option" where
  "parse_rfc3339 s = do {
     (y, s) \<leftarrow> getyear s;
     s \<leftarrow> skip CHR ''-'' s;
     (mo, s) \<leftarrow> getnum_in True 1 12 s;
     s \<leftarrow> skip CHR ''-'' s;
     (d, s) \<leftarrow> getnum True s;
     s \<leftarrow> skip CHR ''T'' s;
     (h, s) \<leftarrow> getnum_in False 0 23 s;
     s \<leftarrow> skip CHR '':'' s;
     (mi, s) \<leftarrow> getnum_in True 0 59 s;
     s \<leftarrow> skip CHR '':'' s;
     (sec, s) \<leftarrow> getnum_in True 0 59 s;
     let (ns, s) = getfrac s;
     (off, s) \<leftarrow> getzone s;
     if s \<noteq> [] \<or> d < 1 \<or> d > daysIn mo y then None
     else Some \<lparr>tnanos = (dayNumber y mo d * 86400 + h * 3600 + mi * 60 + sec - off) * Second + ns,
                toffset = off\<rparr>
   }"

section \<open>Formatting and parsing are inverse\<close>

lemma getnum_pad2 [simp]: "0 \<le> n \<Longrightarrow> n < 100 \<Longrightarrow> getnum fixed (pad2 n @ s) = Some (n, s)"
  by (simp add: pad2_def)

lemma getnum_in_pad2 [simp]:
  "0 \<le> n \<Longrightarrow> n < 100 \<Longrightarrow> lo \<le> n \<Longrightarrow> n \<le> hi \<Longrightarrow> getnum_in fixed lo hi (pad2 n @ s) = Some (n, s)"
  by (simp add: getnum_in_def)

lemma skip_same [simp]: "skip c (c # s) = Some s"
  by (simp add: skip_def)

lemma length_utoa: "0 \<le> n \<Longrightarrow> n < 10 ^ Suc k \<Longrightarrow> length (utoa n) \<le> Suc k"
proof (induction n arbitrary: k rule: utoa.induct)
  case (1 n)
  show ?case
  proof (cases "n < 10")
    case False
    then obtain j where j: "k = Suc j" using 1 by (cases k) auto
    then have "n div 10 < 10 ^ Suc j" using 1 by simp
    then show ?thesis using 1 False j by (subst utoa.simps) simp
  qed (subst utoa.simps, simp)
qed

lemma digits_val_zeros: "digits_val 0 (replicate k CHR ''0'' @ s) = digits_val 0 s"
  by (induction k) (simp_all add: isDigit_def digVal_def byte_def)

lemma getyear_pad4 [simp]:
  assumes "0 \<le> y" "y \<le> 9999"
  shows "getyear (pad4 y @ s) = Some (y, s)"
proof -
  have "length (utoa y) \<le> 4" using length_utoa[of y 3] assms by simp
  then have "length (pad4 y) = 4" using assms by (simp add: pad4_def Let_def)
  moreover have "digits_val 0 (pad4 y) = Some y"
    using assms digits_val_utoa by (simp add: pad4_def Let_def digits_val_zeros)
  ultimately show ?thesis by (simp add: getyear_def)
qed

lemma getfrac_zone: "getfrac (format_zone off) = (0, format_zone off)"
  by (simp add: getfrac_def format_zone_def Let_def split: list.split)

lemma sdiv_60: "60 dvd off \<Longrightarrow> off sdiv 60 = off div (60::int)"
  by (auto elim!: dvdE simp: signed_divide_int_def sgn_mult abs_mult sgn_if abs_if)

lemma getzone_pad2:
  assumes "0 \<le> h" "h \<le> 24" "0 \<le> mm" "mm < 60" "sg = CHR ''+'' \<or> sg = CHR ''-''"
  shows "getzone (sg # pad2 h @ CHR '':'' # pad2 mm) =
         Some (if sg = CHR ''-'' then - ((h * 60 + mm) * 60) else (h * 60 + mm) * 60, [])"
proof -
  have "getnum_in True 0 24 (pad2 h) = Some (h, [])" "getnum_in True 0 60 (pad2 mm) = Some (mm, [])"
    using assms getnum_in_pad2[of h 0 24 True "[]"] getnum_in_pad2[of mm 0 60 True "[]"] by auto
  then show ?thesis using assms(5) unfolding pad2_def by (auto simp: getzone_def Let_def)
qed

lemma getzone_format_zone:
  assumes "60 dvd off" "\<bar>off\<bar> < 25 * 3600"
  shows "getzone (format_zone off) = Some (off, [])"
proof (cases "off = 0")
  case False
  obtain z where off: "off = 60 * z" using assms(1) ..
  have z: "\<bar>z\<bar> < 25 * 60" using assms(2) unfolding off by (simp add: abs_mult)
  define h where "h = \<bar>z\<bar> div 60"
  define mm where "mm = \<bar>z\<bar> mod 60"
  have hm: "h * 60 + mm = \<bar>z\<bar>" by (simp add: h_def mm_def)
  have r: "0 \<le> h" "0 \<le> mm" "mm < 60" by (simp_all add: h_def mm_def)
  then have "h \<le> 24" using hm z by linarith
  have "format_zone off = (if z < 0 then CHR ''-'' else CHR ''+'') # pad2 h @ CHR '':'' # pad2 mm"
    using False sdiv_60[OF assms(1)] unfolding off h_def mm_def by (simp add: format_zone_def Let_def)
  also have "getzone \<dots> = Some (if z < 0 then - ((h * 60 + mm) * 60) else (h * 60 + mm) * 60, [])"
    using getzone_pad2[OF r(1) \<open>h \<le> 24\<close> r(2,3)] by simp
  finally show ?thesis unfolding hm off by (simp add: abs_if split: if_splits)
qed (simp add: format_zone_def getzone_def)

lemma clock_parts:
  "0 \<le> time_Hour t" "time_Hour t \<le> 23" "0 \<le> time_Minute t" "time_Minute t \<le> 59"
  "0 \<le> time_Second t" "time_Second t \<le> 59"
  "time_Hour t * 3600 + time_Minute t * 60 + time_Second t = secOfDay t"
proof -
  have s: "0 \<le> secOfDay t" "secOfDay t < 86400" by (simp_all add: secOfDay_def)
  then show "0 \<le> time_Hour t" "time_Hour t \<le> 23" "0 \<le> time_Minute t" "time_Minute t \<le> 59"
    "0 \<le> time_Second t" "time_Second t \<le> 59"
    by (auto simp: time_Hour_def time_Minute_def time_Second_def)
  have "secOfDay t mod 3600 mod 60 = secOfDay t mod 60" by (rule mod_mod_cancel) simp
  then show "time_Hour t * 3600 + time_Minute t * 60 + time_Second t = secOfDay t"
    using div_mult_mod_eq[of "secOfDay t" 3600] div_mult_mod_eq[of "secOfDay t mod 3600" 60]
    unfolding time_Hour_def time_Minute_def time_Second_def by linarith
qed

lemma parse_fields:
  assumes date: "time_Date t = (y, m, d)" "0 \<le> y" "y \<le> 9999" and off: "60 dvd toffset t" "\<bar>toffset t\<bar> < 25 * 3600"
    and fr: "getfrac (fr @ format_zone (toffset t)) = (ns, format_zone (toffset t))"
  shows "parse_rfc3339 (pad4 y @ ''-'' @ pad2 m @ ''-'' @ pad2 d @ ''T'' @ pad2 (time_Hour t) @ '':'' @
           pad2 (time_Minute t) @ '':'' @ pad2 (time_Second t) @ fr @ format_zone (toffset t)) =
         Some \<lparr>tnanos = unixSec t * Second + ns, toffset = toffset t\<rparr>"
proof -
  note md = time_Date_correct[OF date(1)] and hms = clock_parts[of t]
  have "m \<in> {1, 2, 3, 4, 5, 6, 7, 8, 9, 10, 11, 12}" using md(2,3) by (simp, presburger)
  then have "daysIn m y \<le> 31" by (auto simp: daysIn_def monthLens_def)
  then have d: "d < 100" using md(5) by simp
  have wall: "wallDay t * 86400 + secOfDay t = unixSec t + toffset t"
    by (simp add: wallDay_def secOfDay_def wallSec_def)
  have sec: "dayNumber y m d * 86400 + time_Hour t * 3600 + time_Minute t * 60 + time_Second t - toffset t = unixSec t"
    using md(1) hms(7) wall by linarith
  have small: "0 \<le> m" "m < 100" "0 \<le> d" "time_Hour t < 100" "time_Minute t < 100" "time_Second t < 100"
    "\<not> d < 1" "\<not> daysIn m y < d" using md(2-5) hms by simp_all
  show ?thesis
    unfolding parse_rfc3339_def
    by (simp only: append_assoc append_Cons append_Nil getyear_pad4 date(2,3) bind.bind_lunit prod.case
        skip_same getnum_in_pad2 getnum_pad2 md(2,3) small d hms(1-6) Let_def fr
        getzone_format_zone[OF off] sec simp_thms if_False)
qed

text \<open>
  RFC 3339 keeps the instant to the second and the offset, for years of four digits and offsets of
  whole minutes.
\<close>

lemma parse_format_rfc3339:
  assumes "time_Date t = (y, m, d)" "0 \<le> y" "y \<le> 9999" "60 dvd toffset t" "\<bar>toffset t\<bar> < 25 * 3600"
  shows "parse_rfc3339 (format_rfc3339 t) = Some \<lparr>tnanos = unixSec t * Second, toffset = toffset t\<rparr>"
  using parse_fields[OF assms, of "[]" 0] getfrac_zone by (simp add: format_rfc3339_def assms(1))

section \<open>The JSON form of a time\<close>

text \<open>
  \<open>Time.MarshalJSON\<close> writes RFC 3339 with the nanoseconds, trailing zeros dropped, and refuses years
  that do not have four digits; \<open>Time.UnmarshalJSON\<close> refuses what the layout parser accepts beyond
  the RFC (a one-digit hour, a comma, a zone hour of 24 or a zone minute of 60).
\<close>

definition time_Nanosecond :: "Time \<Rightarrow> int" where
  "time_Nanosecond t = tnanos t mod Second"

fun fixedDigits :: "nat \<Rightarrow> int \<Rightarrow> string" where
  "fixedDigits 0 n = []"
| "fixedDigits (Suc k) n = fixedDigits k (n div 10) @ [dig (n mod 10)]"

definition stripZeros :: "string \<Rightarrow> string" where
  "stripZeros s = rev (dropWhile (\<lambda>c. c = CHR ''0'') (rev s))"

definition format_nano :: "Time \<Rightarrow> string" where
  "format_nano t =
     (case time_Date t of (y, m, d) \<Rightarrow>
        pad4 y @ ''-'' @ pad2 m @ ''-'' @ pad2 d @ ''T'' @
        pad2 (time_Hour t) @ '':'' @ pad2 (time_Minute t) @ '':'' @ pad2 (time_Second t) @
        (if time_Nanosecond t = 0 then [] else ''.'' @ stripZeros (fixedDigits 9 (time_Nanosecond t))) @
        format_zone (toffset t))"

definition time_year :: "Time \<Rightarrow> int" where
  "time_year t = fst (time_Date t)"

definition marshal_time :: "Time \<Rightarrow> string option" where
  "marshal_time t =
     (if 0 \<le> time_year t \<and> time_year t \<le> 9999 \<and> \<bar>toffset t\<bar> < 24 * 3600
      then Some (format_nano t) else None)"

definition strict_rfc3339 :: "string \<Rightarrow> bool" where
  "strict_rfc3339 s \<longleftrightarrow>
     s ! 12 \<noteq> CHR '':'' \<and> s ! 19 \<noteq> CHR '','' \<and>
     (last s \<noteq> CHR ''Z'' \<longrightarrow>
        digVal (s ! (length s - 5)) * 10 + digVal (s ! (length s - 4)) < 24 \<and>
        digVal (s ! (length s - 2)) * 10 + digVal (s ! (length s - 1)) < 60)"

definition unmarshal_time :: "string \<Rightarrow> Time option" where
  "unmarshal_time s =
     (case parse_rfc3339 s of
        None \<Rightarrow> None
      | Some t \<Rightarrow> if strict_rfc3339 s then Some t else None)"

lemma fixedDigits_props:
  "0 \<le> n \<Longrightarrow> n < 10 ^ k \<Longrightarrow>
   length (fixedDigits k n) = k \<and> list_all isDigit (fixedDigits k n) \<and> digits_val 0 (fixedDigits k n) = Some n"
proof (induction k arbitrary: n)
  case (Suc k)
  then have "n div 10 < 10 ^ k" by (simp add: div_less_iff_less_mult)
  with Suc show ?case by (simp add: digits_val_append)
qed simp

lemma digits_val_replicate: "digits_val a (replicate k CHR ''0'') = Some (a * 10 ^ k)"
  by (induction k arbitrary: a) (simp_all add: isDigit_def digVal_def byte_def)

lemma stripZeros_split: "\<exists>k. s = stripZeros s @ replicate k CHR ''0''"
proof -
  let ?r = "takeWhile (\<lambda>c. c = CHR ''0'') (rev s)"
  have "?r = replicate (length ?r) CHR ''0''" by (intro replicate_eqI) (auto dest: set_takeWhileD)
  moreover have "s = rev (?r @ dropWhile (\<lambda>c. c = CHR ''0'') (rev s))" by simp
  ultimately have "s = stripZeros s @ replicate (length ?r) CHR ''0''"
    unfolding stripZeros_def by (metis rev_append rev_replicate)
  then show ?thesis ..
qed

lemma zone_no_digit: "format_zone off = c # cs \<Longrightarrow> \<not> isDigit c"
  by (auto simp: format_zone_def Let_def isDigit_def byte_def split: if_splits)

lemma zone_not_Nil [simp]: "format_zone off \<noteq> []"
  by (simp add: format_zone_def Let_def)

lemma takeWhile_zone:
  "list_all isDigit ds \<Longrightarrow> takeWhile isDigit (ds @ format_zone off) = ds"
  "list_all isDigit ds \<Longrightarrow> dropWhile isDigit (ds @ format_zone off) = format_zone off"
  using zone_no_digit[of off] by (induction ds; cases "format_zone off"; auto)+

lemma getfrac_nano:
  assumes "0 < ns" "ns < Second"
  shows "getfrac (''.'' @ stripZeros (fixedDigits 9 ns) @ format_zone off) = (ns, format_zone off)"
proof -
  define f where "f = fixedDigits 9 ns"
  define z where "z = stripZeros f"
  have f: "length f = 9" "list_all isDigit f" "digits_val 0 f = Some ns"
    using fixedDigits_props[of ns 9] assms by (auto simp: f_def)
  obtain k where k: "f = z @ replicate k CHR ''0''" using stripZeros_split[of f] by (auto simp: z_def)
  have len: "length z = 9 - k" "k \<le> 9" and dig: "list_all isDigit z"
    using f(1,2) unfolding k by auto
  obtain v where v: "digits_val 0 z = Some v" "v * 10 ^ k = ns"
    using f(3) unfolding k by (cases "digits_val 0 z") (auto simp: digits_val_append digits_val_replicate)
  have ne: "z \<noteq> []" using v assms by auto
  then obtain d ds where d: "z = d # ds" by (cases z) auto
  have "isDigit d" using dig d by simp
  then have "getfrac (''.'' @ z @ format_zone off) =
      (let ns = takeWhile isDigit (z @ format_zone off); k = take 9 ns;
           v = (case digits_val 0 k of Some v \<Rightarrow> v | None \<Rightarrow> 0)
       in (v * 10 ^ (9 - length k), dropWhile isDigit (z @ format_zone off)))"
    unfolding d by (simp add: getfrac_def)
  also have "\<dots> = (ns, format_zone off)"
    using v len by (simp add: takeWhile_zone[OF dig] Let_def)
  finally show ?thesis unfolding z_def f_def .
qed

definition frac_string :: "Time \<Rightarrow> string" where
  "frac_string t =
     (if time_Nanosecond t = 0 then [] else ''.'' @ stripZeros (fixedDigits 9 (time_Nanosecond t)))"

lemma getfrac_string: "getfrac (frac_string t @ format_zone off) = (time_Nanosecond t, format_zone off)"
proof (cases "time_Nanosecond t = 0")
  case False
  have "0 \<le> time_Nanosecond t" "time_Nanosecond t < Second" by (simp_all add: time_Nanosecond_def)
  then show ?thesis using False getfrac_nano[of "time_Nanosecond t" off] by (simp add: frac_string_def)
qed (simp add: frac_string_def getfrac_zone)

lemma parse_format_nano:
  assumes "time_Date t = (y, m, d)" "0 \<le> y" "y \<le> 9999" "60 dvd toffset t" "\<bar>toffset t\<bar> < 25 * 3600"
  shows "parse_rfc3339 (format_nano t) = Some t"
proof -
  have "unixSec t * Second + time_Nanosecond t = tnanos t"
    unfolding unixSec_def time_Nanosecond_def by (rule div_mult_mod_eq)
  moreover have "format_nano t = pad4 y @ ''-'' @ pad2 m @ ''-'' @ pad2 d @ ''T'' @ pad2 (time_Hour t) @ '':'' @
      pad2 (time_Minute t) @ '':'' @ pad2 (time_Second t) @ frac_string t @ format_zone (toffset t)"
    by (simp add: format_nano_def assms(1) frac_string_def)
  ultimately show ?thesis using parse_fields[OF assms getfrac_string] by simp
qed

lemma length_pad4: "0 \<le> y \<Longrightarrow> y \<le> 9999 \<Longrightarrow> length (pad4 y) = 4"
  using length_utoa[of y 3] by (simp add: pad4_def Let_def)

lemma zone_last:
  assumes "60 dvd off" "\<bar>off\<bar> < 24 * 3600" "off \<noteq> 0"
  obtains sg h1 h2 m1 m2 where "format_zone off = [sg, h1, h2, CHR '':'', m1, m2]"
    "digVal h1 * 10 + digVal h2 < 24" "digVal m1 * 10 + digVal m2 < 60"
proof -
  define z where "z = \<bar>off sdiv 60\<bar>"
  have "z = \<bar>off\<bar> div 60" unfolding z_def sdiv_60[OF assms(1)] using assms(1) by (auto elim!: dvdE simp: abs_mult)
  then have z: "0 \<le> z" "z < 24 * 60" using assms(2) by auto
  define h where "h = z div 60"
  define mm where "mm = z mod 60"
  have r: "0 \<le> h" "h < 24" "0 \<le> mm" "mm < 60" using z by (auto simp: h_def mm_def)
  have f: "format_zone off = [if off sdiv 60 < 0 then CHR ''-'' else CHR ''+'', dig (h div 10), dig (h mod 10), CHR '':'',
      dig (mm div 10), dig (mm mod 10)]"
    using assms(3) by (simp add: format_zone_def Let_def pad2_def h_def mm_def z_def)
  have "digVal (dig (h div 10)) * 10 + digVal (dig (h mod 10)) = h"
    "digVal (dig (mm div 10)) * 10 + digVal (dig (mm mod 10)) = mm" using r by simp_all
  then show ?thesis using that[OF f] r by simp
qed

lemma strict_format_nano:
  assumes "time_Date t = (y, m, d)" "0 \<le> y" "y \<le> 9999" "60 dvd toffset t" "\<bar>toffset t\<bar> < 24 * 3600"
  shows "strict_rfc3339 (format_nano t)"
proof -
  define pre where "pre = pad4 y @ ''-'' @ pad2 m @ ''-'' @ pad2 d @ ''T'' @ pad2 (time_Hour t) @ '':'' @
      pad2 (time_Minute t) @ '':'' @ pad2 (time_Second t)"
  have f: "format_nano t = pre @ frac_string t @ format_zone (toffset t)"
    by (simp add: format_nano_def assms(1) frac_string_def pre_def)
  have len: "length pre = 19" using length_pad4[OF assms(2,3)] by (simp add: pre_def pad2_def)
  have "pre ! 12 = dig (time_Hour t mod 10)"
    using length_pad4[OF assms(2,3)] by (simp add: pre_def pad2_def nth_append)
  moreover have "dig (time_Hour t mod 10) \<noteq> CHR '':''"
    using byte_dig[of "time_Hour t mod 10"] by (auto simp: byte_def)
  ultimately have h: "format_nano t ! 12 \<noteq> CHR '':''" unfolding f using len by (simp add: nth_append)
  have c: "format_nano t ! 19 \<noteq> CHR '',''"
    unfolding f nth_append using len by (auto simp: frac_string_def format_zone_def Let_def nth_append)
  show ?thesis
  proof (cases "toffset t = 0")
    case True
    then show ?thesis using h c unfolding strict_rfc3339_def f by (simp add: format_zone_def)
  next
    case False
    obtain sg h1 h2 m1 m2 where z: "format_zone (toffset t) = [sg, h1, h2, CHR '':'', m1, m2]"
      "digVal h1 * 10 + digVal h2 < 24" "digVal m1 * 10 + digVal m2 < 60"
      using zone_last[OF assms(4,5) False] .
    define w where "w = pre @ frac_string t"
    have "format_nano t = w @ [sg, h1, h2, CHR '':'', m1, m2]" unfolding f z(1) w_def by simp
    then show ?thesis using h c z(2,3) unfolding strict_rfc3339_def by (simp add: nth_append)
  qed
qed

text \<open>The JSON form keeps an instant exactly, in a zone of whole minutes.\<close>

lemma unmarshal_marshal_time:
  assumes "marshal_time t = Some s" "60 dvd toffset t"
  shows "unmarshal_time s = Some t"
proof -
  obtain y m d where date: "time_Date t = (y, m, d)" by (cases "time_Date t") auto
  have "0 \<le> y" "y \<le> 9999" "\<bar>toffset t\<bar> < 24 * 3600" and s: "s = format_nano t"
    using assms(1) date by (auto simp: marshal_time_def time_year_def split: if_splits)
  then show ?thesis unfolding unmarshal_time_def s
    using parse_format_nano[OF date] strict_format_nano[OF date] assms(2) by simp
qed

end
