(* ===== verification/Parsing.thy ===== *)
theory Parsing
  imports Capacity Strconv Gotime
begin

text \<open>
  The two small parsers of the configuration: quantile levels, \<open>src/pkg/capacity/quantile.go\<close>, and
  durations with days and weeks, \<open>src/pkg/durationx/durationx.go\<close>, on top of the standard library's
  \<open>time.ParseDuration\<close>.
\<close>

section \<open>Quantile levels\<close>

datatype quantile_error = BadNotation num_error | OutOfRange float64

definition quantileNumber :: "string \<Rightarrow> rat \<Rightarrow> (quantile_error, float64) outcome" where
  "quantileNumber s hi =
     bind_outcome (wrap_err BadNotation (parseFloat s))
       (\<lambda>q. if q < 0 \<or> q > flit hi then Err (OutOfRange q) else Ok q)"

definition ParseQuantileLevel :: "string \<Rightarrow> (quantile_error, float64) outcome" where
  "ParseQuantileLevel s =
     (let s = trimSpace s
      in if s = [] \<or> s = ''0'' then Ok 0
         else if lower_byte (hd s) = 112
         then bind_outcome (quantileNumber (tl s) 100) (\<lambda>p. Ok (p / flit 100))
         else quantileNumber s 1)"

definition FormatQuantileLevel :: "(float64 \<Rightarrow> int) \<Rightarrow> float64 \<Rightarrow> string" where
  "FormatQuantileLevel cv q =
     (if q = 0 then ''disabled''
      else let percentile = q * flit 100
           in if feq percentile (i2f (f2i cv percentile)) then ''p'' @ itoa (f2i cv percentile)
              else ''p'' @ fmt_f1 percentile)"

section \<open>The standard library's durations\<close>

datatype dur_error = InvalidDuration | MissingUnit | UnknownUnit string | EmptyDuration | BadNumber num_error

text \<open>The leading digits, with the overflow check of the library.\<close>

fun leadingInt :: "int \<Rightarrow> string \<Rightarrow> (int \<times> string) option" where
  "leadingInt x [] = Some (x, [])"
| "leadingInt x (c # cs) =
     (if \<not> isDigit c then Some (x, c # cs)
      else if x > 2 ^ 63 div 10 then None
      else let y = x * 10 + digVal c in if y > 2 ^ 63 then None else leadingInt y cs)"

text \<open>The digits of a fraction and their scale; digits beyond the range are skipped.\<close>

fun leadingFraction :: "int \<Rightarrow> float64 \<Rightarrow> bool \<Rightarrow> string \<Rightarrow> int \<times> float64 \<times> string" where
  "leadingFraction x scale over [] = (x, scale, [])"
| "leadingFraction x scale over (c # cs) =
     (if \<not> isDigit c then (x, scale, c # cs)
      else if over \<or> x > (2 ^ 63 - 1) div 10 then leadingFraction x scale True cs
      else let y = x * 10 + digVal c
           in if y > 2 ^ 63 then leadingFraction x scale True cs else leadingFraction y (scale * flit 10) False cs)"

definition unitStop :: "char \<Rightarrow> bool" where
  "unitStop c \<longleftrightarrow> c = CHR ''.'' \<or> isDigit c"

text \<open>The micro sign comes in two code points, each two bytes of UTF-8.\<close>

definition unitValue :: "string \<Rightarrow> int option" where
  "unitValue u =
     (if u = ''ns'' then Some 1
      else if u = ''us'' \<or> map byte u = [194, 181, 115] \<or> map byte u = [206, 188, 115] then Some (10 ^ 3)
      else if u = ''ms'' then Some (10 ^ 6)
      else if u = ''s'' then Some Second
      else if u = ''m'' then Some Minute
      else if u = ''h'' then Some Hour
      else None)"

text \<open>
  One number with its unit: the nanoseconds and the rest of the text. The library's sums are of type
  \<open>uint64\<close>, so they are taken modulo \<open>2^64\<close>.
\<close>

definition durationTerm :: "(float64 \<Rightarrow> int) \<Rightarrow> string \<Rightarrow> (dur_error, int \<times> string) outcome" where
  "durationTerm cv s =
     (if s = [] \<or> \<not> unitStop (hd s) then Err InvalidDuration
      else case leadingInt 0 s of
        None \<Rightarrow> Err InvalidDuration
      | Some (v, r) \<Rightarrow>
          let pre = length r \<noteq> length s;
              point = r \<noteq> [] \<and> hd r = CHR ''.'';
              (f, scale, r') = (if point then leadingFraction 0 1 False (tl r) else (0, 1, r));
              post = point \<and> length r' \<noteq> length (tl r)
          in if \<not> pre \<and> \<not> post then Err InvalidDuration
             else let u = takeWhile (\<lambda>c. \<not> unitStop c) r'; rest = dropWhile (\<lambda>c. \<not> unitStop c) r'
                  in if u = [] then Err MissingUnit
                     else case unitValue u of
                       None \<Rightarrow> Err (UnknownUnit u)
                     | Some unit \<Rightarrow>
                         if v > 2 ^ 63 div unit then Err InvalidDuration
                         else let v = (v * unit + (if f > 0 then f2i cv (i2f f * (i2f unit / scale)) else 0)) mod 2 ^ 64
                              in if v > 2 ^ 63 then Err InvalidDuration else Ok (v, rest))"

lemma leadingInt_suffix: "leadingInt x s = Some (v, r) \<Longrightarrow> length r \<le> length s"
  by (induction x s arbitrary: v r rule: leadingInt.induct) (fastforce simp: Let_def split: if_splits)+

lemma leadingFraction_suffix: "leadingFraction x sc ov s = (f, sc', r) \<Longrightarrow> length r \<le> length s"
  by (induction x sc ov s arbitrary: f sc' r rule: leadingFraction.induct) (fastforce simp: Let_def split: if_splits)+

lemma durationTerm_shorter: "durationTerm cv s = Ok (v, rest) \<Longrightarrow> length rest < length s"
proof -
  assume ok: "durationTerm cv s = Ok (v, rest)"
  then obtain v0 r where r: "leadingInt 0 s = Some (v0, r)" by (auto simp: durationTerm_def split: if_splits option.splits)
  define r' where "r' = (if r \<noteq> [] \<and> hd r = CHR ''.'' then snd (snd (leadingFraction 0 1 False (tl r))) else r)"
  have "length r' \<le> length r"
    using leadingFraction_suffix[of 0 1 False "tl r"] by (cases "leadingFraction 0 1 False (tl r)") (auto simp: r'_def)
  moreover have "takeWhile (\<lambda>c. \<not> unitStop c) r' \<noteq> []" "rest = dropWhile (\<lambda>c. \<not> unitStop c) r'"
    using ok r by (auto simp: durationTerm_def r'_def Let_def split: if_splits option.splits prod.splits)
  moreover have "length (takeWhile (\<lambda>c. \<not> unitStop c) r') + length (dropWhile (\<lambda>c. \<not> unitStop c) r') = length r'"
    by (metis length_append takeWhile_dropWhile_id)
  ultimately show ?thesis using leadingInt_suffix[OF r] by (cases "takeWhile (\<lambda>c. \<not> unitStop c) r'") auto
qed

function durationTerms :: "(float64 \<Rightarrow> int) \<Rightarrow> int \<Rightarrow> string \<Rightarrow> (dur_error, int) outcome" where
  "durationTerms cv d s =
     (if s = [] then Ok d
      else case durationTerm cv s of
        Ok (v, rest) \<Rightarrow>
          let d = (d + v) mod 2 ^ 64 in if d > 2 ^ 63 then Err InvalidDuration else durationTerms cv d rest
      | Err e \<Rightarrow> Err e
      | Panic \<Rightarrow> Panic)"
  by pat_completeness auto
termination
  by (relation "measure (\<lambda>(cv, d, s). length s)") (auto dest: durationTerm_shorter)

declare durationTerms.simps [simp del]

text \<open>\<open>time.ParseDuration\<close>: an unsigned sum may reach \<open>2^63\<close> only with a minus sign.\<close>

definition time_ParseDuration :: "(float64 \<Rightarrow> int) \<Rightarrow> string \<Rightarrow> (dur_error, Duration) outcome" where
  "time_ParseDuration cv s =
     (case split_sign s of (neg, t) \<Rightarrow>
        if t = ''0'' then Ok 0
        else if t = [] then Err InvalidDuration
        else bind_outcome (durationTerms cv 0 t)
               (\<lambda>d. if neg then Ok (- d) else if d > 2 ^ 63 - 1 then Err InvalidDuration else Ok d))"

section \<open>Days and weeks\<close>

text \<open>
  The regular expression: digits, optionally a point and digits, and the letter \<open>w\<close> or \<open>d\<close>. A match at
  the head of the text gives the number, the letter and the rest.
\<close>

definition dayWeekMatch :: "string \<Rightarrow> (string \<times> char \<times> string) option" where
  "dayWeekMatch s =
     (let ds = takeWhile isDigit s; r = dropWhile isDigit s
      in if ds = [] then None
         else case r of
           [] \<Rightarrow> None
         | c # cs \<Rightarrow>
             if c = CHR ''w'' \<or> c = CHR ''d'' then Some (ds, c, cs)
             else if c = CHR ''.'' then
               (let fs = takeWhile isDigit cs; r' = dropWhile isDigit cs
                in if fs = [] then None
                   else case r' of
                     [] \<Rightarrow> None
                   | c' # cs' \<Rightarrow> if c' = CHR ''w'' \<or> c' = CHR ''d'' then Some (ds @ [c] @ fs, c', cs') else None)
             else None)"

lemma dayWeekMatch_shorter: "dayWeekMatch s = Some (n, c, rest) \<Longrightarrow> length rest < length s"
proof -
  assume m: "dayWeekMatch s = Some (n, c, rest)"
  have "length (dropWhile isDigit xs) \<le> length xs" for xs by (rule length_dropWhile_le)
  from this[of s] this[of "tl (dropWhile isDigit s)"] show ?thesis using m
    by (auto simp: dayWeekMatch_def Let_def split: if_splits list.splits)
qed

text \<open>
  All matches from the left: what remains of the text, the nanoseconds of the matches, and whether a
  number failed to parse. A digit run that is no match is skipped one character at a time.
\<close>

function replaceDayWeek ::
  "(float64 \<Rightarrow> int) \<Rightarrow> string \<Rightarrow> int \<Rightarrow> num_error option \<Rightarrow> string \<times> int \<times> num_error option" where
  "replaceDayWeek cv s extra err =
     (case s of
        [] \<Rightarrow> ([], extra, err)
      | x # xs \<Rightarrow>
          (case dayWeekMatch s of
             Some (n, c, rest) \<Rightarrow>
               (case parseFloat n of
                  Ok v \<Rightarrow> replaceDayWeek cv rest
                            (wrap64 (extra + f2i cv (v * i2f (if c = CHR ''w'' then 7 * 24 * Hour else 24 * Hour)))) err
                | Err e \<Rightarrow> replaceDayWeek cv rest extra (Some e)
                | Panic \<Rightarrow> replaceDayWeek cv rest extra err)
           | None \<Rightarrow> (case replaceDayWeek cv xs extra err of (r, ex, e) \<Rightarrow> (x # r, ex, e))))"
  by pat_completeness auto
termination
  by (relation "measure (\<lambda>(cv, s, extra, err). length s)") (auto dest: dayWeekMatch_shorter)

declare replaceDayWeek.simps [simp del]

definition durationx_Parse :: "(float64 \<Rightarrow> int) \<Rightarrow> string \<Rightarrow> (dur_error, Duration) outcome" where
  "durationx_Parse cv s =
     (let trimmed = trimSpace s
      in if trimmed = [] then Err EmptyDuration
         else case split_sign trimmed of (negative, t) \<Rightarrow>
           (case replaceDayWeek cv t 0 None of (remainder, extra, err) \<Rightarrow>
              (case err of
                 Some e \<Rightarrow> Err (BadNumber e)
               | None \<Rightarrow>
                   bind_outcome
                     (if remainder = [] then Ok extra
                      else bind_outcome (time_ParseDuration cv remainder) (\<lambda>base. Ok (wrap64 (extra + base))))
                     (\<lambda>extra. Ok (if negative then wrap64 (- extra) else extra)))))"

text \<open>The flag value: \<open>Set\<close> keeps the old target on an error.\<close>

definition durationValue_Set :: "(float64 \<Rightarrow> int) \<Rightarrow> string \<Rightarrow> Duration \<Rightarrow> (dur_error, unit) outcome \<times> Duration" where
  "durationValue_Set cv s target =
     (case durationx_Parse cv s of
        Ok d \<Rightarrow> (Ok (), d) | Err e \<Rightarrow> (Err e, target) | Panic \<Rightarrow> (Panic, target))"

definition withPlaceholder :: "string \<Rightarrow> string" where
  "withPlaceholder usage =
     (if list_ex (\<lambda>c. byte c = 96) usage then usage
      else usage @ '' ('' @ [char_of (96 :: int)] @ ''duration'' @ [char_of (96 :: int)] @ '', e.g. 30m, 6h, 7d)'')"

section \<open>Agreement with the standard library\<close>

text \<open>A text in which no digit is followed by \<open>w\<close> or \<open>d\<close> has no day or week to replace.\<close>

fun noDayWeek :: "string \<Rightarrow> bool" where
  "noDayWeek [] \<longleftrightarrow> True"
| "noDayWeek (a # s) \<longleftrightarrow>
     \<not> (isDigit a \<and> s \<noteq> [] \<and> (hd s = CHR ''w'' \<or> hd s = CHR ''d'')) \<and> noDayWeek s"

lemma noDayWeek_append:
  "noDayWeek (s @ t) \<longleftrightarrow> noDayWeek s \<and> noDayWeek t \<and>
     \<not> (s \<noteq> [] \<and> t \<noteq> [] \<and> isDigit (last s) \<and> (hd t = CHR ''w'' \<or> hd t = CHR ''d''))"
  by (induction s) (auto simp: hd_append)

lemma noDayWeek_no_digit: "\<forall>c\<in>set s. \<not> isDigit c \<Longrightarrow> noDayWeek s"
  by (induction s) auto

lemma isDigit_not_dw: "isDigit c \<Longrightarrow> c \<noteq> CHR ''w'' \<and> c \<noteq> CHR ''d''"
  by (auto simp: isDigit_def byte_def)

lemma noDayWeek_digits: "\<forall>c\<in>set s. isDigit c \<Longrightarrow> noDayWeek s"
proof (induction s)
  case (Cons a s)
  then show ?case using isDigit_not_dw[of "hd s"] by (cases s) auto
qed simp

lemma noDayWeek_run:
  assumes n: "noDayWeek s" and t: "takeWhile isDigit s \<noteq> []" and d: "dropWhile isDigit s = c # cs"
  shows "c \<noteq> CHR ''w'' \<and> c \<noteq> CHR ''d'' \<and> noDayWeek cs"
proof -
  have "noDayWeek (takeWhile isDigit s @ (c # cs))" using n takeWhile_dropWhile_id[of isDigit s] d by simp
  moreover have "isDigit (last (takeWhile isDigit s))" using t by (metis last_in_set set_takeWhileD)
  ultimately show ?thesis using t unfolding noDayWeek_append by auto
qed

lemma dayWeekMatch_none:
  assumes n: "noDayWeek s"
  shows "dayWeekMatch s = None"
proof (cases "takeWhile isDigit s = [] \<or> dropWhile isDigit s = []")
  case False
  then obtain c cs where c: "dropWhile isDigit s = c # cs" by (cases "dropWhile isDigit s") auto
  note h = noDayWeek_run[OF n _ c]
  show ?thesis
  proof (cases "takeWhile isDigit cs = [] \<or> dropWhile isDigit cs = []")
    case True
    then show ?thesis using False c h by (elim disjE) (simp_all add: dayWeekMatch_def Let_def del: dropWhile_eq_Nil_conv)
  next
    case no: False
    then obtain c' cs' where c': "dropWhile isDigit cs = c' # cs'" by (cases "dropWhile isDigit cs") auto
    show ?thesis using False no c c' h noDayWeek_run[OF _ _ c'] by (auto simp: dayWeekMatch_def)
  qed
qed (elim disjE; simp add: dayWeekMatch_def Let_def del: dropWhile_eq_Nil_conv)

lemma replaceDayWeek_id: "noDayWeek s \<Longrightarrow> replaceDayWeek cv s extra err = (s, extra, err)"
proof (induction s)
  case Nil
  then show ?case by (subst replaceDayWeek.simps) simp
next
  case (Cons a s)
  then show ?case using dayWeekMatch_none[OF Cons.prems] by (subst replaceDayWeek.simps) simp
qed

text \<open>What a number with a unit looks like.\<close>

lemma leadingInt_split:
  "leadingInt x s = Some (v, r) \<Longrightarrow> \<exists>ds. s = ds @ r \<and> (\<forall>c\<in>set ds. isDigit c)"
proof (induction x s arbitrary: v r rule: leadingInt.induct)
  case (2 x c cs)
  show ?case
  proof (cases "isDigit c")
    case True
    then have "leadingInt (x * 10 + digVal c) cs = Some (v, r)" "\<not> x > 2 ^ 63 div 10" "\<not> x * 10 + digVal c > 2 ^ 63"
      using 2(2) by (auto simp: Let_def split: if_splits)
    then obtain ds where "cs = ds @ r" "\<forall>c\<in>set ds. isDigit c" using 2(1)[OF _ _ refl] True by auto
    then show ?thesis using True by (intro exI[of _ "c # ds"]) auto
  qed (use 2 in auto)
qed auto

lemma leadingFraction_split:
  "leadingFraction x sc ov s = (f, sc', r) \<Longrightarrow> \<exists>ds. s = ds @ r \<and> (\<forall>c\<in>set ds. isDigit c)"
proof (induction s arbitrary: x sc ov)
  case (Cons c cs)
  show ?case
  proof (cases "isDigit c")
    case True
    then obtain x' sc'' ov' where "leadingFraction x' sc'' ov' cs = (f, sc', r)"
      using Cons.prems by (auto simp: Let_def split: if_splits)
    then obtain ds where "cs = ds @ r" "\<forall>c\<in>set ds. isDigit c" using Cons.IH by blast
    then show ?thesis using True by (intro exI[of _ "c # ds"]) auto
  qed (use Cons in auto)
qed auto

lemma unitValue_shape:
  assumes "unitValue u = Some k"
  shows "u \<noteq> []" "hd u \<noteq> CHR ''w''" "hd u \<noteq> CHR ''d''" "last u \<in> {CHR ''s'', CHR ''m'', CHR ''h''}"
proof -
  have b: "byte c = 115 \<Longrightarrow> c = CHR ''s''" for c
  proof -
    assume "byte c = 115"
    then have "byte c = byte (CHR ''s'')" by (simp add: byte_def)
    then show "c = CHR ''s''" unfolding byte_def of_char_eq_iff .
  qed
  have m: "map byte u = [a, b, 115] \<Longrightarrow> byte (hd u) = a \<and> u \<noteq> [] \<and> last u = CHR ''s''" for a b :: int
    using b by (auto simp: map_eq_Cons_conv)
  have "u \<in> {''ns'', ''us'', ''ms'', ''s'', ''m'', ''h''} \<or> map byte u = [194, 181, 115] \<or> map byte u = [206, 188, 115]"
    using assms by (auto simp: unitValue_def split: if_splits)
  then have "u \<noteq> [] \<and> hd u \<noteq> CHR ''w'' \<and> hd u \<noteq> CHR ''d'' \<and> last u \<in> {CHR ''s'', CHR ''m'', CHR ''h''}"
  proof (elim disjE)
    assume "map byte u = [194, 181, 115]"
    from m[OF this] show ?thesis by (auto simp: byte_def)
  next
    assume "map byte u = [206, 188, 115]"
    from m[OF this] show ?thesis by (auto simp: byte_def)
  qed auto
  then show "u \<noteq> []" "hd u \<noteq> CHR ''w''" "hd u \<noteq> CHR ''d''" "last u \<in> {CHR ''s'', CHR ''m'', CHR ''h''}"
    by auto
qed

lemma durationTerm_shape:
  assumes "durationTerm cv s = Ok (v, rest)"
  shows "s \<noteq> [] \<and> unitStop (hd s) \<and> 0 \<le> v \<and> v \<le> 2 ^ 63 \<and>
     (\<exists>p. s = p @ rest \<and> p \<noteq> [] \<and> last p \<in> {CHR ''s'', CHR ''m'', CHR ''h''} \<and> noDayWeek p)"
proof -
  from assms obtain v0 r where r: "leadingInt 0 s = Some (v0, r)" and h: "s \<noteq> []" "unitStop (hd s)"
    by (auto simp: durationTerm_def split: if_splits option.splits)
  obtain ds where ds: "s = ds @ r" "\<forall>c\<in>set ds. isDigit c" using leadingInt_split[OF r] by blast
  define point where "point \<longleftrightarrow> r \<noteq> [] \<and> hd r = CHR ''.''"
  obtain f scale r' where fr: "(if point then leadingFraction 0 1 False (tl r) else (0, 1, r)) = (f, scale, r')"
    by (metis prod_cases3)
  have "\<exists>q. r = q @ r' \<and> noDayWeek (ds @ q)"
  proof (cases point)
    case True
    then have "leadingFraction 0 1 False (tl r) = (f, scale, r')" using fr by simp
    from leadingFraction_split[OF this] obtain fs where fs: "tl r = fs @ r'" "\<forall>c\<in>set fs. isDigit c" by blast
    have "r = (CHR ''.'' # fs) @ r'" using True fs by (cases r) (auto simp: point_def)
    moreover have "noDayWeek (ds @ CHR ''.'' # fs)"
      using noDayWeek_digits[OF ds(2)] noDayWeek_digits[OF fs(2)] by (simp add: noDayWeek_append isDigit_def byte_def)
    ultimately show ?thesis by blast
  qed (use fr noDayWeek_digits[OF ds(2)] in auto)
  then obtain q where q: "r = q @ r'" "noDayWeek (ds @ q)" by blast
  define u where "u = takeWhile (\<lambda>c. \<not> unitStop c) r'"
  obtain unit where u: "unitValue u = Some unit" and rest: "rest = dropWhile (\<lambda>c. \<not> unitStop c) r'"
    and v: "\<exists>w. v = w mod 2 ^ 64 \<and> v \<le> 2 ^ 63"
    using assms r fr h unfolding durationTerm_def u_def point_def
    by (auto simp: Let_def split: if_splits option.splits)
  note shape = unitValue_shape[OF u]
  have "noDayWeek u" by (rule noDayWeek_no_digit) (auto simp: u_def unitStop_def dest: set_takeWhileD)
  then have "noDayWeek ((ds @ q) @ u)" using q(2) shape by (subst noDayWeek_append) auto
  moreover have "s = ((ds @ q) @ u) @ rest" using ds(1) q(1) by (simp add: u_def rest)
  moreover have "last ((ds @ q) @ u) \<in> {CHR ''s'', CHR ''m'', CHR ''h''}" using shape by simp
  ultimately show ?thesis using h v shape(1) by (metis append_is_Nil_conv pos_mod_sign zero_less_numeral zero_less_power)
qed

lemma durationTerms_shape:
  "durationTerms cv d s = Ok d' \<Longrightarrow> 0 \<le> d \<Longrightarrow> d \<le> 2 ^ 63 \<Longrightarrow>
     noDayWeek s \<and> 0 \<le> d' \<and> d' \<le> 2 ^ 63 \<and>
     (s \<noteq> [] \<longrightarrow> unitStop (hd s) \<and> last s \<in> {CHR ''s'', CHR ''m'', CHR ''h''})"
proof (induction cv d s arbitrary: d' rule: durationTerms.induct)
  case (1 cv d s)
  show ?case
  proof (cases "s = []")
    case True
    then show ?thesis using 1 by (subst (asm) (2) durationTerms.simps) simp
  next
    case False
    then obtain v rest where t: "durationTerm cv s = Ok (v, rest)"
      and le: "\<not> (d + v) mod 2 ^ 64 > 2 ^ 63" and rec: "durationTerms cv ((d + v) mod 2 ^ 64) rest = Ok d'"
      using 1(2) by (subst (asm) durationTerms.simps) (auto simp: Let_def split: outcome.splits if_splits)
    have ih: "noDayWeek rest \<and> 0 \<le> d' \<and> d' \<le> 2 ^ 63 \<and>
       (rest \<noteq> [] \<longrightarrow> unitStop (hd rest) \<and> last rest \<in> {CHR ''s'', CHR ''m'', CHR ''h''})"
      by (rule 1(1)[OF False t refl refl le rec]) (use le in auto)
    obtain p where p: "s = p @ rest" "p \<noteq> []" "last p \<in> {CHR ''s'', CHR ''m'', CHR ''h''}" "noDayWeek p"
      and hd: "unitStop (hd s)" using durationTerm_shape[OF t] by blast
    have "\<not> isDigit (last p)" using p(3) by (auto simp: isDigit_def byte_def)
    then have "noDayWeek s" using p ih by (simp add: noDayWeek_append)
    moreover have "last s \<in> {CHR ''s'', CHR ''m'', CHR ''h''}" using p ih by (cases "rest = []") auto
    ultimately show ?thesis using ih hd by blast
  qed
qed

text \<open>A text that starts and ends with such characters has no white space to trim.\<close>

lemma trim_by_id: "s = [] \<or> list_all (\<lambda>p. p \<noteq> [] \<and> hd p \<noteq> byte (hd s)) pats \<Longrightarrow> trim_by pats s = s"
proof (cases "s = []")
  case False
  assume "s = [] \<or> list_all (\<lambda>p. p \<noteq> [] \<and> hd p \<noteq> byte (hd s)) pats"
  then have a: "list_all (\<lambda>p. p \<noteq> [] \<and> hd p \<noteq> byte (hd s)) pats" using False by simp
  have "p \<noteq> map byte (take (length p) s)" if "p \<in> set pats" for p
    using a that False by (cases p; cases s) (auto simp: list_all_iff)
  then have "find (\<lambda>p. p = map byte (take (length p) s)) pats = None" by (auto simp: find_None_iff)
  then show ?thesis by (subst trim_by.simps) (simp add: space_len_def)
qed (subst trim_by.simps, simp)

lemma trimSpace_id:
  assumes "s \<noteq> []" "byte (hd s) \<in> {43, 45, 46} \<or> isDigit (hd s)" "last s \<in> {CHR ''s'', CHR ''m'', CHR ''h'', CHR ''0''}"
  shows "trimSpace s = s"
proof -
  have "trim_by utf8_spaces s = s"
    by (rule trim_by_id) (use assms(2) in \<open>auto simp: utf8_spaces_def isDigit_def\<close>)
  moreover have "trim_by (map rev utf8_spaces) (rev s) = rev s"
    by (rule trim_by_id) (use assms in \<open>auto simp: utf8_spaces_def hd_rev byte_def\<close>)
  ultimately show ?thesis by (simp add: trimSpace_def)
qed

lemma time_ParseDuration_shape:
  assumes "time_ParseDuration cv s = Ok d" "split_sign s = (neg, t)"
  shows "t \<noteq> []" "noDayWeek t" "trimSpace s = s" "0 \<le> (if neg then - d else d)"
    "time_ParseDuration cv t = (if d = - (2 ^ 63) then Err InvalidDuration else Ok (if neg then - d else d))"
    "if neg then - (2 ^ 63) \<le> d else d < 2 ^ 63"
proof -
  have sgn: "byte (hd s) \<in> {43, 45} \<and> s = hd s # t \<or> s = t \<and> \<not> neg" if "t \<noteq> []"
    using assms(2) that by (cases s) (auto simp: split_sign_def byte_def split: if_splits)
  have "t \<noteq> [] \<and> noDayWeek t \<and> trimSpace s = s \<and> 0 \<le> (if neg then - d else d) \<and>
    time_ParseDuration cv t = (if d = - (2 ^ 63) then Err InvalidDuration else Ok (if neg then - d else d)) \<and>
    (if neg then - (2 ^ 63) \<le> d else d < 2 ^ 63)"
  proof (cases "t = ''0''")
    case True
    then have d: "d = 0" using assms by (simp add: time_ParseDuration_def)
    have "trimSpace s = s"
    proof (rule trimSpace_id)
      show "s \<noteq> []" "byte (hd s) \<in> {43, 45, 46} \<or> isDigit (hd s)" "last s \<in> {CHR ''s'', CHR ''m'', CHR ''h'', CHR ''0''}"
        using sgn True by (cases s; auto simp: isDigit_def byte_def)+
    qed
    then show ?thesis using True d by (auto simp: time_ParseDuration_def split_sign_def isDigit_def byte_def)
  next
    case False
    then have t: "t \<noteq> []" using assms by (auto simp: time_ParseDuration_def)
    obtain n where n: "durationTerms cv 0 t = Ok n" using assms False t
      by (cases "durationTerms cv 0 t") (auto simp: time_ParseDuration_def)
    then have d: "d = (if neg then - n else n)" and lt: "\<not> neg \<Longrightarrow> \<not> n > 2 ^ 63 - 1"
      using assms False t by (auto simp: time_ParseDuration_def split: if_splits)
    have sh: "noDayWeek t" "0 \<le> n" "n \<le> 2 ^ 63" "unitStop (hd t)" "last t \<in> {CHR ''s'', CHR ''m'', CHR ''h''}"
      using durationTerms_shape[OF n] t by auto
    have "trimSpace s = s"
    proof (rule trimSpace_id)
      show "s \<noteq> []" "byte (hd s) \<in> {43, 45, 46} \<or> isDigit (hd s)" "last s \<in> {CHR ''s'', CHR ''m'', CHR ''h'', CHR ''0''}"
        using sgn[OF t] sh(4,5) t by (cases s; auto simp: unitStop_def byte_def)+
    qed
    moreover have "split_sign t = (False, t)"
      using t sh(4) by (cases t) (auto simp: split_sign_def unitStop_def isDigit_def byte_def)
    ultimately show ?thesis using sh d lt n False t
      by (cases neg) (auto simp: time_ParseDuration_def)
  qed
  then show "t \<noteq> []" "noDayWeek t" "trimSpace s = s" "0 \<le> (if neg then - d else d)"
    "time_ParseDuration cv t = (if d = - (2 ^ 63) then Err InvalidDuration else Ok (if neg then - d else d))"
    "if neg then - (2 ^ 63) \<le> d else d < 2 ^ 63"
    by blast+
qed

text \<open>
  C29: \<open>durationx.Parse\<close> against the claim of its package comment, that any value \<open>time.ParseDuration\<close>
  accepts is parsed identically: it holds for every text and every duration but one. The least
  duration, which the library reads with its sign, is refused, because \<open>Parse\<close> removes the sign first
  and the magnitude alone is out of range.
\<close>

theorem durationx_superset:
  assumes "time_ParseDuration cv s = Ok d"
  shows "durationx_Parse cv s = (if d = - (2 ^ 63) then Err InvalidDuration else Ok d)"
proof -
  obtain neg t where st: "split_sign s = (neg, t)" by fastforce
  note sh = time_ParseDuration_shape[OF assms st]
  have "s \<noteq> []" using sh(1) st by (auto simp: split_sign_def)
  have w: "wrap64 (if neg then - d else d) = (if neg then - d else d)" "wrap64 d = d" if "d \<noteq> - (2 ^ 63)"
    using sh(4,6) that by (auto simp: wrap64_id int64_def split: if_splits)
  show ?thesis
    using sh(1,3) st sh(5) replaceDayWeek_id[OF sh(2), of cv 0 None] \<open>s \<noteq> []\<close> w
    by (auto simp: durationx_Parse_def)
qed

theorem durationx_superset_witness:
  "time_ParseDuration amd64_cv ''1h30m'' = Ok (90 * Minute) \<and>
   durationx_Parse amd64_cv ''1h30m'' = Ok (90 * Minute) \<and>
   time_ParseDuration amd64_cv ''-9223372036854775808ns'' = Ok (- (2 ^ 63)) \<and>
   durationx_Parse amd64_cv ''-9223372036854775808ns'' = Err InvalidDuration"
proof -
  have a: "time_ParseDuration amd64_cv ''1h30m'' = Ok (90 * Minute)" by code_simp
  have b: "time_ParseDuration amd64_cv ''-9223372036854775808ns'' = Ok (- (2 ^ 63))" by code_simp
  have "90 * Minute \<noteq> - (2 ^ 63)" by code_simp
  then show ?thesis using a b durationx_superset[OF a] durationx_superset[OF b] by simp
qed

text \<open>
  C30: \<open>ParseQuantileLevel\<close> against its comment, which promises an error outside \<open>[0, 1]\<close>: what it
  accepts lies in \<open>[0, 1]\<close>, in either notation, except for the texts of a not-a-number, which pass both
  range checks.
\<close>

theorem ParseQuantileLevel_range:
  assumes "ParseQuantileLevel s = Ok q"
  shows "Fin 0 \<le> q \<and> q \<le> Fin 1 \<or> q = NaN \<and> (special (trimSpace s) = Some NaN \<or> special (tl (trimSpace s)) = Some NaN)"
proof -
  have one: "rnd 1 = Fin 1" using rnd_of_int[of 1] by simp
  have num: "Fin 0 \<le> x \<and> x \<le> flit hi \<or> x = NaN \<and> special t = Some NaN"
    if "quantileNumber t hi = Ok x" "flit hi = Fin hi" for t hi x
  proof -
    from that have p: "parseFloat t = Ok x" "\<not> x < Fin 0" "\<not> x > flit hi"
      by (cases "parseFloat t"; auto simp: quantileNumber_def split: if_splits)+
    then show ?thesis using that(2)
      by (cases x) (auto simp: parseFloat_def split: option.splits float64.splits)
  qed
  have hundred: "Fin 0 \<le> p / flit 100 \<and> p / flit 100 \<le> Fin 1" if le: "Fin 0 \<le> p" "p \<le> Fin 100" for p
  proof -
    obtain r where r: "p = Fin r" "0 \<le> r" "r \<le> 100" using le by (cases p) auto
    then have "p / flit 100 = rnd (r / 100)" by (simp add: divide_float64_def)
    moreover have "rnd (r / 100) \<le> rnd 1" by (rule rnd_mono) (use r in simp)
    moreover have "Fin 0 \<le> rnd (r / 100)" using r by simp
    ultimately show ?thesis using one by simp
  qed
  show ?thesis
  proof (cases "trimSpace s = [] \<or> trimSpace s = ''0''")
    case True
    then show ?thesis using assms by (auto simp: ParseQuantileLevel_def)
  next
    case False
    show ?thesis
    proof (cases "lower_byte (hd (trimSpace s)) = 112")
      case True
      then obtain p where "quantileNumber (tl (trimSpace s)) 100 = Ok p" "q = p / flit 100"
        using assms False
        by (cases "quantileNumber (tl (trimSpace s)) 100") (auto simp: ParseQuantileLevel_def Let_def)
      then show ?thesis using num[of "tl (trimSpace s)" 100 p] hundred[of p]
        by (auto simp: divide_float64_def)
    next
      case no: False
      then have "quantileNumber (trimSpace s) 1 = Ok q" using assms False by (auto simp: ParseQuantileLevel_def Let_def)
      then show ?thesis using num[of "trimSpace s" 1 q] one by auto
    qed
  qed
qed

theorem ParseQuantileLevel_range_witness:
  "\<exists>q. ParseQuantileLevel '' P95 '' = Ok q \<and> Fin 0 \<le> q \<and> q \<le> Fin 1 \<and> ParseQuantileLevel ''pNaN'' = Ok NaN"
proof -
  have a: "ParseQuantileLevel '' P95 '' = Ok (flit (95 / 100))" by code_simp
  have b: "ParseQuantileLevel ''pNaN'' = Ok NaN" by code_simp
  have "flit (95 / 100) \<noteq> NaN" by simp
  then show ?thesis using ParseQuantileLevel_range[OF a] a b by blast
qed

end
