(* ===== verification/Json.thy ===== *)
theory Json
  imports Gotime
begin

text \<open>
  The part of Go's package \<open>encoding/json\<close> the program uses, on JSON values. The text of a value is
  not modelled: a number literal stands for the float it denotes, since Go prints the shortest
  literal that parses back to the same float.
\<close>

datatype json =
    JNull
  | JBool bool
  | JInt int
  | JFloat float64
  | JStr string
  | JArr "json list"
  | JObj "(string \<times> json) list"

section \<open>Encoding\<close>

text \<open>NaN and the infinities are unsupported values: the whole encoding fails.\<close>

definition enc_float :: "float64 \<Rightarrow> json option" where
  "enc_float x = (if finite64 x then Some (JFloat x) else None)"

definition enc_floats :: "float64 list \<Rightarrow> json option" where
  "enc_floats xs = map_option JArr (those (map enc_float xs))"

definition enc_ints :: "int list \<Rightarrow> json" where
  "enc_ints xs = JArr (map JInt xs)"

section \<open>Decoding\<close>

text \<open>
  A decoder gets the value that the target holds so far: null leaves a number, a string or a time as
  it is, and makes a slice nil.
\<close>

fun dec_string :: "string \<Rightarrow> json \<Rightarrow> string option" where
  "dec_string old JNull = Some old"
| "dec_string old (JStr s) = Some s"
| "dec_string old _ = None"

text \<open>An integer target needs an integer literal in the 64-bit range; a float whose literal has no
  fraction and no exponent is one.\<close>

fun dec_int :: "int \<Rightarrow> json \<Rightarrow> int option" where
  "dec_int old JNull = Some old"
| "dec_int old (JInt n) = (if int64 n then Some n else None)"
| "dec_int old (JFloat (Fin r)) =
     (if r = of_int \<lfloor>r\<rfloor> \<and> \<bar>r\<bar> < 10 ^ 21 \<and> int64 \<lfloor>r\<rfloor> then Some \<lfloor>r\<rfloor> else None)"
| "dec_int old _ = None"

fun dec_float :: "float64 \<Rightarrow> json \<Rightarrow> float64 option" where
  "dec_float old JNull = Some old"
| "dec_float old (JInt n) = (if finite64 (i2f n) then Some (i2f n) else None)"
| "dec_float old (JFloat x) = Some x"
| "dec_float old _ = None"

fun dec_time :: "Time \<Rightarrow> json \<Rightarrow> Time option" where
  "dec_time old JNull = Some old"
| "dec_time old (JStr s) = unmarshal_time s"
| "dec_time old _ = None"

fun dec_list :: "(json \<Rightarrow> 'a option) \<Rightarrow> json \<Rightarrow> 'a list option" where
  "dec_list dec JNull = Some []"
| "dec_list dec (JArr js) = those (map dec js)"
| "dec_list dec _ = None"

text \<open>Object fields are applied in order to the target; names match without regard to case.\<close>

fun dec_fields :: "(string \<Rightarrow> json \<Rightarrow> 'a \<Rightarrow> 'a option) \<Rightarrow> (string \<times> json) list \<Rightarrow> 'a \<Rightarrow> 'a option" where
  "dec_fields step [] a = Some a"
| "dec_fields step ((k, v) # kvs) a =
     (case step k v a of None \<Rightarrow> None | Some b \<Rightarrow> dec_fields step kvs b)"

definition dec_object :: "(string \<Rightarrow> json \<Rightarrow> 'a \<Rightarrow> 'a option) \<Rightarrow> 'a \<Rightarrow> json \<Rightarrow> 'a option" where
  "dec_object step a j =
     (case j of JObj kvs \<Rightarrow> dec_fields step kvs a | JNull \<Rightarrow> Some a | _ \<Rightarrow> None)"

section \<open>Round trips of the parts\<close>

lemma those_map_Some: "those (map (\<lambda>x. Some (f x)) xs) = Some (map f xs)"
  by (induction xs) auto

lemma enc_floats_Some_iff: "enc_floats xs = Some j \<longleftrightarrow> list_all finite64 xs \<and> j = JArr (map JFloat xs)"
proof -
  have "those (map enc_float xs) = (if list_all finite64 xs then Some (map JFloat xs) else None)"
    by (induction xs) (auto simp: enc_float_def)
  then show ?thesis by (auto simp: enc_floats_def)
qed

lemma dec_floats [simp]: "dec_list (dec_float d) (JArr (map JFloat xs)) = Some xs"
  by (simp add: comp_def those_map_Some)

lemma dec_ints [simp]:
  assumes "list_all int64 xs"
  shows "dec_list (dec_int d) (JArr (map JInt xs)) = Some xs"
proof -
  have "map (dec_int d \<circ> JInt) xs = map (\<lambda>x. Some x) xs" using assms by (auto simp: list_all_iff)
  then show ?thesis using those_map_Some[of "\<lambda>x. x" xs] by (simp only: dec_list.simps map_map map_ident)
qed

end
