(* ===== verification/Storage.thy ===== *)
theory Storage
  imports Json "HOL-Library.AList"
begin

text \<open>
  The snapshot stores of \<open>src/pkg/storage\<close>: the snapshot, the interface \<open>Store\<close> as a locale with
  the laws its clients rely on, the in-memory store with its time-to-live cleanup, and the store on
  a Redis server. The Redis client library is a parameter: three operations on a server state.
\<close>

section \<open>Snapshots and the interface\<close>

record Snapshot =
  Workload :: string
  Metric :: string
  GeneratedAt :: Time
  StepSeconds :: int
  HorizonSeconds :: int
  Values :: "float64 list"
  DesiredReplicas :: "int list"
  Quantiles :: "(float64, float64 list) gomap"

definition zero_time :: Time where
  "zero_time = \<lparr>tnanos = - (719162 * 86400 * Second), toffset = 0\<rparr>"

definition zero_snapshot :: Snapshot where
  "zero_snapshot = \<lparr>Workload = [], Metric = [], GeneratedAt = zero_time, StepSeconds = 0,
     HorizonSeconds = 0, Values = [], DesiredReplicas = [], Quantiles = None\<rparr>"

datatype store_error =
    EmptyWorkload
  | InvalidWorkload string
  | CtxError ctx_error
  | MarshalError
  | UnmarshalError
  | RedisError
  | EmptyAddress
  | InvalidDB

section \<open>The in-memory store\<close>

text \<open>
  The map of snapshots, the time to live, and the state of the cleanup goroutine: whether there is
  one (a ticker), whether its stop channel is closed, whether it has returned, and whether \<open>Stop\<close>
  has completed.
\<close>

record MemoryStore =
  snapshots :: "(string \<times> Snapshot) list"
  ttl :: Duration
  hasTicker :: bool
  stopCleanup :: bool
  cleanupDone :: bool
  stopped :: bool

definition NewMemoryStore :: MemoryStore where
  "NewMemoryStore = \<lparr>snapshots = [], ttl = 0, hasTicker = False, stopCleanup = False,
     cleanupDone = False, stopped = False\<rparr>"


definition mem_Put :: "ctx \<Rightarrow> Snapshot \<Rightarrow> MemoryStore \<Rightarrow> (store_error, unit) outcome \<times> MemoryStore" where
  "mem_Put ctx snapshot s =
     (if Workload snapshot = [] then (Err EmptyWorkload, s)
      else case ctx of
          Some e \<Rightarrow> (Err (CtxError e), s)
        | None \<Rightarrow> (Ok (), s\<lparr>snapshots := AList.update (Workload snapshot) snapshot (snapshots s)\<rparr>))"

text \<open>The pair (snapshot, found) as an option.\<close>

definition mem_GetLatest :: "ctx \<Rightarrow> string \<Rightarrow> MemoryStore \<Rightarrow> (store_error, Snapshot option) outcome" where
  "mem_GetLatest ctx workload s =
     (case ctx of Some e \<Rightarrow> Err (CtxError e) | None \<Rightarrow> Ok (map_of (snapshots s) workload))"

definition mem_List :: "ctx \<Rightarrow> MemoryStore \<Rightarrow> (store_error, string list) outcome" where
  "mem_List ctx s = (case ctx of Some e \<Rightarrow> Err (CtxError e) | None \<Rightarrow> Ok (map fst (snapshots s)))"

definition mem_Len :: "MemoryStore \<Rightarrow> int" where
  "mem_Len s = int (length (snapshots s))"

definition mem_Delete :: "string \<Rightarrow> MemoryStore \<Rightarrow> bool \<times> MemoryStore" where
  "mem_Delete workload s =
     (map_of (snapshots s) workload \<noteq> None, s\<lparr>snapshots := AList.delete workload (snapshots s)\<rparr>)"

definition mem_cleanup :: "Time \<Rightarrow> MemoryStore \<Rightarrow> MemoryStore" where
  "mem_cleanup now s =
     (if ttl s = 0 then s
      else s\<lparr>snapshots := filter (\<lambda>(_, snapshot). \<not> time_Sub now (GeneratedAt snapshot) > ttl s) (snapshots s)\<rparr>)"

text \<open>The invariant of a Go map: one entry per key; here also, the key is the snapshot's workload.\<close>

definition mem_inv :: "MemoryStore \<Rightarrow> bool" where
  "mem_inv s \<longleftrightarrow> distinct (map fst (snapshots s)) \<and>
     list_all (\<lambda>(k, v). Workload v = k \<and> k \<noteq> []) (snapshots s)"

section \<open>The cleanup goroutine\<close>

text \<open>
  \<open>Stop\<close> holds \<open>stopMu\<close> from closing the stop channel until the goroutine has returned. A state is
  the store together with the holder of the lock. The goroutine's select may take a tick even when
  the stop channel is already closed.
\<close>

datatype stop_pc = StopIdle | StopWaiting

inductive mem_step :: "MemoryStore \<times> stop_pc \<Rightarrow> MemoryStore \<times> stop_pc \<Rightarrow> bool" where
  Tick: "hasTicker s \<Longrightarrow> \<not> cleanupDone s \<Longrightarrow> mem_step (s, pc) (mem_cleanup now s, pc)"
| GoroutineReturn: "hasTicker s \<Longrightarrow> \<not> cleanupDone s \<Longrightarrow> stopCleanup s \<Longrightarrow>
    mem_step (s, pc) (s\<lparr>cleanupDone := True\<rparr>, pc)"
| StopClose: "hasTicker s \<Longrightarrow> \<not> stopped s \<Longrightarrow>
    mem_step (s, StopIdle) (s\<lparr>stopCleanup := True\<rparr>, StopWaiting)"
| StopReturn: "cleanupDone s \<Longrightarrow> mem_step (s, StopWaiting) (s\<lparr>stopped := True\<rparr>, StopIdle)"
| StopNoop: "\<not> hasTicker s \<or> stopped s \<Longrightarrow> mem_step (s, StopIdle) (s, StopIdle)"
| ClientPut: "mem_step (s, pc) (snd (mem_Put ctx x s), pc)"
| ClientDelete: "mem_step (s, pc) (snd (mem_Delete w s), pc)"

inductive_cases mem_stepE: "mem_step (s, pc) (s', pc')"


section \<open>The Redis store\<close>

datatype redis_reply = ReplyErr | ReplyNil | ReplyVal json

text \<open>
  The operations of the client library: SET with an expiry, GET, SCAN with a cursor (keys and the
  next cursor, or an error) and PING, on the state of the server.
\<close>

record 'r RedisClient =
  rSet :: "string \<Rightarrow> json \<Rightarrow> Duration \<Rightarrow> 'r \<Rightarrow> bool \<times> 'r"
  rGet :: "string \<Rightarrow> 'r \<Rightarrow> redis_reply"
  rScan :: "int \<Rightarrow> string \<Rightarrow> int \<Rightarrow> 'r \<Rightarrow> (string list \<times> int) option"
  rPing :: "'r \<Rightarrow> bool"

record RedisStore =
  rttl :: Duration
  clientNil :: bool

definition NewRedisStore ::
  "'r RedisClient \<Rightarrow> 'r \<Rightarrow> string \<Rightarrow> int \<Rightarrow> Duration \<Rightarrow> (store_error, RedisStore) outcome" where
  "NewRedisStore c r addr db t =
     (if addr = [] then Err EmptyAddress
      else if db < 0 then Err InvalidDB
      else let t = (if t = 0 then 30 * Minute else t)
           in if \<not> rPing c r then Err RedisError
              else Ok \<lparr>rttl = t, clientNil = False\<rparr>)"

definition redisNameChar :: "char \<Rightarrow> bool" where
  "redisNameChar ch \<longleftrightarrow>
     (let b = byte ch
      in 97 \<le> b \<and> b \<le> 122 \<or> 65 \<le> b \<and> b \<le> 90 \<or> 48 \<le> b \<and> b \<le> 57 \<or> ch = CHR ''-'' \<or> ch = CHR ''_'')"

text \<open>
  \<open>json.Marshal\<close> of a snapshot. The quantile map is omitted when empty; otherwise its key type
  \<open>float64\<close> is not one that JSON objects support, and the encoding fails.
\<close>

definition marshal_snapshot :: "Snapshot \<Rightarrow> json option" where
  "marshal_snapshot s = do {
     t \<leftarrow> marshal_time (GeneratedAt s);
     vs \<leftarrow> enc_floats (Values s);
     if gomap_len (Quantiles s) \<noteq> 0 then None
     else Some (JObj [(''Workload'', JStr (Workload s)), (''Metric'', JStr (Metric s)),
       (''GeneratedAt'', JStr t), (''StepSeconds'', JInt (StepSeconds s)),
       (''HorizonSeconds'', JInt (HorizonSeconds s)), (''Values'', vs),
       (''DesiredReplicas'', enc_ints (DesiredReplicas s))])
   }"

text \<open>One field of an object decoded into a snapshot; a map with \<open>float64\<close> keys cannot be decoded from
  any object, also an empty one.\<close>

definition snapshot_field :: "string \<Rightarrow> json \<Rightarrow> Snapshot \<Rightarrow> Snapshot option" where
  "snapshot_field k v s =
     (if eqFold k ''Workload'' then map_option (\<lambda>x. s\<lparr>Workload := x\<rparr>) (dec_string (Workload s) v)
      else if eqFold k ''Metric'' then map_option (\<lambda>x. s\<lparr>Metric := x\<rparr>) (dec_string (Metric s) v)
      else if eqFold k ''GeneratedAt'' then map_option (\<lambda>x. s\<lparr>GeneratedAt := x\<rparr>) (dec_time (GeneratedAt s) v)
      else if eqFold k ''StepSeconds'' then map_option (\<lambda>x. s\<lparr>StepSeconds := x\<rparr>) (dec_int (StepSeconds s) v)
      else if eqFold k ''HorizonSeconds'' then map_option (\<lambda>x. s\<lparr>HorizonSeconds := x\<rparr>) (dec_int (HorizonSeconds s) v)
      else if eqFold k ''Values'' then map_option (\<lambda>x. s\<lparr>Values := x\<rparr>) (dec_list (dec_float 0) v)
      else if eqFold k ''DesiredReplicas'' then map_option (\<lambda>x. s\<lparr>DesiredReplicas := x\<rparr>) (dec_list (dec_int 0) v)
      else if eqFold k ''quantiles'' then
        (case v of JNull \<Rightarrow> Some (s\<lparr>Quantiles := None\<rparr>) | _ \<Rightarrow> None)
      else Some s)"

definition unmarshal_snapshot :: "json \<Rightarrow> Snapshot option" where
  "unmarshal_snapshot j = dec_object snapshot_field zero_snapshot j"

definition redisKey :: "string \<Rightarrow> string" where
  "redisKey workload = ''kedastral:snapshot:'' @ workload"

definition redis_Put ::
  "'r RedisClient \<Rightarrow> RedisStore \<Rightarrow> Snapshot \<Rightarrow> 'r \<Rightarrow> (store_error, unit) outcome \<times> 'r" where
  "redis_Put c st s r =
     (if Workload s = [] then (Err EmptyWorkload, r)
      else if \<not> list_all redisNameChar (Workload s) then (Err (InvalidWorkload (Workload s)), r)
      else case marshal_snapshot s of
          None \<Rightarrow> (Err MarshalError, r)
        | Some data \<Rightarrow>
            if clientNil st then (Panic, r)
            else (case rSet c (redisKey (Workload s)) data (rttl st) r of
                (ok, r') \<Rightarrow> (if ok then Ok () else Err RedisError, r')))"

definition redis_GetLatest ::
  "'r RedisClient \<Rightarrow> RedisStore \<Rightarrow> string \<Rightarrow> 'r \<Rightarrow> (store_error, Snapshot option) outcome" where
  "redis_GetLatest c st workload r =
     (if workload = [] then Err EmptyWorkload
      else if clientNil st then Panic
      else case rGet c (redisKey workload) r of
          ReplyErr \<Rightarrow> Err RedisError
        | ReplyNil \<Rightarrow> Ok None
        | ReplyVal data \<Rightarrow>
            (case unmarshal_snapshot data of None \<Rightarrow> Err UnmarshalError | Some s \<Rightarrow> Ok (Some s)))"

text \<open>The SCAN loop ends when the server returns cursor 0.\<close>

partial_function (option) redis_scan ::
  "'r RedisClient \<Rightarrow> 'r \<Rightarrow> int \<Rightarrow> string list \<Rightarrow> (store_error, string list) outcome option" where
  "redis_scan c r cursor workloads =
     (case rScan c cursor ''kedastral:snapshot:*'' 100 r of
        None \<Rightarrow> Some (Err RedisError)
      | Some (keys, next) \<Rightarrow>
          if \<not> list_all (\<lambda>key. length ''kedastral:snapshot:'' \<le> length key) keys then Some Panic
          else let workloads = workloads @ map (drop (length ''kedastral:snapshot:'')) keys
               in if next = 0 then Some (Ok workloads) else redis_scan c r next workloads)"

definition redis_List :: "'r RedisClient \<Rightarrow> RedisStore \<Rightarrow> 'r \<Rightarrow> (store_error, string list) outcome option" where
  "redis_List c st r = (if clientNil st then Some Panic else redis_scan c r 0 [])"

text \<open>\<open>Close\<close>, given the error text of the client's own \<open>Close\<close>, if any.\<close>

definition redis_Close :: "string option \<Rightarrow> RedisStore \<Rightarrow> (store_error, unit) outcome \<times> RedisStore" where
  "redis_Close closeErr st =
     (if clientNil st then (Ok (), st)
      else (case closeErr of
              Some e \<Rightarrow> if e = ''redis: client is closed'' then Ok () else Err RedisError
            | None \<Rightarrow> Ok (), st\<lparr>clientNil := True\<rparr>))"

definition redis_Ping :: "'r RedisClient \<Rightarrow> RedisStore \<Rightarrow> 'r \<Rightarrow> (store_error, unit) outcome" where
  "redis_Ping c st r = (if clientNil st then Panic else if rPing c r then Ok () else Err RedisError)"

section \<open>The contract of a store\<close>

text \<open>
  What a client of \<open>Store\<close> relies on: a failed put changes nothing, a successful put is what the next
  read of that workload returns and leaves the other workloads alone, and the listing names exactly
  the workloads that can be read. \<open>stored\<close> is the form in which the store gives a snapshot back.
\<close>

locale snapshot_store =
  fixes put :: "Snapshot \<Rightarrow> 's \<Rightarrow> (store_error, unit) outcome \<times> 's"
    and get :: "string \<Rightarrow> 's \<Rightarrow> (store_error, Snapshot option) outcome"
    and listing :: "'s \<Rightarrow> (store_error, string list) outcome"
    and stored :: "Snapshot \<Rightarrow> Snapshot"
    and inv :: "'s \<Rightarrow> bool"
  assumes put_inv: "inv s \<Longrightarrow> inv (snd (put x s))"
    and put_failed: "fst (put x s) \<noteq> Ok () \<Longrightarrow> snd (put x s) = s"
    and put_named: "fst (put x s) = Ok () \<Longrightarrow> Workload x \<noteq> []"
    and get_put: "inv s \<Longrightarrow> fst (put x s) = Ok () \<Longrightarrow>
          get w (snd (put x s)) = (if w = Workload x then Ok (Some (stored x)) else get w s)"
    and listing_get: "inv s \<Longrightarrow> listing s = Ok ws \<Longrightarrow> w \<in> set ws \<longleftrightarrow> (\<exists>x. get w s = Ok (Some x))"
begin

text \<open>A sequence of puts, each of which succeeds.\<close>

fun puts :: "Snapshot list \<Rightarrow> 's \<Rightarrow> 's" where
  "puts [] s = s"
| "puts (x # xs) s = puts xs (snd (put x s))"

fun puts_ok :: "Snapshot list \<Rightarrow> 's \<Rightarrow> bool" where
  "puts_ok [] s = True"
| "puts_ok (x # xs) s = (fst (put x s) = Ok () \<and> puts_ok xs (snd (put x s)))"

lemma puts_inv: "inv s \<Longrightarrow> inv (puts xs s)"
  by (induction xs arbitrary: s) (simp_all add: put_inv)

text \<open>After any history the read of a workload gives its latest put.\<close>

lemma get_puts:
  "inv s \<Longrightarrow> puts_ok xs s \<Longrightarrow>
   get w (puts xs s) =
     (case filter (\<lambda>x. Workload x = w) xs of
        [] \<Rightarrow> get w s
      | ys \<Rightarrow> Ok (Some (stored (last ys))))"
proof (induction xs arbitrary: s)
  case (Cons x xs)
  then have IH: "get w (puts xs (snd (put x s))) =
      (case filter (\<lambda>x. Workload x = w) xs of [] \<Rightarrow> get w (snd (put x s)) | ys \<Rightarrow> Ok (Some (stored (last ys))))"
    by (intro Cons.IH) (simp_all add: put_inv)
  then show ?case
    using Cons.prems get_put[of s x w] by (auto split: list.splits)
qed simp

lemma listed_after_put:
  assumes "inv s" "fst (put x s) = Ok ()" "listing (snd (put x s)) = Ok ws"
  shows "Workload x \<in> set ws"
  using assms get_put[OF assms(1,2)] listing_get[OF put_inv[OF assms(1)] assms(3)] by auto

end

section \<open>The in-memory store keeps the contract\<close>

lemma mem_inv_new: "mem_inv NewMemoryStore"
  by (simp add: mem_inv_def NewMemoryStore_def)

lemma map_of_update: "map_of (AList.update k v al) w = (if w = k then Some v else map_of al w)"
  by (simp add: update_conv')

lemma set_update_subset: "set (AList.update k v al) \<subseteq> insert (k, v) (set al)"
  by (induction al) auto

lemma mem_inv_Put: "mem_inv s \<Longrightarrow> mem_inv (snd (mem_Put ctx x s))"
  using set_update_subset[of "Workload x" x "snapshots s"]
  by (auto simp: mem_inv_def mem_Put_def list_all_iff distinct_update split: option.splits)




interpretation mem: snapshot_store "mem_Put None" "mem_GetLatest None" "mem_List None" "\<lambda>x. x" mem_inv
proof unfold_locales
  fix s :: MemoryStore and x :: Snapshot and w :: string and ws :: "string list"
  show "mem_inv s \<Longrightarrow> mem_inv (snd (mem_Put None x s))" by (rule mem_inv_Put)
  show "fst (mem_Put None x s) \<noteq> Ok () \<Longrightarrow> snd (mem_Put None x s) = s"
    by (simp add: mem_Put_def split: if_splits)
  show "fst (mem_Put None x s) = Ok () \<Longrightarrow> Workload x \<noteq> []"
    by (simp add: mem_Put_def split: if_splits)
  show "mem_inv s \<Longrightarrow> fst (mem_Put None x s) = Ok () \<Longrightarrow>
      mem_GetLatest None w (snd (mem_Put None x s)) =
        (if w = Workload x then Ok (Some x) else mem_GetLatest None w s)"
    by (simp add: mem_Put_def mem_GetLatest_def map_of_update split: if_splits)
  assume "mem_List None s = Ok ws"
  then have "set ws = dom (map_of (snapshots s))" by (simp add: mem_List_def dom_map_of_conv_image_fst) force
  then show "w \<in> set ws \<longleftrightarrow> (\<exists>y. mem_GetLatest None w s = Ok (Some y))" by (auto simp: mem_GetLatest_def)
qed

lemma map_of_filter_distinct:
  "distinct (map fst al) \<Longrightarrow>
   map_of (filter (\<lambda>(k, v). P v) al) k = (case map_of al k of Some v \<Rightarrow> if P v then Some v else None | None \<Rightarrow> None)"
  by (induction al) (auto simp: map_of_eq_None_iff[symmetric] split: option.splits)

lemma mem_cleanup_get:
  assumes "mem_inv s" "ttl s \<noteq> 0"
  shows "mem_GetLatest None w (mem_cleanup now s) =
         (case mem_GetLatest None w s of
            Ok (Some x) \<Rightarrow> Ok (if time_Sub now (GeneratedAt x) > ttl s then None else Some x)
          | other \<Rightarrow> other)"
  using assms map_of_filter_distinct[of "snapshots s" "\<lambda>x. \<not> time_Sub now (GeneratedAt x) > ttl s" w]
  by (auto simp: mem_cleanup_def mem_GetLatest_def mem_inv_def split: option.splits)

section \<open>The life of the cleanup goroutine\<close>


lemma mem_flags [simp]:
  "hasTicker (mem_cleanup now s) = hasTicker s" "stopCleanup (mem_cleanup now s) = stopCleanup s"
  "cleanupDone (mem_cleanup now s) = cleanupDone s" "stopped (mem_cleanup now s) = stopped s"
  "hasTicker (snd (mem_Put ctx x s)) = hasTicker s" "stopCleanup (snd (mem_Put ctx x s)) = stopCleanup s"
  "cleanupDone (snd (mem_Put ctx x s)) = cleanupDone s" "stopped (snd (mem_Put ctx x s)) = stopped s"
  "hasTicker (snd (mem_Delete w s)) = hasTicker s" "stopCleanup (snd (mem_Delete w s)) = stopCleanup s"
  "cleanupDone (snd (mem_Delete w s)) = cleanupDone s" "stopped (snd (mem_Delete w s)) = stopped s"
  by (simp_all add: mem_cleanup_def mem_Put_def mem_Delete_def split: option.splits)

lemma mem_inv_flags [simp]:
  "mem_inv (s\<lparr>stopCleanup := a\<rparr>) = mem_inv s" "mem_inv (s\<lparr>cleanupDone := a\<rparr>) = mem_inv s"
  "mem_inv (s\<lparr>stopped := a\<rparr>) = mem_inv s"
  by (simp_all add: mem_inv_def)



section \<open>Snapshots through Redis\<close>

lemma eqFold_refl [simp]: "eqFold k k"
  by (simp add: eqFold_def)

lemma marshal_snapshot_Some:
  assumes "marshal_snapshot s = Some j"
  obtains t where "marshal_time (GeneratedAt s) = Some t" "list_all finite64 (Values s)" "gomap_len (Quantiles s) = 0"
    "j = JObj [(''Workload'', JStr (Workload s)), (''Metric'', JStr (Metric s)),
       (''GeneratedAt'', JStr t), (''StepSeconds'', JInt (StepSeconds s)),
       (''HorizonSeconds'', JInt (HorizonSeconds s)), (''Values'', JArr (map JFloat (Values s))),
       (''DesiredReplicas'', JArr (map JInt (DesiredReplicas s)))]"
  using assms that
  by (auto simp: marshal_snapshot_def enc_floats_Some_iff enc_ints_def split: if_splits Option.bind_splits)

lemma snapshot_fields [simp]:
  "snapshot_field ''Workload'' v s = map_option (\<lambda>x. s\<lparr>Workload := x\<rparr>) (dec_string (Workload s) v)"
  "snapshot_field ''Metric'' v s = map_option (\<lambda>x. s\<lparr>Metric := x\<rparr>) (dec_string (Metric s) v)"
  "snapshot_field ''GeneratedAt'' v s = map_option (\<lambda>x. s\<lparr>GeneratedAt := x\<rparr>) (dec_time (GeneratedAt s) v)"
  "snapshot_field ''StepSeconds'' v s = map_option (\<lambda>x. s\<lparr>StepSeconds := x\<rparr>) (dec_int (StepSeconds s) v)"
  "snapshot_field ''HorizonSeconds'' v s = map_option (\<lambda>x. s\<lparr>HorizonSeconds := x\<rparr>) (dec_int (HorizonSeconds s) v)"
  "snapshot_field ''Values'' v s = map_option (\<lambda>x. s\<lparr>Values := x\<rparr>) (dec_list (dec_float 0) v)"
  "snapshot_field ''DesiredReplicas'' v s = map_option (\<lambda>x. s\<lparr>DesiredReplicas := x\<rparr>) (dec_list (dec_int 0) v)"
  by (simp_all add: snapshot_field_def eqFold_def lower_byte_def byte_def)

text \<open>The numbers of a snapshot are Go ints, and its zone is a whole number of minutes.\<close>

definition snapshot_wf :: "Snapshot \<Rightarrow> bool" where
  "snapshot_wf s \<longleftrightarrow> int64 (StepSeconds s) \<and> int64 (HorizonSeconds s) \<and>
     list_all int64 (DesiredReplicas s) \<and> 60 dvd toffset (GeneratedAt s)"

lemma unmarshal_marshal_snapshot:
  assumes "marshal_snapshot s = Some j" "snapshot_wf s"
  shows "unmarshal_snapshot j = Some (s\<lparr>Quantiles := None\<rparr>)"
proof -
  obtain t where t: "marshal_time (GeneratedAt s) = Some t" and j:
    "j = JObj [(''Workload'', JStr (Workload s)), (''Metric'', JStr (Metric s)),
       (''GeneratedAt'', JStr t), (''StepSeconds'', JInt (StepSeconds s)),
       (''HorizonSeconds'', JInt (HorizonSeconds s)), (''Values'', JArr (map JFloat (Values s))),
       (''DesiredReplicas'', JArr (map JInt (DesiredReplicas s)))]"
    using marshal_snapshot_Some[OF assms(1)] .
  have "unmarshal_time t = Some (GeneratedAt s)"
    using t assms(2) by (intro unmarshal_marshal_time) (simp_all add: snapshot_wf_def)
  then show ?thesis
    using assms(2) dec_floats[of 0 "Values s"] dec_ints[of "DesiredReplicas s" 0] unfolding j unmarshal_snapshot_def dec_object_def
    by (simp add: snapshot_wf_def zero_snapshot_def del: dec_list.simps)
qed

lemma redisKey_inject [simp]: "redisKey a = redisKey b \<longleftrightarrow> a = b"
  by (simp add: redisKey_def)

text \<open>What the store relies on from the server: a successful SET is what GET then returns.\<close>

definition redis_set_get :: "'r RedisClient \<Rightarrow> bool" where
  "redis_set_get c \<longleftrightarrow>
     (\<forall>k v t r r' k'. rSet c k v t r = (True, r') \<longrightarrow>
        rGet c k' r' = (if k' = k then ReplyVal v else rGet c k' r))"

section \<open>Properties of the stores\<close>

lemma mem_puts_foldl: "mem.puts xs s = foldl (\<lambda>s x. snd (mem_Put None x s)) s xs"
  by (induction xs arbitrary: s) simp_all

lemma mem_puts_ok: "list_all (\<lambda>x. Workload x \<noteq> []) xs \<Longrightarrow> mem.puts_ok xs s"
  by (induction xs arbitrary: s) (simp_all add: mem_Put_def)

text \<open>
  C11: the in-memory store returns the latest snapshot. After any sequence of puts of named snapshots
  into a new store, \<open>GetLatest\<close> of a workload gives the last snapshot put for it, and nothing when
  there was none; puts for other workloads never interfere.
\<close>

theorem mem_get_latest:
  assumes "list_all (\<lambda>x. Workload x \<noteq> []) xs"
  shows "mem_GetLatest None w (foldl (\<lambda>s x. snd (mem_Put None x s)) NewMemoryStore xs) =
         Ok (case filter (\<lambda>x. Workload x = w) xs of [] \<Rightarrow> None | ys \<Rightarrow> Some (last ys))"
  using mem.get_puts[OF mem_inv_new mem_puts_ok[OF assms], of w]
  unfolding mem_puts_foldl by (auto simp: mem_GetLatest_def NewMemoryStore_def split: list.splits)

text \<open>
  Cleanup removes exactly the stale snapshots. With a time to live set, a snapshot is gone after a
  cleanup when its age exceeds the time to live, and every other snapshot reads as before.
\<close>

lemma mem_cleanup_exact:
  assumes "mem_inv s" "ttl s \<noteq> 0"
  shows "mem_GetLatest None w (mem_cleanup now s) =
         (case mem_GetLatest None w s of
            Ok (Some x) \<Rightarrow> Ok (if time_Sub now (GeneratedAt x) > ttl s then None else Some x)
          | other \<Rightarrow> other)"
  using assms by (rule mem_cleanup_get)


text \<open>
  C15: a snapshot survives Redis. When a put succeeds on a server that gives back what was set, reading
  the workload gives the same snapshot (an empty quantile map comes back as no map), through JSON and
  the RFC 3339 time, and every other workload reads as before.
\<close>

theorem redis_get_put:
  assumes "redis_set_get c" "redis_Put c st s r = (Ok (), r')" "snapshot_wf s"
  shows "redis_GetLatest c st w r' =
         (if w = Workload s then Ok (Some (s\<lparr>Quantiles := None\<rparr>)) else redis_GetLatest c st w r)"
proof -
  obtain j where j: "marshal_snapshot s = Some j" and set: "rSet c (redisKey (Workload s)) j (rttl st) r = (True, r')"
    and n: "Workload s \<noteq> []" "\<not> clientNil st"
    using assms(2) by (auto simp: redis_Put_def split: if_splits option.splits prod.splits)
  have "rGet c k r' = (if k = redisKey (Workload s) then ReplyVal j else rGet c k r)" for k
    using assms(1) set unfolding redis_set_get_def by blast
  then show ?thesis
    using n unmarshal_marshal_snapshot[OF j assms(3)] by (simp add: redis_GetLatest_def)
qed

text \<open>
  C21: Redis refuses every snapshot that has quantiles. JSON objects cannot have \<open>float64\<close> keys, so
  the put of a snapshot with a non-empty quantile map fails and the server keeps what it had.
\<close>

theorem redis_put_quantiles_fails:
  assumes "gomap_len (Quantiles s) \<noteq> 0"
  shows "fst (redis_Put c st s r) \<noteq> Ok () \<and> snd (redis_Put c st s r) = r"
  using assms by (auto simp: redis_Put_def marshal_snapshot_def split: option.splits Option.bind_splits if_splits)

section \<open>Concrete stores\<close>

definition sample_time :: Time where
  "sample_time = \<lparr>tnanos = 1700000000123000000, toffset = 3600\<rparr>"

definition sample_snapshot :: Snapshot where
  "sample_snapshot = \<lparr>Workload = ''web'', Metric = ''rps'', GeneratedAt = sample_time, StepSeconds = 60,
     HorizonSeconds = 120, Values = [flit 10, flit (25/2)], DesiredReplicas = [2, 3], Quantiles = None\<rparr>"

definition sample_other :: Snapshot where
  "sample_other = sample_snapshot\<lparr>Workload := ''api'', DesiredReplicas := [7]\<rparr>"

theorem mem_get_latest_witness:
  "mem_GetLatest None ''web''
     (foldl (\<lambda>s x. snd (mem_Put None x s)) NewMemoryStore
        [sample_snapshot\<lparr>DesiredReplicas := [1]\<rparr>, sample_other, sample_snapshot, sample_other]) =
   Ok (Some sample_snapshot)"
  by (subst mem_get_latest) (simp_all add: sample_snapshot_def sample_other_def)

definition sample_store :: MemoryStore where
  "sample_store = \<lparr>snapshots = [(''web'', sample_snapshot)], ttl = 5 * Minute, hasTicker = True,
     stopCleanup = False, cleanupDone = False, stopped = False\<rparr>"


text \<open>A server that keeps an association list.\<close>

definition assoc_server :: "(string \<times> json) list RedisClient" where
  "assoc_server = \<lparr>rSet = (\<lambda>k v t r. (True, (k, v) # r)),
     rGet = (\<lambda>k r. case map_of r k of None \<Rightarrow> ReplyNil | Some v \<Rightarrow> ReplyVal v),
     rScan = (\<lambda>cur pat n r. Some (map fst r, 0)), rPing = (\<lambda>r. True)\<rparr>"

lemma assoc_server_set_get: "redis_set_get assoc_server"
  by (simp add: redis_set_get_def assoc_server_def)

lemma sample_marshal: "marshal_snapshot sample_snapshot \<noteq> None"
proof -
  have "marshal_time sample_time \<noteq> None" by code_simp
  moreover have "list_all finite64 [flit 10, flit (25/2)]" by code_simp
  ultimately show ?thesis
    by (auto simp: marshal_snapshot_def sample_snapshot_def enc_floats_def enc_float_def gomap_len_def
        split: Option.bind_splits)
qed

theorem redis_get_put_witness:
  "\<exists>r'. redis_Put assoc_server \<lparr>rttl = Minute, clientNil = False\<rparr> sample_snapshot [] = (Ok (), r') \<and>
        redis_GetLatest assoc_server \<lparr>rttl = Minute, clientNil = False\<rparr> ''web'' r' = Ok (Some sample_snapshot)"
proof -
  let ?st = "\<lparr>rttl = Minute, clientNil = False\<rparr>"
  obtain j where "marshal_snapshot sample_snapshot = Some j" using sample_marshal by auto
  then have put: "redis_Put assoc_server ?st sample_snapshot [] = (Ok (), [(redisKey ''web'', j)])"
    by (simp add: redis_Put_def assoc_server_def redisNameChar_def byte_def)
      (simp add: sample_snapshot_def redisNameChar_def byte_def)
  have "snapshot_wf sample_snapshot" by (simp add: snapshot_wf_def sample_snapshot_def sample_time_def int64_def)
  from redis_get_put[OF assoc_server_set_get put this, of "''web''"] put
  show ?thesis by (simp add: sample_snapshot_def)
qed

theorem redis_put_quantiles_fails_witness:
  "fst (redis_Put assoc_server \<lparr>rttl = Minute, clientNil = False\<rparr>
          (sample_snapshot\<lparr>Quantiles := Some [(flit (9/10), [flit 12, flit 15])]\<rparr>) []) \<noteq> Ok ()"
  using redis_put_quantiles_fails[of "sample_snapshot\<lparr>Quantiles := Some [(flit (9/10), [flit 12, flit 15])]\<rparr>"
      assoc_server "\<lparr>rttl = Minute, clientNil = False\<rparr>" "[]"]
  by (simp add: gomap_len_def)

end
