(* ===== verification/Http.thy ===== *)
theory Http
  imports Json
begin

text \<open>
  What the program sees of an HTTP exchange: the request could not be built, no response arrived
  (connection, timeout, cancelled context), or a response with a status and a body. The peer is a
  function from requests to replies, a parameter wherever a component calls one; a body that the
  caller decodes as JSON is the decoded value, \<open>None\<close> when the text is not JSON.
\<close>

datatype 'b http_reply =
    RequestInvalid
  | NoResponse
  | Response int 'b

abbreviation StatusOK :: int where "StatusOK \<equiv> 200"
abbreviation StatusBadRequest :: int where "StatusBadRequest \<equiv> 400"
abbreviation StatusNotFound :: int where "StatusNotFound \<equiv> 404"
abbreviation StatusInternalServerError :: int where "StatusInternalServerError \<equiv> 500"

end
