(* ===== verification/Httpx.thy ===== *)
theory Httpx
  imports Http "HOL-Library.AList"
begin

text \<open>
  The response helpers and middlewares of \<open>src/pkg/httpx/server.go\<close> and the certificate checks of
  \<open>src/pkg/tls/tls.go\<close>. A response writer is the pair of what the handler has set and what has been
  sent; a handler is a function on it that may panic half way.
\<close>

section \<open>Response writers\<close>

datatype chunk = JSONChunk json | TextChunk string

record ResponseWriter =
  wHeader :: "(string \<times> string) list"
  wStatus :: "int option"
  wSent :: "(string \<times> string) list"
  wBody :: "chunk list"
  statusCode :: int

definition newWriter :: ResponseWriter where
  "newWriter = \<lparr>wHeader = [], wStatus = None, wSent = [], wBody = [], statusCode = StatusOK\<rparr>"

definition header_Set :: "string \<Rightarrow> string \<Rightarrow> ResponseWriter \<Rightarrow> ResponseWriter" where
  "header_Set k v w = w\<lparr>wHeader := AList.update k v (wHeader w)\<rparr>"

text \<open>Only the first status counts; the headers are fixed with it. The wrapper of the logging
  middleware remembers the last status it was given.\<close>

definition WriteHeader :: "int \<Rightarrow> ResponseWriter \<Rightarrow> ResponseWriter" where
  "WriteHeader code w =
     (if wStatus w = None then w\<lparr>wStatus := Some code, wSent := wHeader w, statusCode := code\<rparr>
      else w\<lparr>statusCode := code\<rparr>)"

definition write_chunk :: "chunk \<Rightarrow> ResponseWriter \<Rightarrow> ResponseWriter" where
  "write_chunk c w =
     (let w = (if wStatus w = None then w\<lparr>wStatus := Some StatusOK, wSent := wHeader w\<rparr> else w)
      in w\<lparr>wBody := wBody w @ [c]\<rparr>)"

text \<open>The value is encoded before anything is written, but after the status has been sent.\<close>

definition WriteJSON :: "int \<Rightarrow> json option \<Rightarrow> ResponseWriter \<Rightarrow> bool \<times> ResponseWriter" where
  "WriteJSON status v w =
     (let w = WriteHeader status (header_Set ''Content-Type'' ''application/json'' w)
      in case v of None \<Rightarrow> (False, w) | Some j \<Rightarrow> (True, write_chunk (JSONChunk j) w))"

definition WriteErrorMessage :: "int \<Rightarrow> string \<Rightarrow> ResponseWriter \<Rightarrow> ResponseWriter" where
  "WriteErrorMessage status message w = snd (WriteJSON status (Some (JObj [(''error'', JStr message)])) w)"

definition WriteError :: "int \<Rightarrow> string \<Rightarrow> ResponseWriter \<Rightarrow> ResponseWriter" where
  "WriteError status err w = snd (WriteJSON status (Some (JObj [(''error'', JStr err)])) w)"

text \<open>What the peer receives when the handler returns.\<close>

definition reply_of :: "ResponseWriter \<Rightarrow> json option http_reply" where
  "reply_of w = Response (case wStatus w of Some c \<Rightarrow> c | None \<Rightarrow> StatusOK)
     (case wBody w of [JSONChunk j] \<Rightarrow> Some j | _ \<Rightarrow> None)"

definition header_of :: "string \<Rightarrow> ResponseWriter \<Rightarrow> string" where
  "header_of k w =
     (case map_of (if wStatus w = None then wHeader w else wSent w) k of Some v \<Rightarrow> v | None \<Rightarrow> [])"

section \<open>Handlers and middlewares\<close>

text \<open>A handler gives the writer as it left it and whether it panicked.\<close>

type_synonym handler = "ResponseWriter \<Rightarrow> bool \<times> ResponseWriter"

definition HealthHandler :: handler where
  "HealthHandler w = (False, write_chunk (TextChunk ''OK'') (WriteHeader StatusOK w))"

definition HealthHandlerWithCheck :: "string option \<Rightarrow> handler" where
  "HealthHandlerWithCheck check w =
     (case check of
        Some err \<Rightarrow> (False, WriteError 503 err w)
      | None \<Rightarrow> (False, write_chunk (TextChunk ''OK'') (WriteHeader StatusOK w)))"

text \<open>The logged status, the response and whether the panic goes on to the server.\<close>

definition LoggingMiddleware :: "handler \<Rightarrow> ResponseWriter \<Rightarrow> int option \<times> bool \<times> ResponseWriter" where
  "LoggingMiddleware next w =
     (case next (w\<lparr>statusCode := StatusOK\<rparr>) of
        (True, w') \<Rightarrow> (None, True, w')
      | (False, w') \<Rightarrow> (Some (statusCode w'), False, w'))"

definition RecoveryMiddleware :: "handler \<Rightarrow> handler" where
  "RecoveryMiddleware next w =
     (case next w of
        (True, w') \<Rightarrow> (False, WriteErrorMessage StatusInternalServerError ''internal server error'' w')
      | (False, w') \<Rightarrow> (False, w'))"

section \<open>TLS\<close>

record TLSFiles =
  Enabled :: bool
  CertFile :: string
  KeyFile :: string
  CAFile :: string

datatype tls_error =
    FilesNotSpecified
  | FileMissing string
  | EmptyPath string
  | LoadKeyPair
  | ReadCA
  | ParseCA

text \<open>The file system and the certificate parser: existence, content, certificates in a PEM text, a
  matching pair of certificate and key.\<close>

record TLSEnv =
  fsStat :: "string \<Rightarrow> bool"
  fsRead :: "string \<Rightarrow> string option"
  pemHasCerts :: "string \<Rightarrow> bool"
  keyPairOK :: "string \<Rightarrow> string \<Rightarrow> bool"

datatype client_auth = NoClientCert | RequireAndVerifyClientCert

record TLSConfig =
  ClientCAs :: "string option"
  RootCAs :: "string option"
  Certificates :: "(string \<times> string) list"
  ClientAuth :: client_auth
  MinVersion :: int
  CipherSuites :: "int list"

fun firstMissing :: "(string \<Rightarrow> bool) \<Rightarrow> string list \<Rightarrow> string option" where
  "firstMissing stat [] = None"
| "firstMissing stat (p # ps) = (if stat p then firstMissing stat ps else Some p)"

definition tls_Validate :: "TLSEnv \<Rightarrow> TLSFiles \<Rightarrow> (tls_error, unit) outcome" where
  "tls_Validate env c =
     (if \<not> Enabled c then Ok ()
      else if CertFile c = [] \<or> KeyFile c = [] \<or> CAFile c = [] then Err FilesNotSpecified
      else case firstMissing (fsStat env) [CertFile c, KeyFile c, CAFile c] of
             Some p \<Rightarrow> Err (FileMissing p) | None \<Rightarrow> Ok ())"

definition validateCertFiles :: "TLSEnv \<Rightarrow> string \<Rightarrow> string \<Rightarrow> string \<Rightarrow> (tls_error, unit) outcome" where
  "validateCertFiles env certFile keyFile caFile =
     (if certFile = [] then Err (EmptyPath ''certificate'')
      else if keyFile = [] then Err (EmptyPath ''key'')
      else if caFile = [] then Err (EmptyPath ''CA'')
      else case firstMissing (fsStat env) [certFile, keyFile, caFile] of
             Some p \<Rightarrow> Err (FileMissing p) | None \<Rightarrow> Ok ())"

text \<open>TLS 1.3 and its three cipher suites, by their numbers.\<close>

definition VersionTLS13 :: int where "VersionTLS13 = 772"

definition tls13Suites :: "int list" where
  "tls13Suites = [4865, 4866, 4867]"

definition NewServerTLSConfig :: "TLSEnv \<Rightarrow> string \<Rightarrow> string \<Rightarrow> string \<Rightarrow> (tls_error, TLSConfig) outcome" where
  "NewServerTLSConfig env certFile keyFile caFile =
     bind_outcome (validateCertFiles env certFile keyFile caFile) (\<lambda>_.
       case fsRead env caFile of
         None \<Rightarrow> Err ReadCA
       | Some caCert \<Rightarrow>
           if \<not> pemHasCerts env caCert then Err ParseCA
           else Ok \<lparr>ClientCAs = Some caCert, RootCAs = None, Certificates = [],
                    ClientAuth = RequireAndVerifyClientCert, MinVersion = VersionTLS13,
                    CipherSuites = tls13Suites\<rparr>)"

definition NewClientTLSConfig :: "TLSEnv \<Rightarrow> string \<Rightarrow> string \<Rightarrow> string \<Rightarrow> (tls_error, TLSConfig) outcome" where
  "NewClientTLSConfig env certFile keyFile caFile =
     bind_outcome (validateCertFiles env certFile keyFile caFile) (\<lambda>_.
       if \<not> keyPairOK env certFile keyFile then Err LoadKeyPair
       else case fsRead env caFile of
         None \<Rightarrow> Err ReadCA
       | Some caCert \<Rightarrow>
           if \<not> pemHasCerts env caCert then Err ParseCA
           else Ok \<lparr>ClientCAs = None, RootCAs = Some caCert, Certificates = [(certFile, keyFile)],
                    ClientAuth = NoClientCert, MinVersion = VersionTLS13, CipherSuites = tls13Suites\<rparr>)"

text \<open>\<open>NewClient\<close>: the TLS configuration of the transport, none for a plain client, and the timeout.\<close>

definition NewClient :: "TLSEnv \<Rightarrow> TLSFiles \<Rightarrow> Duration \<Rightarrow> (tls_error, TLSConfig option \<times> Duration) outcome" where
  "NewClient env cfg timeout =
     (if Enabled cfg
      then bind_outcome (NewClientTLSConfig env (CertFile cfg) (KeyFile cfg) (CAFile cfg)) (\<lambda>c. Ok (Some c, timeout))
      else Ok (None, timeout))"

section \<open>Properties\<close>

lemma reply_WriteJSON:
  "reply_of (snd (WriteJSON status v newWriter)) = Response status v"
  by (cases v) (simp_all add: reply_of_def WriteJSON_def write_chunk_def WriteHeader_def header_Set_def newWriter_def Let_def)

lemma reply_WriteErrorMessage:
  "reply_of (WriteErrorMessage status msg newWriter) = Response status (Some (JObj [(''error'', JStr msg)]))"
  by (simp add: WriteErrorMessage_def reply_WriteJSON)

text \<open>
  A response that cannot be encoded is an empty success. \<open>WriteJSON\<close> sends the status before it
  encodes: when the value has no JSON form the helper reports an error, and the peer has received the
  requested status with no body. The 500 that the helper's documentation promises is never sent, not even
  by an error message written afterwards.
\<close>

lemma WriteJSON_failure_keeps_status:
  "WriteJSON status None newWriter = (False, snd (WriteJSON status None newWriter)) \<and>
   reply_of (snd (WriteJSON status None newWriter)) = Response status None \<and>
   wStatus (WriteErrorMessage 500 msg (snd (WriteJSON status None newWriter))) = Some status"
  by (simp add: reply_WriteJSON)
    (simp add: WriteErrorMessage_def WriteJSON_def write_chunk_def WriteHeader_def header_Set_def newWriter_def Let_def)

text \<open>A panic never reaches the server through the recovery middleware; before a status is sent, the
  peer gets 500.\<close>

lemma recovery_contains_panics: "\<not> fst (RecoveryMiddleware next w)"
  by (auto simp: RecoveryMiddleware_def split: prod.splits bool.splits)

lemma recovery_replies_500:
  assumes "next newWriter = (True, w')" "wStatus w' = None" "wBody w' = []"
  shows "reply_of (snd (RecoveryMiddleware next newWriter)) =
    Response 500 (Some (JObj [(''error'', JStr ''internal server error'')]))"
  using assms by (simp add: RecoveryMiddleware_def WriteErrorMessage_def WriteJSON_def write_chunk_def
      WriteHeader_def header_Set_def reply_of_def Let_def)

text \<open>After a successful \<open>Validate\<close> the client's configuration can only fail on the content of the files.\<close>

lemma validated_client_errors:
  assumes "tls_Validate env cfg = Ok ()" "NewClient env cfg timeout = Err e"
  shows "e \<in> {LoadKeyPair, ReadCA, ParseCA}"
  using assms
  by (auto simp: tls_Validate_def NewClient_def NewClientTLSConfig_def validateCertFiles_def
      split: if_splits option.splits)

end
