(* ===== verification/Router.thy ===== *)
theory Router
  imports Storage Httpx
begin

text \<open>
  The HTTP API of the forecaster, \<open>src/cmd/forecaster/router/router.go\<close>, and its client,
  \<open>src/pkg/client/forecaster.go\<close>. The store is a parameter: the result of its \<open>GetLatest\<close> or \<open>List\<close>.
\<close>

section \<open>Workload names\<close>

definition alnum :: "char \<Rightarrow> bool" where
  "alnum c \<longleftrightarrow> isDigit c \<or> (97 \<le> lower_byte c \<and> lower_byte c \<le> 122)"

definition nameChar :: "char \<Rightarrow> bool" where
  "nameChar c \<longleftrightarrow> alnum c \<or> c = CHR ''_'' \<or> c = CHR ''-''"

text \<open>The regular expression: one alphanumeric, or two to 253 characters that start and end with one.\<close>

definition workloadNameMatch :: "string \<Rightarrow> bool" where
  "workloadNameMatch s \<longleftrightarrow>
     s \<noteq> [] \<and> alnum (hd s) \<and>
     (tl s = [] \<or> (length s \<le> 253 \<and> list_all nameChar (butlast (tl s)) \<and> alnum (last s)))"

section \<open>Handlers\<close>

definition handleListWorkloads :: "(store_error, string list) outcome \<Rightarrow> handler" where
  "handleListWorkloads listing w =
     (case listing of
        Panic \<Rightarrow> (True, w)
      | Err _ \<Rightarrow> (False, WriteErrorMessage StatusInternalServerError ''internal server error'' w)
      | Ok workloads \<Rightarrow>
          (False, snd (WriteJSON StatusOK (Some (JObj [(''workloads'', JArr (map JStr workloads))])) w)))"

definition snapshotBody :: "Snapshot \<Rightarrow> json option" where
  "snapshotBody s =
     map_option (\<lambda>vs. JObj [(''desiredReplicas'', enc_ints (DesiredReplicas s)),
                            (''generatedAt'', JStr (format_rfc3339 (GeneratedAt s))),
                            (''horizonSeconds'', JInt (HorizonSeconds s)), (''metric'', JStr (Metric s)),
                            (''stepSeconds'', JInt (StepSeconds s)), (''values'', vs),
                            (''workload'', JStr (Workload s))])
       (enc_floats (Values s))"

definition notFoundMessage :: "string \<Rightarrow> string" where
  "notFoundMessage workload = ''snapshot not found for workload '' @ [CHR 0x22] @ workload @ [CHR 0x22]"

definition handleGetSnapshot ::
  "(string \<Rightarrow> (store_error, Snapshot option) outcome) \<Rightarrow> Duration \<Rightarrow> Time \<Rightarrow> string \<Rightarrow> handler" where
  "handleGetSnapshot get staleAfter now workload w =
     (if workload = [] then (False, WriteErrorMessage StatusBadRequest ''workload parameter required'' w)
      else if \<not> workloadNameMatch workload
      then (False, WriteErrorMessage StatusBadRequest ''invalid workload name format'' w)
      else case get workload of
        Panic \<Rightarrow> (True, w)
      | Err _ \<Rightarrow> (False, WriteErrorMessage StatusInternalServerError ''internal server error'' w)
      | Ok None \<Rightarrow> (False, WriteErrorMessage StatusNotFound (notFoundMessage workload) w)
      | Ok (Some snapshot) \<Rightarrow>
          let w = (if time_Sub now (GeneratedAt snapshot) > staleAfter
                   then header_Set ''X-Kedastral-Stale'' ''true'' w else w)
          in (False, snd (WriteJSON StatusOK (snapshotBody snapshot) w)))"

text \<open>The routes; the metrics endpoint is the Prometheus library's.\<close>

datatype route = HealthRoute | SnapshotRoute string | WorkloadsRoute | MetricsRoute | NoRoute

definition SetupRoutes ::
  "(string \<Rightarrow> (store_error, Snapshot option) outcome) \<Rightarrow> (store_error, string list) outcome \<Rightarrow> handler \<Rightarrow>
   Duration \<Rightarrow> Time \<Rightarrow> route \<Rightarrow> handler" where
  "SetupRoutes get listing promHandler staleAfter now r =
     (case r of
        HealthRoute \<Rightarrow> HealthHandler
      | SnapshotRoute workload \<Rightarrow> handleGetSnapshot get staleAfter now workload
      | WorkloadsRoute \<Rightarrow> handleListWorkloads listing
      | MetricsRoute \<Rightarrow> promHandler
      | NoRoute \<Rightarrow> (\<lambda>w. (False, write_chunk (TextChunk ''404 page not found'') (WriteHeader StatusNotFound w))))"

section \<open>The client\<close>

datatype client_error =
    ClientEmptyWorkload
  | ClientBadURL
  | ClientBadRequest
  | ClientRequestFailed
  | SnapshotNotFound string
  | UnexpectedStatus int
  | ClientDecode

record ForecasterClient =
  baseURL :: string
  clientTimeout :: Duration

definition NewForecasterClient :: "string \<Rightarrow> ForecasterClient" where
  "NewForecasterClient url = \<lparr>baseURL = url, clientTimeout = 5 * Second\<rparr>"

definition NewForecasterClientWithTimeout :: "string \<Rightarrow> Duration \<Rightarrow> ForecasterClient" where
  "NewForecasterClientWithTimeout url timeout = \<lparr>baseURL = url, clientTimeout = timeout\<rparr>"

record SnapshotResponse =
  srWorkload :: string
  srMetric :: string
  srGeneratedAt :: Time
  srStepSeconds :: int
  srHorizonSeconds :: int
  srValues :: "float64 list"
  srDesiredReplicas :: "int list"

definition zero_response :: SnapshotResponse where
  "zero_response = \<lparr>srWorkload = [], srMetric = [], srGeneratedAt = zero_time, srStepSeconds = 0,
     srHorizonSeconds = 0, srValues = [], srDesiredReplicas = []\<rparr>"

definition snapshotResponse_field :: "string \<Rightarrow> json \<Rightarrow> SnapshotResponse \<Rightarrow> SnapshotResponse option" where
  "snapshotResponse_field k v s =
     (if eqFold k ''workload'' then map_option (\<lambda>x. s\<lparr>srWorkload := x\<rparr>) (dec_string (srWorkload s) v)
      else if eqFold k ''metric'' then map_option (\<lambda>x. s\<lparr>srMetric := x\<rparr>) (dec_string (srMetric s) v)
      else if eqFold k ''generatedAt'' then map_option (\<lambda>x. s\<lparr>srGeneratedAt := x\<rparr>) (dec_time (srGeneratedAt s) v)
      else if eqFold k ''stepSeconds'' then map_option (\<lambda>x. s\<lparr>srStepSeconds := x\<rparr>) (dec_int (srStepSeconds s) v)
      else if eqFold k ''horizonSeconds'' then map_option (\<lambda>x. s\<lparr>srHorizonSeconds := x\<rparr>) (dec_int (srHorizonSeconds s) v)
      else if eqFold k ''values'' then map_option (\<lambda>x. s\<lparr>srValues := x\<rparr>) (dec_list (dec_float 0) v)
      else if eqFold k ''desiredReplicas'' then map_option (\<lambda>x. s\<lparr>srDesiredReplicas := x\<rparr>) (dec_list (dec_int 0) v)
      else Some s)"

record SnapshotResult =
  resSnapshot :: Snapshot
  Stale :: bool

text \<open>
  The exchange: \<open>urlOK\<close> decides whether the base URL parses; the peer answers a workload with a reply
  and the value of the stale header.
\<close>

definition client_GetSnapshot ::
  "(string \<Rightarrow> bool) \<Rightarrow> (string \<Rightarrow> json option http_reply \<times> string) \<Rightarrow> ForecasterClient \<Rightarrow> string \<Rightarrow>
   (client_error, SnapshotResult) outcome" where
  "client_GetSnapshot urlOK peer c workload =
     (if workload = [] then Err ClientEmptyWorkload
      else if \<not> urlOK (baseURL c) then Err ClientBadURL
      else case peer workload of (reply, staleHeader) \<Rightarrow>
        (case reply of
           RequestInvalid \<Rightarrow> Err ClientBadRequest
         | NoResponse \<Rightarrow> Err ClientRequestFailed
         | Response status body \<Rightarrow>
             if status = StatusNotFound then Err (SnapshotNotFound workload)
             else if status \<noteq> StatusOK then Err (UnexpectedStatus status)
             else case Option.bind body (dec_object snapshotResponse_field zero_response) of
                    None \<Rightarrow> Err ClientDecode
                  | Some r \<Rightarrow>
                      Ok \<lparr>resSnapshot = \<lparr>Workload = srWorkload r, Metric = srMetric r, GeneratedAt = srGeneratedAt r,
                            StepSeconds = srStepSeconds r, HorizonSeconds = srHorizonSeconds r, Values = srValues r,
                            DesiredReplicas = srDesiredReplicas r, Quantiles = None\<rparr>,
                          Stale = (staleHeader = ''true'')\<rparr>))"

definition workloads_field :: "string \<Rightarrow> json \<Rightarrow> string list \<Rightarrow> string list option" where
  "workloads_field k v ws = (if eqFold k ''workloads'' then dec_list (dec_string []) v else Some ws)"

definition client_ListWorkloads ::
  "(string \<Rightarrow> bool) \<Rightarrow> json option http_reply \<Rightarrow> ForecasterClient \<Rightarrow> (client_error, string list) outcome" where
  "client_ListWorkloads urlOK reply c =
     (if \<not> urlOK (baseURL c) then Err ClientBadURL
      else case reply of
           RequestInvalid \<Rightarrow> Err ClientBadRequest
         | NoResponse \<Rightarrow> Err ClientRequestFailed
         | Response status body \<Rightarrow>
             if status \<noteq> StatusOK then Err (UnexpectedStatus status)
             else case Option.bind body (dec_object workloads_field []) of
                    None \<Rightarrow> Err ClientDecode | Some ws \<Rightarrow> Ok ws)"

definition IsStale :: "Time \<Rightarrow> Snapshot \<Rightarrow> Duration \<Rightarrow> bool" where
  "IsStale now snapshot staleAfter \<longleftrightarrow> time_Sub now (GeneratedAt snapshot) > staleAfter"

section \<open>A snapshot survives the trip to the client\<close>

text \<open>A time cut to whole seconds, as RFC 3339 without a fraction prints it.\<close>

definition trunc_sec :: "Time \<Rightarrow> Time" where
  "trunc_sec t = t\<lparr>tnanos := unixSec t * Second\<rparr>"

lemma trunc_sec_fields:
  "unixSec (trunc_sec t) = unixSec t" "toffset (trunc_sec t) = toffset t" "time_Nanosecond (trunc_sec t) = 0"
  by (simp_all add: trunc_sec_def unixSec_def time_Nanosecond_def)

lemma format_trunc: "format_rfc3339 t = format_nano (trunc_sec t)" "time_Date (trunc_sec t) = time_Date t"
proof -
  have w: "wallDay (trunc_sec t) = wallDay t" "secOfDay (trunc_sec t) = secOfDay t"
    by (simp_all add: wallDay_def secOfDay_def wallSec_def trunc_sec_fields)
  show d: "time_Date (trunc_sec t) = time_Date t" by (simp add: time_Date_def w)
  show "format_rfc3339 t = format_nano (trunc_sec t)"
    by (simp add: format_rfc3339_def format_nano_def d time_Hour_def time_Minute_def time_Second_def w trunc_sec_fields)
qed

text \<open>Times that JSON can carry.\<close>

definition json_time :: "Time \<Rightarrow> bool" where
  "json_time t \<longleftrightarrow> 0 \<le> time_year t \<and> time_year t \<le> 9999 \<and> 60 dvd toffset t \<and> \<bar>toffset t\<bar> < 24 * 3600"

lemma unmarshal_format_rfc3339:
  assumes "json_time t"
  shows "unmarshal_time (format_rfc3339 t) = Some (trunc_sec t)"
proof -
  have "marshal_time (trunc_sec t) = Some (format_rfc3339 t)"
    using assms by (simp add: marshal_time_def json_time_def time_year_def format_trunc trunc_sec_fields)
  then show ?thesis using assms by (intro unmarshal_marshal_time) (simp_all add: json_time_def trunc_sec_fields)
qed

definition servable :: "Snapshot \<Rightarrow> bool" where
  "servable s \<longleftrightarrow> list_all finite64 (Values s) \<and> list_all int64 (DesiredReplicas s) \<and>
     int64 (StepSeconds s) \<and> int64 (HorizonSeconds s) \<and> json_time (GeneratedAt s)"

text \<open>The snapshot as a client of the API sees it.\<close>

definition served :: "Snapshot \<Rightarrow> Snapshot" where
  "served s = s\<lparr>GeneratedAt := trunc_sec (GeneratedAt s), Quantiles := None\<rparr>"

lemma snapshotBody_servable:
  assumes "servable s"
  shows "snapshotBody s = Some (JObj [(''desiredReplicas'', JArr (map JInt (DesiredReplicas s))),
      (''generatedAt'', JStr (format_rfc3339 (GeneratedAt s))), (''horizonSeconds'', JInt (HorizonSeconds s)),
      (''metric'', JStr (Metric s)), (''stepSeconds'', JInt (StepSeconds s)), (''values'', JArr (map JFloat (Values s))),
      (''workload'', JStr (Workload s))])"
proof -
  have "enc_floats (Values s) = Some (JArr (map JFloat (Values s)))"
    using assms by (simp add: enc_floats_Some_iff servable_def)
  then show ?thesis by (simp add: snapshotBody_def enc_ints_def)
qed

lemma response_names:
  "\<not> eqFold ''desiredReplicas'' ''workload''" "\<not> eqFold ''desiredReplicas'' ''metric''" "\<not> eqFold ''desiredReplicas'' ''generatedAt''"
  "\<not> eqFold ''desiredReplicas'' ''stepSeconds''" "\<not> eqFold ''desiredReplicas'' ''horizonSeconds''" "\<not> eqFold ''desiredReplicas'' ''values''"
  "\<not> eqFold ''generatedAt'' ''workload''" "\<not> eqFold ''generatedAt'' ''metric''"
  "\<not> eqFold ''horizonSeconds'' ''workload''" "\<not> eqFold ''horizonSeconds'' ''metric''" "\<not> eqFold ''horizonSeconds'' ''generatedAt''"
  "\<not> eqFold ''horizonSeconds'' ''stepSeconds''" "\<not> eqFold ''metric'' ''workload''"
  "\<not> eqFold ''stepSeconds'' ''workload''" "\<not> eqFold ''stepSeconds'' ''metric''" "\<not> eqFold ''stepSeconds'' ''generatedAt''"
  "\<not> eqFold ''values'' ''workload''" "\<not> eqFold ''values'' ''metric''" "\<not> eqFold ''values'' ''generatedAt''"
  "\<not> eqFold ''values'' ''stepSeconds''" "\<not> eqFold ''values'' ''horizonSeconds''"
  by code_simp+

lemma eqFold_same: "eqFold s s"
  by (simp add: eqFold_def)

lemma dec_response_served:
  assumes "servable s"
  shows "Option.bind (snapshotBody s) (dec_object snapshotResponse_field zero_response) =
    Some \<lparr>srWorkload = Workload s, srMetric = Metric s, srGeneratedAt = trunc_sec (GeneratedAt s),
      srStepSeconds = StepSeconds s, srHorizonSeconds = HorizonSeconds s, srValues = Values s,
      srDesiredReplicas = DesiredReplicas s\<rparr>"
proof -
  have i: "list_all int64 (DesiredReplicas s)" "int64 (StepSeconds s)" "int64 (HorizonSeconds s)"
    and t: "unmarshal_time (format_rfc3339 (GeneratedAt s)) = Some (trunc_sec (GeneratedAt s))"
    using assms unmarshal_format_rfc3339 by (simp_all add: servable_def)
  show ?thesis unfolding snapshotBody_servable[OF assms]
    by (simp add: dec_object_def snapshotResponse_field_def response_names eqFold_same t i zero_response_def
        del: dec_list.simps)
qed

definition router_peer ::
  "(string \<Rightarrow> (store_error, Snapshot option) outcome) \<Rightarrow> Duration \<Rightarrow> Time \<Rightarrow> string \<Rightarrow> json option http_reply \<times> string" where
  "router_peer get staleAfter now workload =
     (case handleGetSnapshot get staleAfter now workload newWriter of
        (panicked, w) \<Rightarrow> if panicked then (NoResponse, []) else (reply_of w, header_of ''X-Kedastral-Stale'' w))"

lemma router_peer_found:
  assumes "workloadNameMatch workload" "get workload = Ok (Some s)"
  shows "router_peer get staleAfter now workload =
    (Response StatusOK (snapshotBody s), if time_Sub now (GeneratedAt s) > staleAfter then ''true'' else [])"
proof -
  have "workload \<noteq> []" using assms(1) by (simp add: workloadNameMatch_def)
  then show ?thesis using assms
    by (cases "snapshotBody s")
      (auto simp: router_peer_def handleGetSnapshot_def Let_def reply_of_def header_of_def WriteJSON_def write_chunk_def
        WriteHeader_def header_Set_def newWriter_def)
qed

text \<open>
  C16: a snapshot survives the trip to the client. For a workload name the API accepts, whose stored
  snapshot has finite values and a date that JSON can carry, the client of the forecaster gets exactly the
  stored snapshot, with the time of generation cut to whole seconds and without the quantiles, and marked
  stale exactly when it is older than the threshold.
\<close>

theorem client_reads_stored_snapshot:
  assumes "workloadNameMatch workload" "get workload = Ok (Some s)" "servable s" "urlOK (baseURL c)"
  shows "client_GetSnapshot urlOK (router_peer get staleAfter now) c workload =
    Ok \<lparr>resSnapshot = served s, Stale = IsStale now s staleAfter\<rparr>"
proof -
  have "workload \<noteq> []" using assms(1) by (simp add: workloadNameMatch_def)
  then show ?thesis using assms(4) dec_response_served[OF assms(3)]
    by (simp add: client_GetSnapshot_def router_peer_found[of workload get, OF assms(1,2)] served_def IsStale_def)
qed

text \<open>
  Every request gets the documented status. An empty or malformed name is answered 400 without
  reading the store, a failing store 500, an unknown workload 404, and a stored snapshot 200; the handler
  panics only if the store does.
\<close>

lemma handleGetSnapshot_status:
  "handleGetSnapshot get staleAfter now workload newWriter = (panicked, w) \<Longrightarrow>
   (if \<not> workloadNameMatch workload then \<not> panicked \<and> wStatus w = Some 400
    else case get workload of
      Panic \<Rightarrow> panicked
    | Err e \<Rightarrow> \<not> panicked \<and> wStatus w = Some 500
    | Ok None \<Rightarrow> \<not> panicked \<and> wStatus w = Some 404
    | Ok (Some s) \<Rightarrow> \<not> panicked \<and> wStatus w = Some 200)"
  by (auto simp: handleGetSnapshot_def workloadNameMatch_def WriteErrorMessage_def WriteJSON_def write_chunk_def
      WriteHeader_def header_Set_def newWriter_def Let_def split: if_splits outcome.splits option.splits)

theorem client_reads_stored_snapshot_witness:
  "client_GetSnapshot (\<lambda>_. True) (router_peer (\<lambda>w. Ok (Some sample_snapshot)) 0 sample_time) (NewForecasterClient ''u'') ''web'' =
    Ok \<lparr>resSnapshot = served sample_snapshot, Stale = False\<rparr>"
proof -
  have "workloadNameMatch ''web''" "servable sample_snapshot" "\<not> IsStale sample_time sample_snapshot 0" by code_simp+
  then show ?thesis using client_reads_stored_snapshot[of "''web''" "\<lambda>w. Ok (Some sample_snapshot)" sample_snapshot "\<lambda>_. True"]
    by simp
qed

end
