(* ===== verification/Config.thy ===== *)
theory Config
  imports Parsing Router
begin

text \<open>
  The configuration of the two servers, \<open>src/cmd/forecaster/config/config.go\<close> and
  \<open>src/cmd/scaler/config/config.go\<close>: environment variables as fallbacks of the command line's flags,
  and the validation of a workload. The environment is the list of its \<open>KEY=value\<close> texts. The command
  line is the map \<open>given\<close> from a flag's name to the text given for it, after the flag package has split
  the arguments; a text that does not convert to the flag's type ends the process.
\<close>

section \<open>Reading the environment\<close>

text \<open>\<open>splitEnv\<close>: the text before the first equals sign and the text after it.\<close>

fun splitEnv :: "string \<Rightarrow> string list" where
  "splitEnv [] = [[]]"
| "splitEnv (c # cs) =
     (if c = CHR ''='' then [[], cs]
      else case splitEnv cs of k # vs \<Rightarrow> (c # k) # vs | [] \<Rightarrow> [])"

definition os_Getenv :: "string list \<Rightarrow> string \<Rightarrow> string" where
  "os_Getenv environ key =
     (case find (\<lambda>e. case splitEnv e of [k, _] \<Rightarrow> k = key | _ \<Rightarrow> False) environ of
        Some e \<Rightarrow> last (splitEnv e) | None \<Rightarrow> [])"

definition toLower :: "char \<Rightarrow> char" where
  "toLower c = (if 65 \<le> byte c \<and> byte c \<le> 90 then char_of (byte c + 32) else c)"

text \<open>
  \<open>toLowerCamelCase\<close> on the bytes of the text: only ASCII letters change, so this agrees with the
  code's runes on every valid UTF-8 text. The flag \<open>start\<close> is the test \<open>i == 0\<close>.
\<close>

fun camelLoop :: "bool \<Rightarrow> bool \<Rightarrow> string \<Rightarrow> string" where
  "camelLoop start nextUpper [] = []"
| "camelLoop start nextUpper (c # cs) =
     (if c = CHR ''_'' then camelLoop False True cs
      else if start then toLower c # camelLoop False nextUpper cs
      else if nextUpper then c # camelLoop False False cs
      else toLower c # camelLoop False nextUpper cs)"

definition toLowerCamelCase :: "string \<Rightarrow> string" where
  "toLowerCamelCase s = camelLoop True False s"

definition addAdapterEntry :: "string \<Rightarrow> (string \<times> string) list \<Rightarrow> (string \<times> string) list" where
  "addAdapterEntry env config =
     (if length env > 8 \<and> take 8 env = ''ADAPTER_''
      then (case splitEnv env of
              [k, v] \<Rightarrow> AList.update (toLowerCamelCase (drop 8 k)) v config
            | _ \<Rightarrow> config)
      else config)"

definition parseAdapterConfig :: "string list \<Rightarrow> (string \<times> string) list" where
  "parseAdapterConfig environ = foldl (\<lambda>config env. addAdapterEntry env config) [] environ"

definition getEnv :: "string list \<Rightarrow> string \<Rightarrow> string \<Rightarrow> string" where
  "getEnv environ key defaultValue =
     (let v = os_Getenv environ key in if v \<noteq> [] then v else defaultValue)"

text \<open>
  \<open>fmt.Sscanf\<close> with \<open>%d\<close> and \<open>%f\<close>: leading blanks are skipped, the longest token is taken, and what
  follows it is not looked at. A newline among the blanks is an error.
\<close>

definition isBlank :: "char \<Rightarrow> bool" where
  "isBlank c \<longleftrightarrow> byte c \<in> {9, 11, 12, 13, 32}"

definition scanInt :: "string \<Rightarrow> (num_error, int) outcome" where
  "scanInt s =
     (let t = dropWhile isBlank s;
          (sgn, r) = (case t of c # cs \<Rightarrow> if c \<in> set ''+-'' then ([c], cs) else ([], t) | [] \<Rightarrow> ([], []))
      in parseInt64 (sgn @ takeWhile isDigit r))"

definition accept :: "string \<Rightarrow> string \<times> string \<Rightarrow> bool \<times> string \<times> string" where
  "accept ok st =
     (case st of (buf, s) \<Rightarrow>
        (case s of c # cs \<Rightarrow> if c \<in> set ok then (True, buf @ [c], cs) else (False, st) | [] \<Rightarrow> (False, st)))"

definition acceptAll :: "string \<Rightarrow> string \<times> string \<Rightarrow> string \<times> string" where
  "acceptAll ok st = (case st of (buf, s) \<Rightarrow>
     (buf @ takeWhile (\<lambda>c. c \<in> set ok) s, dropWhile (\<lambda>c. c \<in> set ok) s))"

fun acceptSeq :: "string list \<Rightarrow> string \<times> string \<Rightarrow> bool \<times> string \<times> string" where
  "acceptSeq [] st = (True, st)"
| "acceptSeq (ok # oks) st = (case accept ok st of (b, st') \<Rightarrow> if b then acceptSeq oks st' else (False, st'))"

definition floatToken :: "string \<Rightarrow> string" where
  "floatToken s =
     (let (nan, st) = acceptSeq [''nN'', ''aA'', ''nN''] ([], s)
      in if nan then fst st
         else let st = snd (accept ''+-'' st); (inf, st) = acceptSeq [''iI'', ''nN'', ''fF''] st
         in if inf then fst st
            else let (hex, st) = acceptSeq [''0'', ''xX''] st;
                     digits = (if hex then ''0123456789aAbBcCdDeEfF_'' else ''0123456789_'');
                     st = acceptAll digits st;
                     (dot, st) = accept ''.'' st;
                     st = (if dot then acceptAll digits st else st);
                     (ex, st) = accept (if hex then ''pP'' else ''eEpP'') st
                 in fst (if ex then acceptAll ''0123456789_'' (snd (accept ''+-'' st)) else st))"

text \<open>A decimal mantissa may carry a binary exponent, which \<open>ParseFloat\<close> itself does not take.\<close>

definition convertFloat :: "string \<Rightarrow> (num_error, float64) outcome" where
  "convertFloat t =
     (let m = takeWhile (\<lambda>c. c \<noteq> CHR ''p'') t; e = drop (Suc (length m)) t
      in if length m < length t \<and> \<not> list_ex (\<lambda>c. c \<in> set ''xX'') t
         then bind_outcome (parseFloat m) (\<lambda>f. bind_outcome (parseInt64 e) (\<lambda>k.
                Ok (case f of Fin r \<Rightarrow> rnd (r * 2 powi k) | _ \<Rightarrow> f)))
         else parseFloat t)"

definition scanFloat :: "string \<Rightarrow> (num_error, float64) outcome" where
  "scanFloat s = convertFloat (floatToken (dropWhile isBlank s))"

definition getEnvWith :: "(string \<Rightarrow> ('e, 'a) outcome) \<Rightarrow> string list \<Rightarrow> string \<Rightarrow> 'a \<Rightarrow> 'a" where
  "getEnvWith parse environ key defaultValue =
     (let v = os_Getenv environ key
      in if v \<noteq> [] then (case parse v of Ok a \<Rightarrow> a | _ \<Rightarrow> defaultValue) else defaultValue)"

definition getEnvInt :: "string list \<Rightarrow> string \<Rightarrow> int \<Rightarrow> int" where
  "getEnvInt = getEnvWith scanInt"

definition getEnvFloat :: "string list \<Rightarrow> string \<Rightarrow> float64 \<Rightarrow> float64" where
  "getEnvFloat = getEnvWith scanFloat"

definition getEnvDuration :: "(float64 \<Rightarrow> int) \<Rightarrow> string list \<Rightarrow> string \<Rightarrow> Duration \<Rightarrow> Duration" where
  "getEnvDuration cv = getEnvWith (durationx_Parse cv)"

definition getEnvBool :: "string list \<Rightarrow> string \<Rightarrow> bool \<Rightarrow> bool" where
  "getEnvBool environ key defaultValue =
     (let v = os_Getenv environ key in if v \<noteq> [] then v = ''true'' \<or> v = ''1'' else defaultValue)"

text \<open>The scaler reads its integers with \<open>strconv.Atoi\<close>, which takes the whole text.\<close>

definition scaler_getEnvInt :: "string list \<Rightarrow> string \<Rightarrow> int \<Rightarrow> int" where
  "scaler_getEnvInt = getEnvWith parseInt64"

section \<open>The forecaster's configuration\<close>

record Config =
  cListen :: string
  cLogFormat :: string
  cLogLevel :: string
  cStorage :: string
  cRedisAddr :: string
  cRedisPassword :: string
  cRedisDB :: int
  cRedisTTL :: Duration
  cTLS :: TLSFiles
  cOperator :: bool
  cScalerAddress :: string
  cWorkload :: string
  cMetric :: string
  cAdapter :: string
  cAdapterConfig :: "(string \<times> string) list"
  cHorizon :: Duration
  cStep :: Duration
  cTargetPerPod :: float64
  cHeadroom :: float64
  cQuantileLevel :: string
  cMinReplicas :: int
  cMaxReplicas :: int
  cUpMaxFactorPerStep :: float64
  cDownMaxPercentPerStep :: int
  cInterval :: Duration
  cWindow :: Duration
  cModel :: string
  cARIMA_P :: int
  cARIMA_D :: int
  cARIMA_Q :: int
  cSARIMA_P :: int
  cSARIMA_D :: int
  cSARIMA_Q :: int
  cSARIMA_SP :: int
  cSARIMA_SD :: int
  cSARIMA_SQ :: int
  cSARIMA_S :: int
  cBYOMURL :: string

record WorkloadConfig =
  wName :: string
  wMetric :: string
  wAdapter :: string
  wAdapterConfig :: "(string \<times> string) list"
  wHorizon :: Duration
  wStep :: Duration
  wInterval :: Duration
  wWindow :: Duration
  wModel :: string
  wTargetPerPod :: float64
  wHeadroom :: float64
  wQuantileLevel :: string
  wMinReplicas :: int
  wMaxReplicas :: int
  wUpMaxFactorPerStep :: float64
  wDownMaxPercentPerStep :: int
  wARIMA_P :: int
  wARIMA_D :: int
  wARIMA_Q :: int
  wSARIMA_P :: int
  wSARIMA_D :: int
  wSARIMA_Q :: int
  wSARIMA_SP :: int
  wSARIMA_SD :: int
  wSARIMA_SQ :: int
  wSARIMA_S :: int
  wBYOMURL :: string

text \<open>
  \<open>strconv.ParseInt\<close> with base 0, which the flag package uses for integers: a base prefix and
  underscores are allowed.
\<close>

fun baseDigits :: "int \<Rightarrow> int \<Rightarrow> string \<Rightarrow> int option" where
  "baseDigits base n [] = Some n"
| "baseDigits base n (c # cs) =
     (if c = CHR ''_'' then baseDigits base n cs
      else let d = (if isDigit c then digVal c
                    else if 97 \<le> lower_byte c \<and> lower_byte c \<le> 122 then lower_byte c - 87 else base)
           in if d \<ge> base then None else baseDigits base (n * base + d) cs)"

definition parseInt0 :: "string \<Rightarrow> (num_error, int) outcome" where
  "parseInt0 s =
     (case split_sign s of (neg, t) \<Rightarrow>
        if t = [] then Err ErrSyntax
        else let l = (if length t \<ge> 3 then lower_byte (t ! 1) else 0);
                 (base, ds) = (if hd t \<noteq> CHR ''0'' then (10, t)
                               else if l = 98 then (2, drop 2 t) else if l = 111 then (8, drop 2 t)
                               else if l = 120 then (16, drop 2 t) else (8, tl t))
             in case baseDigits base 0 ds of
                  None \<Rightarrow> Err ErrSyntax
                | Some n \<Rightarrow>
                    if list_ex (\<lambda>c. c = CHR ''_'') t \<and> \<not> underscoreOK t then Err ErrSyntax
                    else let v = (if neg then - n else n) in if int64 v then Ok v else Err ErrRange)"

text \<open>A flag's value: the text given for it, converted, or the default.\<close>

definition flagValue :: "(string \<Rightarrow> ('e, 'a) outcome) \<Rightarrow> (string \<Rightarrow> string option) \<Rightarrow> string \<Rightarrow> 'a \<Rightarrow> 'a" where
  "flagValue parse given name dflt =
     (case given name of None \<Rightarrow> dflt | Some t \<Rightarrow> (case parse t of Ok v \<Rightarrow> v | _ \<Rightarrow> dflt))"

definition flagsOk :: "(string \<Rightarrow> ('e, 'a) outcome) \<Rightarrow> (string \<Rightarrow> string option) \<Rightarrow> string list \<Rightarrow> bool" where
  "flagsOk parse given names =
     list_all (\<lambda>n. case given n of None \<Rightarrow> True | Some t \<Rightarrow> (case parse t of Ok _ \<Rightarrow> True | _ \<Rightarrow> False)) names"

definition okString :: "string \<Rightarrow> (num_error, string) outcome" where
  "okString s = Ok s"

datatype exit = Exit int

definition parseTLS :: "(string \<Rightarrow> string option) \<Rightarrow> string list \<Rightarrow> TLSFiles" where
  "parseTLS given environ =
     \<lparr>Enabled = flagValue parseBool given ''tls-enabled'' (getEnvBool environ ''TLS_ENABLED'' False),
      CertFile = flagValue okString given ''tls-cert-file'' (getEnv environ ''TLS_CERT_FILE'' []),
      KeyFile = flagValue okString given ''tls-key-file'' (getEnv environ ''TLS_KEY_FILE'' []),
      CAFile = flagValue okString given ''tls-ca-file'' (getEnv environ ''TLS_CA_FILE'' [])\<rparr>"

definition parseConfig :: "(float64 \<Rightarrow> int) \<Rightarrow> (string \<Rightarrow> string option) \<Rightarrow> string list \<Rightarrow> Config" where
  "parseConfig cv given environ =
     (let str = (\<lambda>name key d. flagValue okString given name (getEnv environ key d));
          int = (\<lambda>name key d. flagValue parseInt0 given name (getEnvInt environ key d));
          flt = (\<lambda>name key d. flagValue parseFloat given name (getEnvFloat environ key d));
          dur = (\<lambda>name key d. flagValue (durationx_Parse cv) given name (getEnvDuration cv environ key d))
      in \<lparr>cListen = str ''listen'' ''LISTEN'' '':8081'',
          cLogFormat = str ''log-format'' ''LOG_FORMAT'' ''text'',
          cLogLevel = str ''log-level'' ''LOG_LEVEL'' ''info'',
          cStorage = str ''storage'' ''STORAGE'' ''memory'',
          cRedisAddr = str ''redis-addr'' ''REDIS_ADDR'' ''localhost:6379'',
          cRedisPassword = str ''redis-password'' ''REDIS_PASSWORD'' [],
          cRedisDB = int ''redis-db'' ''REDIS_DB'' 0,
          cRedisTTL = dur ''redis-ttl'' ''REDIS_TTL'' (30 * Minute),
          cTLS = parseTLS given environ,
          cOperator = flagValue parseBool given ''operator'' (getEnvBool environ ''OPERATOR_MODE'' False),
          cScalerAddress = str ''scaler-address'' ''SCALER_ADDRESS'' [],
          cWorkload = str ''workload'' ''WORKLOAD'' [],
          cMetric = str ''metric'' ''METRIC'' [],
          cAdapter = str ''adapter'' ''ADAPTER'' [],
          cAdapterConfig = parseAdapterConfig environ,
          cHorizon = dur ''horizon'' ''HORIZON'' (30 * Minute),
          cStep = dur ''step'' ''STEP'' (1 * Minute),
          cTargetPerPod = flt ''target-per-pod'' ''TARGET_PER_POD'' (flit 100),
          cHeadroom = flt ''headroom'' ''HEADROOM'' (flit (12 / 10)),
          cQuantileLevel = str ''quantile-level'' ''QUANTILE_LEVEL'' ''0'',
          cMinReplicas = int ''min'' ''MIN_REPLICAS'' 1,
          cMaxReplicas = int ''max'' ''MAX_REPLICAS'' 100,
          cUpMaxFactorPerStep = flt ''up-max-factor'' ''UP_MAX_FACTOR'' (flit 2),
          cDownMaxPercentPerStep = int ''down-max-percent'' ''DOWN_MAX_PERCENT'' 50,
          cInterval = dur ''interval'' ''INTERVAL'' (30 * Second),
          cWindow = dur ''window'' ''WINDOW'' (30 * Minute),
          cModel = str ''model'' ''MODEL'' ''baseline'',
          cARIMA_P = int ''arima-p'' ''ARIMA_P'' 0,
          cARIMA_D = int ''arima-d'' ''ARIMA_D'' 0,
          cARIMA_Q = int ''arima-q'' ''ARIMA_Q'' 0,
          cSARIMA_P = int ''sarima-p'' ''SARIMA_P'' 0,
          cSARIMA_D = int ''sarima-d'' ''SARIMA_D'' 0,
          cSARIMA_Q = int ''sarima-q'' ''SARIMA_Q'' 0,
          cSARIMA_SP = int ''sarima-sp'' ''SARIMA_SP'' 1,
          cSARIMA_SD = int ''sarima-sd'' ''SARIMA_SD'' 1,
          cSARIMA_SQ = int ''sarima-sq'' ''SARIMA_SQ'' 1,
          cSARIMA_S = int ''sarima-s'' ''SARIMA_S'' 24,
          cBYOMURL = str ''byom-url'' ''BYOM_URL'' []\<rparr>)"

text \<open>\<open>ParseFlags\<close>: a flag that does not convert exits with code 2, a missing one with code 1.\<close>

definition ParseFlags :: "(float64 \<Rightarrow> int) \<Rightarrow> (string \<Rightarrow> string option) \<Rightarrow> string list \<Rightarrow> (exit, Config) outcome" where
  "ParseFlags cv given environ =
     (if \<not> (flagsOk parseBool given [''tls-enabled'', ''operator''] \<and>
            flagsOk parseFloat given [''target-per-pod'', ''headroom'', ''up-max-factor''] \<and>
            flagsOk (durationx_Parse cv) given [''redis-ttl'', ''horizon'', ''step'', ''interval'', ''window''] \<and>
            flagsOk parseInt0 given
              [''redis-db'', ''min'', ''max'', ''down-max-percent'', ''arima-p'', ''arima-d'', ''arima-q'',
               ''sarima-p'', ''sarima-d'', ''sarima-q'', ''sarima-sp'', ''sarima-sd'', ''sarima-sq'', ''sarima-s''])
      then Err (Exit 2)
      else let cfg = parseConfig cv given environ
           in if cOperator cfg then (if cScalerAddress cfg = [] then Err (Exit 1) else Ok cfg)
              else if cWorkload cfg = [] \<or> cMetric cfg = [] \<or> cAdapter cfg = [] then Err (Exit 1)
              else Ok cfg)"

section \<open>Validation of a workload\<close>

datatype workload_error =
    EmptyName | InvalidName string | EmptyMetric string | EmptyAdapter string
  | HorizonNotPositive string | StepNotPositive string | StepExceedsHorizon string Duration Duration
  | NegativeMin string | MaxBelowMin string int int | TargetNotPositive string
  | DownPercentRange string | InvalidModel string string | MissingBYOMURL string

definition guard_err :: "bool \<Rightarrow> 'e \<Rightarrow> ('e, 'a) outcome \<Rightarrow> ('e, 'a) outcome" where
  "guard_err c e k = (if c then Err e else k)"

text \<open>
  \<open>validateWorkload\<close>: the checks and the defaults in the order of the code. The code writes the defaults
  through its pointer; both callers drop the workload when an error is returned.
\<close>

definition validateWorkload :: "WorkloadConfig \<Rightarrow> (workload_error, WorkloadConfig) outcome" where
  "validateWorkload w =
     (let n = wName w in
      guard_err (n = []) EmptyName (
      guard_err (\<not> workloadNameMatch n) (InvalidName n) (
      guard_err (wMetric w = []) (EmptyMetric n) (
      guard_err (wAdapter w = []) (EmptyAdapter n) (
      guard_err (wHorizon w \<le> 0) (HorizonNotPositive n) (
      guard_err (wStep w \<le> 0) (StepNotPositive n) (
      guard_err (wStep w > wHorizon w) (StepExceedsHorizon n (wStep w) (wHorizon w)) (
      let w = w\<lparr>wInterval := if wInterval w \<le> 0 then 30 * Second else wInterval w\<rparr>;
          w = w\<lparr>wWindow := if wWindow w \<le> 0 then 30 * Minute else wWindow w\<rparr> in
      guard_err (wMinReplicas w < 0) (NegativeMin n) (
      guard_err (wMaxReplicas w < wMinReplicas w) (MaxBelowMin n (wMaxReplicas w) (wMinReplicas w)) (
      let w = w\<lparr>wMaxReplicas := if wMaxReplicas w = 0 then 100 else wMaxReplicas w\<rparr> in
      guard_err (wTargetPerPod w \<le> 0) (TargetNotPositive n) (
      let w = w\<lparr>wHeadroom := if wHeadroom w \<le> 0 then 1 else wHeadroom w\<rparr>;
          w = w\<lparr>wUpMaxFactorPerStep := if wUpMaxFactorPerStep w \<le> 0 then flit 2 else wUpMaxFactorPerStep w\<rparr> in
      guard_err (wDownMaxPercentPerStep w < 0 \<or> wDownMaxPercentPerStep w > 100) (DownPercentRange n) (
      let w = w\<lparr>wModel := if wModel w = [] then ''baseline'' else wModel w\<rparr> in
      guard_err (wModel w \<noteq> ''baseline'' \<and> wModel w \<noteq> ''arima'' \<and> wModel w \<noteq> ''sarima'' \<and> wModel w \<noteq> ''byom'')
        (InvalidModel n (wModel w)) (
      guard_err (wModel w = ''byom'' \<and> wBYOMURL w = []) (MissingBYOMURL n) (
      Ok w))))))))))))))"

definition ValidateWorkload :: "WorkloadConfig \<Rightarrow> (workload_error, WorkloadConfig) outcome" where
  "ValidateWorkload w = validateWorkload w"

definition configWorkload :: "Config \<Rightarrow> WorkloadConfig" where
  "configWorkload cfg =
     \<lparr>wName = cWorkload cfg, wMetric = cMetric cfg, wAdapter = cAdapter cfg,
      wAdapterConfig = cAdapterConfig cfg, wHorizon = cHorizon cfg, wStep = cStep cfg,
      wInterval = cInterval cfg, wWindow = cWindow cfg, wModel = cModel cfg,
      wTargetPerPod = cTargetPerPod cfg, wHeadroom = cHeadroom cfg, wQuantileLevel = cQuantileLevel cfg,
      wMinReplicas = cMinReplicas cfg, wMaxReplicas = cMaxReplicas cfg,
      wUpMaxFactorPerStep = cUpMaxFactorPerStep cfg, wDownMaxPercentPerStep = cDownMaxPercentPerStep cfg,
      wARIMA_P = cARIMA_P cfg, wARIMA_D = cARIMA_D cfg, wARIMA_Q = cARIMA_Q cfg,
      wSARIMA_P = cSARIMA_P cfg, wSARIMA_D = cSARIMA_D cfg, wSARIMA_Q = cSARIMA_Q cfg,
      wSARIMA_SP = cSARIMA_SP cfg, wSARIMA_SD = cSARIMA_SD cfg, wSARIMA_SQ = cSARIMA_SQ cfg,
      wSARIMA_S = cSARIMA_S cfg, wBYOMURL = cBYOMURL cfg\<rparr>"

definition LoadWorkloads :: "Config \<Rightarrow> (workload_error, WorkloadConfig list) outcome" where
  "LoadWorkloads cfg = bind_outcome (validateWorkload (configWorkload cfg)) (\<lambda>w. Ok [w])"

section \<open>The scaler's configuration\<close>

record ScalerConfig =
  scListen :: string
  scForecasterURL :: string
  scLeadTime :: Duration
  scLogFormat :: string
  scLogLevel :: string
  scTLS :: TLSFiles

definition scaler_ParseFlags ::
  "(float64 \<Rightarrow> int) \<Rightarrow> (string \<Rightarrow> string option) \<Rightarrow> string list \<Rightarrow> (exit, ScalerConfig) outcome" where
  "scaler_ParseFlags cv given environ =
     (if \<not> (flagsOk parseBool given [''tls-enabled''] \<and> flagsOk (durationx_Parse cv) given [''lead-time''])
      then Err (Exit 2)
      else let str = (\<lambda>name key d. flagValue okString given name (getEnv environ key d));
               cfg = \<lparr>scListen = str ''listen'' ''SCALER_LISTEN'' '':50051'',
                      scForecasterURL = str ''forecaster-url'' ''FORECASTER_URL'' ''http://localhost:8081'',
                      scLeadTime = flagValue (durationx_Parse cv) given ''lead-time''
                                     (getEnvDuration cv environ ''LEAD_TIME'' (5 * Minute)),
                      scLogFormat = str ''log-format'' ''LOG_FORMAT'' ''text'',
                      scLogLevel = str ''log-level'' ''LOG_LEVEL'' ''info'',
                      scTLS = parseTLS given environ\<rparr>
           in if scForecasterURL cfg = [] then Err (Exit 1) else Ok cfg)"

section \<open>What a validated workload satisfies\<close>

definition valid_workload :: "WorkloadConfig \<Rightarrow> bool" where
  "valid_workload w \<longleftrightarrow>
     workloadNameMatch (wName w) \<and> wMetric w \<noteq> [] \<and> wAdapter w \<noteq> [] \<and>
     0 < wStep w \<and> wStep w \<le> wHorizon w \<and> 0 < wInterval w \<and> 0 < wWindow w \<and>
     0 \<le> wMinReplicas w \<and> wMinReplicas w \<le> wMaxReplicas w \<and> 0 < wMaxReplicas w \<and>
     \<not> wTargetPerPod w \<le> 0 \<and> \<not> wHeadroom w \<le> 0 \<and> \<not> wUpMaxFactorPerStep w \<le> 0 \<and>
     0 \<le> wDownMaxPercentPerStep w \<and> wDownMaxPercentPerStep w \<le> 100 \<and>
     wModel w \<in> {''baseline'', ''arima'', ''sarima'', ''byom''} \<and> (wModel w = ''byom'' \<longrightarrow> wBYOMURL w \<noteq> [])"

lemma guard_err_Ok [simp]: "guard_err c e k = Ok a \<longleftrightarrow> \<not> c \<and> k = Ok a"
  by (simp add: guard_err_def)

lemma guard_err_False [simp]: "\<not> c \<Longrightarrow> guard_err c e k = k"
  by (simp add: guard_err_def)

lemma flit_2_pos: "\<not> rnd 2 \<le> Fin 0"
  using rnd_of_int[of 2] by simp

lemma validateWorkload_Ok:
  "validateWorkload w = Ok w' \<longleftrightarrow>
     workloadNameMatch (wName w) \<and> wMetric w \<noteq> [] \<and> wAdapter w \<noteq> [] \<and>
     0 < wHorizon w \<and> 0 < wStep w \<and> wStep w \<le> wHorizon w \<and>
     0 \<le> wMinReplicas w \<and> wMinReplicas w \<le> wMaxReplicas w \<and> \<not> wTargetPerPod w \<le> Fin 0 \<and>
     0 \<le> wDownMaxPercentPerStep w \<and> wDownMaxPercentPerStep w \<le> 100 \<and>
     wModel w \<in> {[], ''baseline'', ''arima'', ''sarima'', ''byom''} \<and> (wModel w = ''byom'' \<longrightarrow> wBYOMURL w \<noteq> []) \<and>
     w' = w\<lparr>wInterval := if wInterval w \<le> 0 then 30 * Second else wInterval w,
             wWindow := if wWindow w \<le> 0 then 30 * Minute else wWindow w,
             wMaxReplicas := if wMaxReplicas w = 0 then 100 else wMaxReplicas w,
             wHeadroom := if wHeadroom w \<le> Fin 0 then Fin 1 else wHeadroom w,
             wUpMaxFactorPerStep := if wUpMaxFactorPerStep w \<le> Fin 0 then flit 2 else wUpMaxFactorPerStep w,
             wModel := if wModel w = [] then ''baseline'' else wModel w\<rparr>"
  (is "_ \<longleftrightarrow> ?R")
proof -
  have n: "workloadNameMatch (wName w) \<Longrightarrow> wName w \<noteq> []" by (auto simp: workloadNameMatch_def)
  have m: "(wModel w = ''byom'' \<longrightarrow> wBYOMURL w \<noteq> []) \<longleftrightarrow>
      \<not> ((if wModel w = [] then ''baseline'' else wModel w) = ''byom'' \<and> wBYOMURL w = [])" by auto
  have m': "wModel w \<in> {[], ''baseline'', ''arima'', ''sarima'', ''byom''} \<longleftrightarrow>
      \<not> (let x = (if wModel w = [] then ''baseline'' else wModel w)
         in x \<noteq> ''baseline'' \<and> x \<noteq> ''arima'' \<and> x \<noteq> ''sarima'' \<and> x \<noteq> ''byom'')" by auto
  show ?thesis
    unfolding validateWorkload_def guard_err_Ok Let_def m m' not_le not_less
    using n by (simp add: not_le not_less eq_commute[of _ w'] conj_ac del: de_Morgan_conj) blast
qed

lemma validate_id: "valid_workload w \<Longrightarrow> validateWorkload w = Ok w"
  unfolding validateWorkload_Ok valid_workload_def by (auto intro!: WorkloadConfig.equality)

lemma validate_valid: "validateWorkload w = Ok w' \<Longrightarrow> valid_workload w'"
  unfolding validateWorkload_Ok valid_workload_def using flit_2_pos by (elim conjE) (simp, auto)

lemma validate_name: "validateWorkload w = Ok w' \<Longrightarrow> wName w' = wName w"
  unfolding validateWorkload_Ok by (elim conjE) simp

text \<open>
  C12: The validation of a workload establishes the workload invariant, keeps the name, is idempotent,
  and accepts without a change exactly the workloads that satisfy the invariant already.
\<close>

theorem validateWorkload_invariant:
  assumes "validateWorkload w = Ok w'"
  shows "valid_workload w' \<and> wName w' = wName w \<and> validateWorkload w' = Ok w' \<and>
         (w' = w \<longleftrightarrow> valid_workload w)"
  using assms validate_valid[OF assms] validate_name[OF assms] validate_id by auto

definition sample_flags :: "string \<Rightarrow> string option" where
  "sample_flags n =
     (if n = ''workload'' then Some ''web'' else if n = ''metric'' then Some ''rps''
      else if n = ''adapter'' then Some ''prometheus'' else if n = ''window'' then Some ''1w'' else None)"

definition sample_environ :: "string list" where
  "sample_environ =
     [''ADAPTER_QUERY=sum(rate(x))'', ''ADAPTER_VALUE_PATH=a=b'', ''STEP=90s'', ''UP_MAX_FACTOR=0'', ''MIN_REPLICAS=2x'']"

theorem validateWorkload_invariant_witness:
  "\<exists>w. LoadWorkloads (parseConfig amd64_cv sample_flags sample_environ) = Ok [w] \<and> valid_workload w \<and>
       wName w = ''web'' \<and> wMinReplicas w = 2 \<and> wWindow w = 168 * Hour \<and>
       wAdapterConfig w = [(''query'', ''sum(rate(x))''), (''valuePath'', ''a=b'')] \<and>
       validateWorkload w = Ok w"
proof -
  let ?w = "configWorkload (parseConfig amd64_cv sample_flags sample_environ)"
  have a: "(case validateWorkload ?w of Ok w \<Rightarrow> wName w = ''web'' \<and> wMinReplicas w = 2 \<and> wWindow w = 168 * Hour \<and>
       wAdapterConfig w = [(''query'', ''sum(rate(x))''), (''valuePath'', ''a=b'')] | _ \<Rightarrow> False)"
    by code_simp
  then obtain w where w: "validateWorkload ?w = Ok w" by (auto split: outcome.splits)
  then show ?thesis using validateWorkload_invariant[OF w] a by (auto simp: LoadWorkloads_def)
qed

end
