(* ===== verification/Models.thy ===== *)
theory Models
  imports Capacity
begin

text \<open>
  The interface of the forecasting models, \<open>src/pkg/models/model.go\<close>: feature frames, forecasts, and
  the contract of \<open>Train\<close> and \<open>Predict\<close> as a locale that every model of the development interprets.
\<close>

section \<open>Frames and forecasts\<close>

type_synonym feature_row = "(string \<times> float64) list"
type_synonym FeatureFrame = "feature_row list"

record Forecast =
  fMetric :: string
  fValues :: "float64 list"
  fStepSec :: int
  fHorizon :: int
  fQuantiles :: quantiles

datatype model_error =
    FeaturesEmpty
  | NoValueField
  | ModelCtx ctx_error
  | RowMissingValue nat
  | NotEnoughPoints int nat
  | NotTrained
  | ByomMarshal
  | ByomRequest
  | ByomDo
  | ByomStatus int
  | ByomDecode
  | ByomLength int int

text \<open>The values of the rows that have one.\<close>

definition frame_values :: "FeatureFrame \<Rightarrow> float64 list" where
  "frame_values rows = List.map_filter (\<lambda>row. map_of row ''value'') rows"

text \<open>Go's \<open>range\<close> over a map visits the entries in an unspecified order: an order for the size.\<close>

definition range_over :: "(nat \<Rightarrow> nat list) \<Rightarrow> 'a list \<Rightarrow> 'a list" where
  "range_over order xs = map (\<lambda>i. xs ! i) (filter (\<lambda>i. i < length xs) (order (length xs)))"

lemma set_range_over: "set (range_over order xs) \<subseteq> set xs"
  by (auto simp: range_over_def)

section \<open>Quantile levels\<close>

text \<open>The levels every model reports, each with its standard normal quantile.\<close>

definition quantileLevels :: "(float64 \<times> float64) list" where
  "quantileLevels = [(flit (50/100), flit 0), (flit (75/100), flit (674/1000)),
     (flit (90/100), flit (1282/1000)), (flit (95/100), flit (1645/1000))]"

lemma quantileLevels_eq:
  "quantileLevels = [(Fin (1/2), Fin 0), (Fin (3/4), rnd (674/1000)), (rnd (9/10), rnd (1282/1000)), (rnd (95/100), rnd (1645/1000))]"
  unfolding quantileLevels_def by code_simp

lemma quantileLevels_sorted:
  "sorted_wrt (\<lambda>(q, z) (q', z'). q < q' \<and> z \<le> z' \<and> finite64 z \<and> finite64 z' \<and> Fin 0 \<le> z) quantileLevels"
  unfolding quantileLevels_def by code_simp

section \<open>The contract\<close>

text \<open>A forecast value is acceptable unless it compares below zero (NaN does not).\<close>

definition not_negative :: "float64 \<Rightarrow> bool" where
  "not_negative v \<longleftrightarrow> \<not> v < 0"

lemma not_negative_add: "not_negative a \<Longrightarrow> not_negative b \<Longrightarrow> not_negative (a + b)"
  by (cases a; cases b) (auto simp: not_negative_def plus_float64_def not_less)

lemma not_negative_div_i2f:
  assumes "not_negative a" "0 < n"
  shows "not_negative (a / i2f n)"
proof -
  have "Fin 1 \<le> i2f n" using i2f_mono[of 1 n] assms(2) by simp
  then show ?thesis using assms(1)
    by (cases a; cases "i2f n") (auto simp: not_negative_def divide_float64_def finf_def sgn_if not_less)
qed

text \<open>The number of steps of a forecast: \<open>horizon / stepSec\<close>, at least one.\<close>

definition numSteps :: "int \<Rightarrow> int \<Rightarrow> int" where
  "numSteps horizon stepSec =
     (let n = wrap64 (horizon sdiv stepSec) in if n \<le> 0 then 1 else n)"

lemma numSteps_pos [simp]: "0 < numSteps horizon stepSec"
  by (simp add: numSteps_def Let_def)

definition quantiles_aligned :: "Forecast \<Rightarrow> bool" where
  "quantiles_aligned f \<longleftrightarrow> list_all (\<lambda>(q, vs). length vs = length (fValues f)) (gomap_list (fQuantiles f))"

text \<open>
  What \<open>Predict\<close> promises its caller: no value below zero, at least in the model states \<open>good\<close> (a
  model that extrapolates from its own training data needs data that make sense), and quantile series
  of the length of the point forecast.
\<close>

locale forecasting_model =
  fixes predict :: "'m \<Rightarrow> FeatureFrame \<Rightarrow> (model_error, Forecast) outcome"
    and good :: "'m \<Rightarrow> bool"
  assumes predict_nonneg: "good m \<Longrightarrow> predict m rows = Ok f \<Longrightarrow> list_all not_negative (fValues f)"
    and predict_quantiles: "predict m rows = Ok f \<Longrightarrow> quantiles_aligned f"
begin

text \<open>What the planner makes of a prediction: one count per value, within the bounds.\<close>

lemma plan_of_prediction:
  assumes "predict m rows = Ok f"
  shows "length (ToReplicas cv prev (fValues f) (fStepSec f) p (fQuantiles f)) = length (fValues f)"
    and "r \<in> set (ToReplicas cv prev (fValues f) (fStepSec f) p (fQuantiles f)) \<Longrightarrow> in_bounds (sanitize p) r"
proof -
  show "length (ToReplicas cv prev (fValues f) (fStepSec f) p (fQuantiles f)) = length (fValues f)" by simp
  assume "r \<in> set (ToReplicas cv prev (fValues f) (fStepSec f) p (fQuantiles f))"
  then show "in_bounds (sanitize p) r"
    using in_bounds_replicaLoop[OF policy_ok_sanitize]
    by (auto simp: ToReplicas_def Let_def simp del: sanitize_fields split: if_splits)
qed

text \<open>The planner uses the quantile of the policy whenever the model provides that level.\<close>

lemma quantile_used:
  assumes "predict m rows = Ok f" "map_of (gomap_list (fQuantiles f)) (QuantileLevel p) = Some vs"
    "QuantileLevel p > Fin 0"
  shows "useQuantile p (fQuantiles f) (fValues f)"
proof -
  have "length vs = length (fValues f)"
    using predict_quantiles[OF assms(1)] map_of_SomeD[OF assms(2)]
    by (auto simp: quantiles_aligned_def list_all_iff)
  moreover have "fQuantiles f \<noteq> None" using assms(2) by (cases "fQuantiles f") auto
  ultimately show ?thesis
    using assms(2,3) by (simp add: useQuantile_def quantileAt_def gomap_get_def)
qed

end

end
