(* ===== verification/Baseline.thy ===== *)
theory Baseline
  imports Models "HOL-Library.AList"
begin

text \<open>
  The baseline model of \<open>src/pkg/models/baseline.go\<close>: linear trend, momentum and two levels of
  seasonality. The regression is written once over any arithmetic, so that the same definition runs
  on floats and, with exact arithmetic, is proved to be the least-squares line.
\<close>

section \<open>Trend and momentum\<close>

text \<open>The running sums over the window; \<open>conv\<close> is the conversion \<open>float64(i)\<close>.\<close>

fun trendSums :: "(nat \<Rightarrow> 'a :: {plus, times}) \<Rightarrow> nat \<Rightarrow> 'a list \<Rightarrow> 'a \<times> 'a \<times> 'a \<times> 'a \<Rightarrow> 'a \<times> 'a \<times> 'a \<times> 'a" where
  "trendSums conv i [] acc = acc"
| "trendSums conv i (y # ys) (sumX, sumY, sumXY, sumX2) =
     (let x = conv i
      in trendSums conv (Suc i) ys (sumX + x, sumY + y, sumXY + x * y, sumX2 + x * x))"

definition trendWindow :: "'a list \<Rightarrow> 'a list" where
  "trendWindow values = drop (length values - min (length values) 10) values"

definition slopeOf :: "(nat \<Rightarrow> 'a :: {zero, plus, minus, times, inverse}) \<Rightarrow> 'a list \<Rightarrow> 'a option" where
  "slopeOf conv win =
     (case trendSums conv 0 win (0, 0, 0, 0) of (sumX, sumY, sumXY, sumX2) \<Rightarrow>
       (let n = conv (length win);
            denominator = n * sumX2 - sumX * sumX
        in if denominator = 0 then None else Some ((n * sumXY - sumX * sumY) / denominator)))"

definition detectTrend :: "(nat \<Rightarrow> 'a :: {zero, plus, minus, times, inverse}) \<Rightarrow> 'a \<Rightarrow> 'a list \<Rightarrow> 'a" where
  "detectTrend conv sixty values =
     (if length values < 2 then 0
      else case slopeOf conv (trendWindow values) of None \<Rightarrow> 0 | Some slope \<Rightarrow> slope / sixty)"

definition detectMomentum :: "(nat \<Rightarrow> 'a :: {zero, plus, minus, times, inverse}) \<Rightarrow> 'a \<Rightarrow> 'a list \<Rightarrow> 'a" where
  "detectMomentum conv sixty values =
     (if length values < 6 then 0
      else let mid = length values div 2;
               olderTrend = detectTrend conv sixty (take mid values);
               recentTrend = detectTrend conv sixty (drop mid values)
           in recentTrend - olderTrend)"

abbreviation trend64 :: "float64 list \<Rightarrow> float64" where
  "trend64 \<equiv> detectTrend (\<lambda>i. i2f (int i)) (flit 60)"

abbreviation momentum64 :: "float64 list \<Rightarrow> float64" where
  "momentum64 \<equiv> detectMomentum (\<lambda>i. i2f (int i)) (flit 60)"

section \<open>The model and its training\<close>

record seasonalPattern =
  pmean :: float64
  pmax :: float64
  pmin :: float64
  pcount :: int
  pstddev :: float64

record BaselineModel =
  bmetric :: string
  bstepSec :: int
  bhorizon :: int
  minuteSeasonality :: "(int \<times> seasonalPattern) list"
  hourSeasonality :: "(int \<times> seasonalPattern) list"
  residualStdDev :: float64

definition NewBaselineModel :: "string \<Rightarrow> int \<Rightarrow> int \<Rightarrow> BaselineModel" where
  "NewBaselineModel metric stepSec horizon =
     \<lparr>bmetric = metric, bstepSec = stepSec, bhorizon = horizon, minuteSeasonality = [],
      hourSeasonality = [], residualStdDev = 0\<rparr>"

definition computeSeasonalPattern :: "float64 list \<Rightarrow> seasonalPattern option" where
  "computeSeasonalPattern values =
     (if values = [] then None
      else let sum = foldl (+) 0 values;
               mn = foldl (\<lambda>m v. if v < m then v else m) (hd values) values;
               mx = foldl (\<lambda>m v. if v > m then v else m) (hd values) values;
               mean = sum / i2f (int (length values));
               variance = foldl (\<lambda>acc v. let diff = v - mean in acc + diff * diff) 0 values;
               stddev = (if length values > 1
                         then fsqrt (variance / i2f (int (length values) - 1)) else 0)
           in Some \<lparr>pmean = mean, pmax = mx, pmin = mn, pcount = int (length values), pstddev = stddev\<rparr>)"

text \<open>One row of the training loop adds its value to the bucket of a feature, if in range.\<close>

definition addToBucket ::
  "(float64 \<Rightarrow> int) \<Rightarrow> string \<Rightarrow> int \<Rightarrow> (int \<times> float64 list) list \<Rightarrow> feature_row \<Rightarrow> (int \<times> float64 list) list" where
  "addToBucket cv feature limit buckets row =
     (case map_of row ''value'' of
        None \<Rightarrow> buckets
      | Some value \<Rightarrow>
          (case map_of row feature of
             None \<Rightarrow> buckets
           | Some x \<Rightarrow>
               (let b = f2i cv x
                in if b \<ge> 0 \<and> b < limit
                   then AList.update b ((case map_of buckets b of Some vs \<Rightarrow> vs | None \<Rightarrow> []) @ [value]) buckets
                   else buckets)))"

definition learnPatterns ::
  "int \<Rightarrow> (int \<times> float64 list) list \<Rightarrow> (int \<times> seasonalPattern) list \<Rightarrow> (int \<times> seasonalPattern) list" where
  "learnPatterns limit buckets patterns =
     foldl (\<lambda>ps b. let values = (case map_of buckets b of Some vs \<Rightarrow> vs | None \<Rightarrow> [])
                   in if length values \<ge> 2
                      then (case computeSeasonalPattern values of
                              Some p \<Rightarrow> AList.update b p ps | None \<Rightarrow> ps)
                      else ps)
       patterns [0..limit - 1]"

text \<open>The sums of the positive deviations, in the iteration order of the map.\<close>

definition addDeviations :: "seasonalPattern list \<Rightarrow> float64 \<times> int \<Rightarrow> float64 \<times> int" where
  "addDeviations ps acc =
     foldl (\<lambda>(total, n) p. if pstddev p > 0 then (total + pstddev p, n + 1) else (total, n)) acc ps"

definition baseline_Train ::
  "(float64 \<Rightarrow> int) \<Rightarrow> (nat \<Rightarrow> nat \<Rightarrow> nat list) \<Rightarrow> FeatureFrame \<Rightarrow> BaselineModel \<Rightarrow> BaselineModel" where
  "baseline_Train cv order history m =
     (if history = [] then m
      else let minuteValues = foldl (addToBucket cv ''minute'' 60) [] history;
               hourValues = foldl (addToBucket cv ''hour'' 24) [] history;
               m = m\<lparr>minuteSeasonality := learnPatterns 60 minuteValues (minuteSeasonality m),
                     hourSeasonality := learnPatterns 24 hourValues (hourSeasonality m)\<rparr>;
               (total, n) = addDeviations (range_over (order 0) (map snd (minuteSeasonality m))) (0, 0);
               (total, n) = addDeviations (range_over (order 1) (map snd (hourSeasonality m))) (total, n)
           in if n > 0 then m\<lparr>residualStdDev := total / i2f n\<rparr>
              else let allValues = concat (range_over (order 2) (map snd minuteValues)) @
                                   concat (range_over (order 3) (map snd hourValues))
                   in case computeSeasonalPattern allValues of
                        Some p \<Rightarrow> m\<lparr>residualStdDev := pstddev p\<rparr>
                      | None \<Rightarrow> m)"

section \<open>Prediction\<close>

definition seasonalOf :: "float64 \<Rightarrow> seasonalPattern \<Rightarrow> float64" where
  "seasonalOf momentum p =
     (if momentum > 0 \<and> pmax p > pmean p
      then flit (7/10) * pmean p + flit (3/10) * pmax p else pmean p)"

definition seasonalLookup ::
  "int \<Rightarrow> int \<Rightarrow> int \<Rightarrow> float64 \<Rightarrow> (int \<times> seasonalPattern) list \<Rightarrow> float64 option" where
  "seasonalLookup current ahead cycle momentum patterns =
     (if current \<ge> 0 \<and> patterns \<noteq> []
      then map_option (seasonalOf momentum) (map_of patterns (wrap64 (current + ahead) smod cycle))
      else None)"

definition combine :: "float64 \<Rightarrow> float64 option \<Rightarrow> float64" where
  "combine base seasonal =
     (case seasonal of
        None \<Rightarrow> base
      | Some s \<Rightarrow>
          (let ratio = s / (base + 1)
           in if ratio > flit (15/10) then flit (2/10) * base + flit (8/10) * s
              else if ratio > flit (12/10) then flit (3/10) * base + flit (7/10) * s
              else if ratio < flit (8/10) then flit (4/10) * base + flit (6/10) * s
              else flit (5/10) * base + flit (5/10) * s))"

text \<open>The value of step \<open>i\<close> (from 0), clamped at zero.\<close>

definition baselineStep ::
  "BaselineModel \<Rightarrow> float64 \<Rightarrow> float64 \<Rightarrow> float64 \<Rightarrow> int \<Rightarrow> int \<Rightarrow> int \<Rightarrow> float64" where
  "baselineStep m currentValue trend momentum currentMinute currentHour i =
     (let secondsAhead = wrap64 ((i + 1) * bstepSec m);
          timeOffset = i2f secondsAhead;
          base = currentValue + trend * timeOffset +
                 flit (5/10) * momentum * timeOffset * timeOffset / flit 60;
          seasonal = (case seasonalLookup currentMinute (secondsAhead sdiv 60) 60 momentum (minuteSeasonality m) of
                        Some s \<Rightarrow> Some s
                      | None \<Rightarrow> seasonalLookup currentHour (secondsAhead sdiv 3600) 24 momentum (hourSeasonality m));
          finalValue = combine base seasonal
      in if finalValue < 0 then 0 else finalValue)"

definition residualQuantiles :: "float64 \<Rightarrow> float64 list \<Rightarrow> quantiles" where
  "residualQuantiles sd values =
     Some (if sd > 0
           then map (\<lambda>(q, z). (q, map (\<lambda>v. fmax 0 (v + z * sd)) values)) quantileLevels
           else [])"

definition baseline_Predict ::
  "(float64 \<Rightarrow> int) \<Rightarrow> BaselineModel \<Rightarrow> FeatureFrame \<Rightarrow> (model_error, Forecast) outcome" where
  "baseline_Predict cv m features =
     (if features = [] then Err FeaturesEmpty
      else let values = frame_values features
           in if values = [] then Err NoValueField
              else let currentValue = last values;
                       trend = trend64 values;
                       momentum = momentum64 values;
                       lastRow = last features;
                       currentMinute = (case map_of lastRow ''minute'' of Some x \<Rightarrow> f2i cv x | None \<Rightarrow> -1);
                       currentHour = (case map_of lastRow ''hour'' of Some x \<Rightarrow> f2i cv x | None \<Rightarrow> -1)
                   in if bstepSec m = 0 then Panic
                      else let forecastValues =
                                 map (baselineStep m currentValue trend momentum currentMinute currentHour)
                                   [0..numSteps (bhorizon m) (bstepSec m) - 1]
                           in Ok \<lparr>fMetric = bmetric m, fValues = forecastValues, fStepSec = bstepSec m,
                                  fHorizon = bhorizon m,
                                  fQuantiles = residualQuantiles (residualStdDev m) forecastValues\<rparr>)"

section \<open>The contract of the model interface\<close>

lemma baselineStep_not_negative: "not_negative (baselineStep m c t mo cm ch i)"
  by (simp add: baselineStep_def not_negative_def Let_def)

lemma baseline_Predict_Ok:
  assumes "baseline_Predict cv m rows = Ok f"
  shows "fValues f =
      map (baselineStep m (last (frame_values rows)) (trend64 (frame_values rows)) (momentum64 (frame_values rows))
             (case map_of (last rows) ''minute'' of Some x \<Rightarrow> f2i cv x | None \<Rightarrow> -1)
             (case map_of (last rows) ''hour'' of Some x \<Rightarrow> f2i cv x | None \<Rightarrow> -1))
        [0..numSteps (bhorizon m) (bstepSec m) - 1]"
    and "fQuantiles f = residualQuantiles (residualStdDev m) (fValues f)"
    and "fStepSec f = bstepSec m" "fHorizon f = bhorizon m" "bstepSec m \<noteq> 0"
  using assms by (auto simp: baseline_Predict_def Let_def simp del: map_eq_conv split: if_splits)

lemma length_residualQuantiles:
  "(q, vs) \<in> set (gomap_list (residualQuantiles sd values)) \<Longrightarrow> length vs = length values"
  by (auto simp: residualQuantiles_def split: if_splits)

interpretation baseline: forecasting_model "baseline_Predict cv" "\<lambda>_. True" for cv
proof unfold_locales
  fix m rows f
  assume ok: "baseline_Predict cv m rows = Ok f"
  show "list_all not_negative (fValues f)"
    using baseline_Predict_Ok(1)[OF ok] by (auto simp: list_all_iff baselineStep_not_negative)
  show "quantiles_aligned f"
    using baseline_Predict_Ok(2)[OF ok] length_residualQuantiles
    by (auto simp: quantiles_aligned_def list_all_iff)
qed

section \<open>Uncertainty bands\<close>

lemma band_mono:
  assumes "z \<le> z'" "finite64 z" "finite64 z'" "Fin 0 \<le> z" "Fin 0 < sd" "finite64 sd" "finite64 v"
  shows "fmax 0 (v + z * sd) \<le> fmax 0 (v + z' * sd)"
proof -
  have "z * sd \<le> z' * sd" using assms by (intro fmul_pos_mono)
  then have "v + z * sd \<le> v + z' * sd" using assms(7) by (rule fadd_mono_right)
  then show ?thesis unfolding zero_float64 by (rule fmax_mono)
qed

text \<open>The bands of a positive deviation: higher levels give pointwise higher bands.\<close>

lemma residualQuantiles_sorted:
  assumes "Fin 0 < sd" "finite64 sd" "list_all finite64 values"
  shows "sorted_wrt (\<lambda>(q, vs) (q', vs'). q < q' \<and> list_all2 (\<le>) vs vs') (gomap_list (residualQuantiles sd values))"
proof -
  have "sorted_wrt (\<lambda>(q, vs) (q', vs'). q < q' \<and> list_all2 (\<le>) vs vs')
      (map (\<lambda>(q, z). (q, map (\<lambda>v. fmax 0 (v + z * sd)) values)) quantileLevels)"
    using quantileLevels_sorted
  proof (rule sorted_wrt_map_impl)
    fix x y :: "float64 \<times> float64"
    assume "(\<lambda>(q, z) (q', z'). q < q' \<and> z \<le> z' \<and> finite64 z \<and> finite64 z' \<and> Fin 0 \<le> z) x y"
    then show "(\<lambda>(q, vs) (q', vs'). q < q' \<and> list_all2 (\<le>) vs vs')
        ((\<lambda>(q, z). (q, map (\<lambda>v. fmax 0 (v + z * sd)) values)) x)
        ((\<lambda>(q, z). (q, map (\<lambda>v. fmax 0 (v + z * sd)) values)) y)"
      using assms band_mono[of "snd x" "snd y" sd]
      by (cases x; cases y) (auto simp: list_all2_conv_all_nth list_all_iff)
  qed
  then show ?thesis using assms(1) by (simp add: residualQuantiles_def)
qed

section \<open>The trend is the least-squares line\<close>

text \<open>The squared error of a line over a window, with exact arithmetic.\<close>

definition sse :: "real \<Rightarrow> real \<Rightarrow> real list \<Rightarrow> real" where
  "sse a b w = (\<Sum>i<length w. (w ! i - (a + b * real i))\<^sup>2)"

lemma trendSums_sum:
  "trendSums real i w (sx, sy, sxy, sx2) =
     (sx + (\<Sum>k<length w. real (i + k)), sy + (\<Sum>k<length w. w ! k),
      sxy + (\<Sum>k<length w. real (i + k) * w ! k), sx2 + (\<Sum>k<length w. real (i + k) * real (i + k)))"
proof (induction w arbitrary: i sx sy sxy sx2)
  case (Cons y ys)
  then show ?case
    by (simp add: Let_def sum.lessThan_Suc_shift del: sum.lessThan_Suc of_nat_Suc of_nat_add)
qed simp

lemma sum_index: "2 * (\<Sum>i<n. real i) = real n * (real n - 1)"
  by (induction n) (simp_all add: algebra_simps)

lemma sum_index_sq: "6 * (\<Sum>i<n. real i * real i) = real n * (real n - 1) * (2 * real n - 1)"
  by (induction n) (simp_all add: algebra_simps)

lemma regression_denominator:
  assumes "2 \<le> n"
  shows "real n * (\<Sum>i<n. real i * real i) - (\<Sum>i<n. real i) * (\<Sum>i<n. real i) > 0"
proof -
  let ?s = "\<Sum>i<n. real i" and ?q = "\<Sum>i<n. real i * real i"
  have "12 * (real n * ?q - ?s * ?s) = 2 * real n * (6 * ?q) - 3 * (2 * ?s) * (2 * ?s)" by (simp add: algebra_simps)
  also have "\<dots> = real n * real n * ((real n - 1) * (real n + 1))"
    unfolding sum_index sum_index_sq by (simp add: algebra_simps)
  finally have "12 * (real n * ?q - ?s * ?s) = real n * real n * ((real n - 1) * (real n + 1))" .
  moreover have "0 < real n * real n * ((real n - 1) * (real n + 1))" using assms by simp
  ultimately have "0 < 12 * (real n * ?q - ?s * ?s)" by simp
  then show ?thesis by simp
qed

lemma normal_equations_minimise:
  assumes "(\<Sum>i<length w. w ! i - (a + b * real i)) = 0"
    and "(\<Sum>i<length w. real i * (w ! i - (a + b * real i))) = 0"
  shows "sse a b w \<le> sse a' b' w"
proof -
  let ?r = "\<lambda>i. w ! i - (a + b * real i)" and ?d = "\<lambda>i. (a - a') + (b - b') * real i"
  have "sse a' b' w = (\<Sum>i<length w. (?r i)\<^sup>2 + (2 * (a - a') * ?r i + 2 * (b - b') * (real i * ?r i)) + (?d i)\<^sup>2)"
    unfolding sse_def by (rule sum.cong) (simp_all add: power2_eq_square algebra_simps)
  also have "\<dots> = sse a b w + (2 * (a - a') * (\<Sum>i<length w. ?r i) + 2 * (b - b') * (\<Sum>i<length w. real i * ?r i))
      + (\<Sum>i<length w. (?d i)\<^sup>2)"
    by (simp only: sse_def sum.distrib sum_distrib_left)
  also have "\<dots> = sse a b w + (\<Sum>i<length w. (?d i)\<^sup>2)" unfolding assms by simp
  finally show ?thesis by (simp add: sum_nonneg)
qed

lemma slopeOf_least_squares:
  assumes "2 \<le> length w" "slopeOf real w = Some b"
  shows "\<exists>a. \<forall>a' b'. sse a b w \<le> sse a' b' w"
proof -
  let ?n = "real (length w)"
  let ?sx = "\<Sum>i<length w. real i" and ?sy = "\<Sum>i<length w. w ! i"
  let ?sxy = "\<Sum>i<length w. real i * w ! i" and ?sxx = "\<Sum>i<length w. real i * real i"
  define a where "a = (?sy - b * ?sx) / ?n"
  have D: "?n * ?sxx - ?sx * ?sx > 0" using regression_denominator[OF assms(1)] .
  have b: "b * (?n * ?sxx - ?sx * ?sx) = ?n * ?sxy - ?sx * ?sy"
    using assms(2) D unfolding slopeOf_def trendSums_sum by (auto simp: Let_def split: if_splits)
  have n: "?n > 0" using assms(1) by (cases w) simp_all
  have a: "?n * a = ?sy - b * ?sx" using n by (simp add: a_def)
  have "(\<Sum>i<length w. w ! i - (a + b * real i)) = ?sy - (?n * a + b * ?sx)"
    by (simp add: sum_subtractf sum.distrib sum_distrib_left)
  then have e1: "(\<Sum>i<length w. w ! i - (a + b * real i)) = 0" using a by simp
  have "(\<Sum>i<length w. real i * (w ! i - (a + b * real i))) = ?sxy - (a * ?sx + b * ?sxx)"
    by (simp add: algebra_simps sum_subtractf sum.distrib sum_distrib_left)
  moreover have "?n * (?sxy - (a * ?sx + b * ?sxx)) = 0"
  proof -
    have "?n * (?sxy - (a * ?sx + b * ?sxx)) = ?n * ?sxy - ((?n * a) * ?sx + b * (?n * ?sxx))"
      by (simp add: algebra_simps)
    also have "\<dots> = ?n * ?sxy - ?sx * ?sy - b * (?n * ?sxx - ?sx * ?sx)"
      unfolding a by (simp add: algebra_simps)
    also have "\<dots> = 0" unfolding b by simp
    finally show ?thesis .
  qed
  ultimately have e2: "(\<Sum>i<length w. real i * (w ! i - (a + b * real i))) = 0" using n by simp
  show ?thesis using normal_equations_minimise[OF e1 e2] by blast
qed

lemma slopeOf_total: "2 \<le> length w \<Longrightarrow> \<exists>b. slopeOf real w = Some b"
  using regression_denominator[of "length w"] unfolding slopeOf_def trendSums_sum by (auto simp: Let_def)

lemma length_trendWindow: "length (trendWindow values) = min (length values) 10"
  by (simp add: trendWindow_def)

section \<open>Learned patterns\<close>

definition pattern_ok :: "seasonalPattern \<Rightarrow> bool" where
  "pattern_ok p \<longleftrightarrow> 2 \<le> pcount p \<and> \<not> pmax p < pmin p \<and> not_negative (pstddev p)"

definition patterns_ok :: "int \<Rightarrow> (int \<times> seasonalPattern) list \<Rightarrow> bool" where
  "patterns_ok limit ps \<longleftrightarrow>
     distinct (map fst ps) \<and> list_all (\<lambda>(b, p). 0 \<le> b \<and> b < limit \<and> pattern_ok p) ps"

definition baseline_inv :: "BaselineModel \<Rightarrow> bool" where
  "baseline_inv m \<longleftrightarrow>
     patterns_ok 60 (minuteSeasonality m) \<and> patterns_ok 24 (hourSeasonality m) \<and>
     not_negative (residualStdDev m)"

lemma foldl_min_le: "foldl (\<lambda>m v. if v < m then v else m) (a::float64) xs = a \<or>
    foldl (\<lambda>m v. if v < m then v else m) a xs < a"
proof (induction xs arbitrary: a)
  case (Cons x xs)
  show ?case
  proof (cases "x < a")
    case True
    then show ?thesis using Cons[of x] float64_less_imp_le[OF True]
      by (auto intro: float64_less_le_trans)
  qed (use Cons[of a] in simp)
qed simp

lemma foldl_max_ge: "foldl (\<lambda>m v. if v > m then v else m) (a::float64) xs = a \<or>
    a < foldl (\<lambda>m v. if v > m then v else m) a xs"
proof (induction xs arbitrary: a)
  case (Cons x xs)
  show ?case
  proof (cases "a < x")
    case True
    then show ?thesis using Cons[of x] float64_less_imp_le[OF True]
      by (auto intro: float64_le_less_trans)
  qed (use Cons[of a] in simp)
qed simp

lemma computeSeasonalPattern_ok:
  assumes "computeSeasonalPattern values = Some p"
  shows "\<not> pmax p < pmin p" "not_negative (pstddev p)" "pcount p = int (length values)"
proof -
  let ?mn = "foldl (\<lambda>m v. if v < m then v else m) (hd values) values"
  let ?mx = "foldl (\<lambda>m v. if v > m then v else m) (hd values) values"
  have p: "pmax p = ?mx" "pmin p = ?mn" and len: "pcount p = int (length values)"
    and sd: "pstddev p = 0 \<or> (\<exists>x. pstddev p = fsqrt x)"
    using assms by (auto simp: computeSeasonalPattern_def Let_def split: if_splits)
  show "\<not> pmax p < pmin p" unfolding p
    using foldl_min_le[of "hd values" "values"] foldl_max_ge[of "hd values" "values"]
    by (cases ?mn; cases ?mx; cases "hd values") auto
  show "pcount p = int (length values)" by (rule len)
  show "not_negative (pstddev p)" using sd fsqrt_not_neg by (auto simp: not_negative_def)
qed

lemma patterns_ok_update:
  assumes "patterns_ok limit ps" "0 \<le> b" "b < limit" "pattern_ok p"
  shows "patterns_ok limit (AList.update b p ps)"
proof -
  have "set (AList.update b p ps) \<subseteq> insert (b, p) (set ps)" by (induction ps) auto
  then show ?thesis using assms by (auto simp: patterns_ok_def list_all_iff distinct_update)
qed

lemma patterns_ok_learn:
  assumes "patterns_ok limit ps"
  shows "patterns_ok limit (learnPatterns limit buckets ps)"
  unfolding learnPatterns_def
proof (rule foldl_invariant[where P = "patterns_ok limit"])
  fix ps' b
  assume I: "patterns_ok limit ps'" and b: "b \<in> set [0..limit - 1]"
  let ?vals = "case map_of buckets b of Some vs \<Rightarrow> vs | None \<Rightarrow> []"
  show "patterns_ok limit
      (let values = ?vals
       in if length values \<ge> 2
          then (case computeSeasonalPattern values of Some p \<Rightarrow> AList.update b p ps' | None \<Rightarrow> ps') else ps')"
  proof (cases "length ?vals \<ge> 2 \<and> computeSeasonalPattern ?vals \<noteq> None")
    case True
    then obtain p where p: "computeSeasonalPattern ?vals = Some p" by auto
    have "pattern_ok p" using computeSeasonalPattern_ok[OF p] True by (simp add: pattern_ok_def)
    then show ?thesis using I b True p by (simp add: Let_def patterns_ok_update)
  qed (use I in \<open>auto simp: Let_def\<close>)
qed (rule assms)

lemma not_negative_pos: "Fin 0 < x \<Longrightarrow> not_negative x"
  by (cases x) (auto simp: not_negative_def)

lemma addDeviations_ok:
  assumes "not_negative (fst acc)" "0 \<le> snd acc"
  shows "not_negative (fst (addDeviations ps acc)) \<and> 0 \<le> snd (addDeviations ps acc)"
  unfolding addDeviations_def
  by (rule foldl_invariant[where P = "\<lambda>acc. not_negative (fst acc) \<and> 0 \<le> snd acc"])
    (use assms in \<open>auto split: prod.splits intro!: not_negative_add dest: not_negative_pos\<close>)

lemma baseline_inv_Train:
  assumes "baseline_inv m"
  shows "baseline_inv (baseline_Train cv order history m)"
proof -
  define mv where "mv = foldl (addToBucket cv ''minute'' 60) [] history"
  define hv where "hv = foldl (addToBucket cv ''hour'' 24) [] history"
  define m' where "m' = m\<lparr>minuteSeasonality := learnPatterns 60 mv (minuteSeasonality m),
      hourSeasonality := learnPatterns 24 hv (hourSeasonality m)\<rparr>"
  define d1 where "d1 = addDeviations (range_over (order 0) (map snd (minuteSeasonality m'))) (0, 0)"
  define d2 where "d2 = addDeviations (range_over (order 1) (map snd (hourSeasonality m'))) d1"
  have m': "baseline_inv m'"
    using assms patterns_ok_learn by (simp add: m'_def baseline_inv_def)
  have "not_negative (fst d1) \<and> 0 \<le> snd d1"
    unfolding d1_def by (rule addDeviations_ok) (simp_all add: not_negative_def)
  then have d2: "not_negative (fst d2) \<and> 0 \<le> snd d2" unfolding d2_def by (intro addDeviations_ok) auto
  have train: "baseline_Train cv order history m =
      (if history = [] then m
       else if snd d2 > 0 then m'\<lparr>residualStdDev := fst d2 / i2f (snd d2)\<rparr>
       else case computeSeasonalPattern (concat (range_over (order 2) (map snd mv)) @
              concat (range_over (order 3) (map snd hv))) of
            Some p \<Rightarrow> m'\<lparr>residualStdDev := pstddev p\<rparr> | None \<Rightarrow> m')"
    unfolding baseline_Train_def mv_def[symmetric] hv_def[symmetric] Let_def m'_def[symmetric]
      d1_def[symmetric] by (simp add: case_prod_unfold d2_def)
  show ?thesis
    using assms m' d2 not_negative_div_i2f[of "fst d2" "snd d2"] computeSeasonalPattern_ok(2)
    unfolding train by (auto simp: baseline_inv_def split: option.split)
qed

section \<open>Properties of the baseline model\<close>

text \<open>
  When \<open>Predict\<close> succeeds and what it returns. It succeeds exactly on a non-empty frame that has a
  value, for a non-zero step (a zero step divides by zero and panics); the forecast then has
  \<open>max 1 (horizon / step)\<close> values, none of them negative, and every quantile series has that length.
\<close>

lemma baseline_Predict_total:
  "(case baseline_Predict cv m rows of
      Ok f \<Rightarrow> rows \<noteq> [] \<and> frame_values rows \<noteq> [] \<and> bstepSec m \<noteq> 0 \<and>
              int (length (fValues f)) = numSteps (bhorizon m) (bstepSec m) \<and>
              list_all not_negative (fValues f) \<and> quantiles_aligned f
    | Err e \<Rightarrow> rows = [] \<and> e = FeaturesEmpty \<or> rows \<noteq> [] \<and> frame_values rows = [] \<and> e = NoValueField
    | Panic \<Rightarrow> frame_values rows \<noteq> [] \<and> bstepSec m = 0)"
proof (cases "baseline_Predict cv m rows")
  case (Ok f)
  have "int (length (fValues f)) = numSteps (bhorizon m) (bstepSec m)"
    using baseline_Predict_Ok(1)[OF Ok] less_imp_le[OF numSteps_pos[of "bhorizon m" "bstepSec m"]] by simp
  then show ?thesis
    using Ok baseline.predict_nonneg[OF TrueI Ok] baseline.predict_quantiles[OF Ok] baseline_Predict_Ok(5)[OF Ok]
    by (auto simp: baseline_Predict_def Let_def split: if_splits)
qed (auto simp: baseline_Predict_def Let_def split: if_splits)

text \<open>
  The uncertainty bands are ordered. When training found a positive, finite deviation and the
  forecast values are finite, the quantile series come in increasing levels and each is pointwise at
  least the one before: planning for a higher quantile never sees less load.
\<close>

lemma baseline_bands_ordered:
  assumes "baseline_Predict cv m rows = Ok f" "Fin 0 < residualStdDev m" "finite64 (residualStdDev m)"
    "list_all finite64 (fValues f)"
  shows "sorted_wrt (\<lambda>(q, vs) (q', vs'). q < q' \<and> list_all2 (\<le>) vs vs') (gomap_list (fQuantiles f)) \<and>
         length (gomap_list (fQuantiles f)) = 4"
  using residualQuantiles_sorted[OF assms(2-4)] assms(2)
  unfolding baseline_Predict_Ok(2)[OF assms(1)]
  by (simp add: residualQuantiles_def quantileLevels_def)

text \<open>
  C22: the trend is the least-squares slope. On exact arithmetic, for a series of at least two values,
  sixty times the trend is the slope of a line over the last ten values (or all) whose squared error
  is minimal among all lines.
\<close>

theorem detectTrend_least_squares:
  fixes vs :: "real list"
  assumes "2 \<le> length vs"
  shows "\<exists>a. \<forall>a' b'. sse a (60 * detectTrend real 60 vs) (trendWindow vs) \<le> sse a' b' (trendWindow vs)"
proof -
  have w: "2 \<le> length (trendWindow vs)" using assms by (simp add: length_trendWindow)
  then obtain b where b: "slopeOf real (trendWindow vs) = Some b" using slopeOf_total by blast
  then have "60 * detectTrend real 60 vs = b" using assms by (simp add: detectTrend_def)
  then show ?thesis using slopeOf_least_squares[OF w b] by simp
qed

text \<open>
  C23: training keeps the model well formed. Whatever the history, every learned pattern belongs to a
  minute below 60 or an hour below 24, stands for at least two observations, has its minimum not above
  its maximum and a deviation that is not negative; the residual deviation is not negative either.
\<close>

theorem baseline_Train_invariant:
  "baseline_inv (foldl (\<lambda>m history. baseline_Train cv order history m) (NewBaselineModel metric step horizon) hs)"
  by (rule foldl_invariant[where P = baseline_inv])
    (simp_all add: baseline_inv_Train, simp add: baseline_inv_def NewBaselineModel_def patterns_ok_def not_negative_def)

section \<open>A concrete forecast\<close>

definition sample_history :: FeatureFrame where
  "sample_history = map (\<lambda>i. [(''value'', i2f (100 + 10 * i)), (''minute'', i2f i), (''hour'', i2f 3)]) [0..7]"

definition sample_baseline :: BaselineModel where
  "sample_baseline = (NewBaselineModel ''rps'' 60 180)\<lparr>residualStdDev := flit 8\<rparr>"

theorem detectTrend_least_squares_witness:
  "\<exists>a. \<forall>a' b'. sse a (60 * detectTrend real 60 [3, 5, 7, 9]) (trendWindow [3, 5, 7, 9]) \<le> sse a' b' (trendWindow [3, 5, 7, 9])"
  by (rule detectTrend_least_squares) simp

end
