(* ===== verification/Arima.thy ===== *)
theory Arima
  imports Baseline Strconv
begin

text \<open>
  The ARIMA model of \<open>src/pkg/models/arima.go\<close>: differencing, autocorrelation, the Levinson-Durbin
  recursion, training and prediction. The numerical routines are written once over any type with the
  field operations: the program runs them on \<open>float64\<close>, and the theorems that need exact arithmetic
  read them on the reals.
\<close>

section \<open>Numerical routines\<close>

function difference :: "'a :: minus list \<Rightarrow> int \<Rightarrow> 'a list" where
  "difference series d =
     (if d = 0 \<or> series = [] then series
      else let result = map2 (-) (tl series) series
           in if d > 1 then difference result (d - 1) else result)"
  by pat_completeness auto
termination
  by (relation "measure (\<lambda>(series, d). nat d)") auto

declare difference.simps [simp del]

definition computeMean :: "(nat \<Rightarrow> 'a :: {zero, plus, inverse}) \<Rightarrow> 'a list \<Rightarrow> 'a" where
  "computeMean conv series = (if series = [] then 0 else foldl (+) 0 series / conv (length series))"

definition computeVariance :: "(nat \<Rightarrow> 'a :: {zero, plus, minus, times, inverse}) \<Rightarrow> 'a list \<Rightarrow> 'a" where
  "computeVariance conv series =
     (if series = [] then 0
      else let mean = computeMean conv series
           in foldl (\<lambda>sumSq v. sumSq + (v - mean) * (v - mean)) 0 series / conv (length series))"

definition autocorr :: "(nat \<Rightarrow> 'a :: {zero, plus, minus, times, inverse}) \<Rightarrow> 'a list \<Rightarrow> int \<Rightarrow> 'a" where
  "autocorr conv series lag =
     (if lag < 0 \<or> lag \<ge> int (length series) then 0
      else let mean = computeMean conv series;
               c0 = foldl (\<lambda>c x. c + (x - mean) * (x - mean)) 0 series;
               ck = foldl (\<lambda>c (x, y). c + (x - mean) * (y - mean)) 0 (zip series (drop (nat lag) series))
           in if c0 = 0 then 0 else ck / c0)"

text \<open>
  The recursion keeps the row \<open>phi[k][1..k]\<close> of the source's triangular table (a list of length \<open>k\<close>)
  and the prediction variance.
\<close>

datatype ld_error = NumericalInstability | NegativeVariance

definition ldStep ::
  "'a :: {zero, one, plus, minus, times, inverse, ord} list \<Rightarrow> 'a list \<times> 'a \<Rightarrow> nat \<Rightarrow>
   (ld_error, 'a list \<times> 'a) outcome" where
  "ldStep acf s k =
     (let (row, v) = s;
          num = foldl (\<lambda>num j. num - row ! (j - 1) * acf ! (k - j)) (acf ! k) [1..<k]
      in if v = 0 then Err NumericalInstability
         else let r = num / v;
                  row' = map (\<lambda>j. row ! (j - 1) - r * row ! (k - j - 1)) [1..<k] @ [r];
                  v' = v * (1 - r * r)
              in if v' < 0 then Err NegativeVariance else Ok (row', v'))"

definition ldLoop ::
  "'a :: {zero, one, plus, minus, times, inverse, ord} list \<Rightarrow> nat \<Rightarrow> (ld_error, 'a list \<times> 'a) outcome" where
  "ldLoop acf p = foldl (\<lambda>s k. bind_outcome s (\<lambda>s. ldStep acf s k)) (Ok ([], acf ! 0)) [1..<p + 1]"

definition levinsonDurbin ::
  "'a :: {zero, one, plus, minus, times, inverse, ord} list \<Rightarrow> nat \<Rightarrow> (ld_error, 'a list) outcome" where
  "levinsonDurbin acf p =
     (if p = 0 then Ok [] else bind_outcome (ldLoop acf p) (\<lambda>(row, v). Ok row))"

text \<open>The program's instances convert a length by \<open>float64(n)\<close>.\<close>

abbreviation conv64 :: "nat \<Rightarrow> float64" where
  "conv64 \<equiv> \<lambda>n. i2f (int n)"

text \<open>\<open>fitAR\<close>; its error result is always nil.\<close>

definition fitAR :: "float64 list \<Rightarrow> nat \<Rightarrow> float64 list" where
  "fitAR centered p =
     (if p = 0 then []
      else if computeVariance conv64 centered < flit (1 / 10 ^ 10) then replicate p 0
      else case levinsonDurbin (map (\<lambda>k. autocorr conv64 centered (int k)) [0..<p + 1]) p of
             Ok coeffs \<Rightarrow> coeffs
           | _ \<Rightarrow> flit (5/10) # replicate (p - 1) 0)"

definition computeResiduals :: "'a :: {zero, plus, minus, times} list \<Rightarrow> 'a list \<Rightarrow> nat \<Rightarrow> 'a list" where
  "computeResiduals centered arCoeffs p =
     (if length centered \<le> p then []
      else map (\<lambda>t. centered ! t -
                 foldl (\<lambda>a i. a + arCoeffs ! i * centered ! (t - 1 - i)) 0 [0..<min p (length arCoeffs)])
             [p..<length centered])"

text \<open>The coefficients of magnitude above one are pulled back to 0.9.\<close>

definition shrink :: "float64 \<Rightarrow> float64" where
  "shrink c = (if fabs c > 1 then c / fabs c * flit (9/10) else c)"

definition fitMA :: "float64 list \<Rightarrow> nat \<Rightarrow> float64 list" where
  "fitMA residuals q =
     (if q = 0 \<or> residuals = [] then []
      else map (\<lambda>i. shrink (if i < length residuals then autocorr conv64 residuals (int i + 1) else 0)) [0..<q])"

section \<open>The model\<close>

record ARIMAModel =
  ametric :: string
  astepSec :: int
  ahorizonSec :: int
  ap :: int
  ad :: int
  aq :: int
  atrained :: bool
  arCoeffs :: "float64 list"
  maCoeffs :: "float64 list"
  amean :: float64
  lastValues :: "float64 list"
  lastErrors :: "float64 list"
  aresidualStdDev :: float64

definition NewARIMAModel ::
  "string \<Rightarrow> int \<Rightarrow> int \<Rightarrow> int \<Rightarrow> int \<Rightarrow> int \<Rightarrow> (model_error, ARIMAModel) outcome" where
  "NewARIMAModel metric stepSec horizonSec p d q =
     (if metric = [] then Panic
      else if stepSec \<le> 0 then Panic
      else if horizonSec < stepSec then Panic
      else if d < 0 \<or> d > 2 then Panic
      else if p < 0 then Panic
      else if q < 0 then Panic
      else Ok \<lparr>ametric = metric, astepSec = stepSec, ahorizonSec = horizonSec,
               ap = (if p = 0 then 1 else p), ad = (if d = 0 then 1 else d), aq = (if q = 0 then 1 else q),
               atrained = False, arCoeffs = [], maCoeffs = [], amean = 0, lastValues = [], lastErrors = [],
               aresidualStdDev = 0\<rparr>)"

definition arima_Name :: "ARIMAModel \<Rightarrow> string" where
  "arima_Name m = ''arima('' @ itoa (ap m) @ '','' @ itoa (ad m) @ '','' @ itoa (aq m) @ '')''"

section \<open>Training\<close>

fun rowValues :: "nat \<Rightarrow> FeatureFrame \<Rightarrow> (model_error, float64 list) outcome" where
  "rowValues i [] = Ok []"
| "rowValues i (row # rows) =
     (case map_of row ''value'' of
        None \<Rightarrow> Err (RowMissingValue i)
      | Some v \<Rightarrow> bind_outcome (rowValues (i + 1) rows) (\<lambda>vs. Ok (v # vs)))"

definition residualDeviation :: "float64 list \<Rightarrow> float64" where
  "residualDeviation residuals =
     (if length residuals > 1
      then fsqrt (foldl (\<lambda>sumSq r. sumSq + r * r) 0 residuals / i2f (int (length residuals) - 1))
      else 0)"

definition lastN :: "nat \<Rightarrow> 'a list \<Rightarrow> 'a list" where
  "lastN n xs = drop (length xs - n) xs"

definition centre :: "float64 list \<Rightarrow> float64 list" where
  "centre stationary = map (\<lambda>v. v - computeMean conv64 stationary) stationary"

definition minPoints :: "ARIMAModel \<Rightarrow> int" where
  "minPoints m = max (max (wrap64 (ap m + ad m)) (wrap64 (aq m + ad m))) 10"

definition arima_Train :: "ctx \<Rightarrow> FeatureFrame \<Rightarrow> ARIMAModel \<Rightarrow> (model_error, ARIMAModel) outcome" where
  "arima_Train ctx history m =
     (case ctx of
        Some e \<Rightarrow> Err (ModelCtx e)
      | None \<Rightarrow>
          bind_outcome (rowValues 0 history) (\<lambda>vs.
            if int (length vs) < minPoints m then Err (NotEnoughPoints (minPoints m) (length vs))
            else let stationary = difference vs (ad m);
                     centered = centre stationary;
                     ar = fitAR centered (nat (ap m));
                     residuals = computeResiduals centered ar (nat (ap m));
                     ma = fitMA residuals (nat (aq m))
                 in if int (length vs) < ap m then Panic
                    else Ok (m\<lparr>atrained := True, arCoeffs := ar, maCoeffs := ma,
                               amean := computeMean conv64 stationary,
                               lastValues := lastN (nat (ap m)) vs,
                               lastErrors := (if int (length residuals) \<ge> aq m then lastN (nat (aq m)) residuals
                                              else replicate (nat (aq m)) 0),
                               aresidualStdDev := residualDeviation residuals\<rparr>)))"

section \<open>Prediction\<close>

text \<open>
  The weighted sum of the most recent values, newest first; \<open>None\<close> stands for the index-out-of-range
  panic when there are fewer coefficients than values to weigh.
\<close>

definition dotRecent :: "float64 list \<Rightarrow> float64 list \<Rightarrow> nat \<Rightarrow> float64 option" where
  "dotRecent cs xs n =
     (let k = min n (length xs)
      in if k \<le> length cs
         then Some (foldl (\<lambda>a i. a + cs ! i * xs ! (length xs - 1 - i)) 0 [0..<k]) else None)"

definition clampPrediction :: "float64 \<Rightarrow> float64 \<Rightarrow> float64" where
  "clampPrediction base pred =
     (let pred = (if pred < 0 then 0 else pred);
          pred = (if pred > base * flit 2 + flit 100 then base * flit 2 + flit 100 else pred)
      in if pred > flit (10 ^ 9) then flit (10 ^ 9) else pred)"

definition dampingFactor :: "nat \<Rightarrow> float64" where
  "dampingFactor t = 1 / (1 + conv64 t * flit (1/10))"

definition damped :: "float64 \<Rightarrow> float64 \<Rightarrow> nat \<Rightarrow> float64" where
  "damped base pred t = pred * dampingFactor t + base * (1 - dampingFactor t)"

text \<open>The loop over the steps: the prediction of step \<open>t\<close> may read the earlier ones.\<close>

definition forecastLoop :: "(float64 list \<Rightarrow> nat \<Rightarrow> float64) \<Rightarrow> float64 \<Rightarrow> nat \<Rightarrow> float64 list" where
  "forecastLoop step first n = foldl (\<lambda>ps t. ps @ [step ps t]) [first] [1..<n]"

definition horizonFactor :: "nat \<Rightarrow> float64" where
  "horizonFactor i = fsqrt (1 + conv64 i * flit (1/10))"

definition horizonQuantiles :: "float64 \<Rightarrow> float64 list \<Rightarrow> quantiles" where
  "horizonQuantiles sd predictions =
     Some (if sd > 0
           then map (\<lambda>(q, z). (q, map (\<lambda>(i, v). fmax 0 (v + z * sd * horizonFactor i)) (enumerate 0 predictions)))
                  quantileLevels
           else [])"

definition baseValue :: "float64 list \<Rightarrow> float64" where
  "baseValue vs = (if vs = [] then 0 else last vs)"

definition arimaStep :: "float64 \<Rightarrow> float64 list \<Rightarrow> nat \<Rightarrow> float64" where
  "arimaStep base ps t =
     clampPrediction base (damped base (base * flit (9/10) + last ps * flit (1/10)) t)"

definition arima_Predict :: "ctx \<Rightarrow> ARIMAModel \<Rightarrow> FeatureFrame \<Rightarrow> (model_error, Forecast) outcome" where
  "arima_Predict ctx m features =
     (case ctx of
        Some e \<Rightarrow> Err (ModelCtx e)
      | None \<Rightarrow>
          if \<not> atrained m then Err NotTrained
          else if astepSec m = 0 then Panic
          else let base = baseValue (lastValues m)
               in case (dotRecent (arCoeffs m) (lastValues m) (nat (ap m)),
                        dotRecent (maCoeffs m) (lastErrors m) (nat (aq m))) of
                    (Some arPred, Some maPred) \<Rightarrow>
                      let predictions =
                            forecastLoop (arimaStep base)
                              (clampPrediction base (base + (arPred + maPred) * flit (1/10)))
                              (nat (numSteps (ahorizonSec m) (astepSec m)))
                      in Ok \<lparr>fMetric = ametric m, fValues = predictions, fStepSec = astepSec m,
                             fHorizon = ahorizonSec m,
                             fQuantiles = horizonQuantiles (aresidualStdDev m) predictions\<rparr>
                  | _ \<Rightarrow> Panic)"

section \<open>The Levinson-Durbin recursion solves the Yule-Walker equations\<close>

text \<open>The distance of two indices, and the equations a row of \<open>k\<close> coefficients should solve.\<close>

definition gap :: "nat \<Rightarrow> nat \<Rightarrow> nat" where
  "gap i j = (i - j) + (j - i)"

definition yule_walker :: "(nat \<Rightarrow> real) \<Rightarrow> nat \<Rightarrow> (nat \<Rightarrow> real) \<Rightarrow> bool" where
  "yule_walker r k a \<longleftrightarrow> (\<forall>m \<in> {1..k}. (\<Sum>j = 1..k. a j * r (gap m j)) = r m)"

lemma sum_reflect: "(\<Sum>j = 1..k. g (Suc k - j)) = (\<Sum>j = 1..k. g j)" for g :: "nat \<Rightarrow> real"
  by (rule sum.reindex_bij_witness[of _ "\<lambda>j. Suc k - j" "\<lambda>j. Suc k - j"]) auto

lemma yule_walker_extend:
  fixes r a :: "nat \<Rightarrow> real"
  assumes yw: "yule_walker r k a" and v: "v = r 0 - (\<Sum>j = 1..k. a j * r j)" "v \<noteq> 0"
    and num: "num = r (Suc k) - (\<Sum>j = 1..k. a j * r (Suc k - j))"
    and a': "\<And>j. j \<in> {1..k} \<Longrightarrow> a' j = a j - num / v * a (Suc k - j)" "a' (Suc k) = num / v"
  shows "yule_walker r (Suc k) a'"
    and "v * (1 - num / v * (num / v)) = r 0 - (\<Sum>j = 1..Suc k. a' j * r j)"
proof -
  let ?K = "Suc k" and ?q = "num / v"
  have expand: "(\<Sum>j = 1..?K. a' j * g j) =
      (\<Sum>j = 1..k. a j * g j) - ?q * (\<Sum>j = 1..k. a j * g (?K - j)) + ?q * g ?K" for g
  proof -
    have "(\<Sum>j = 1..k. a' j * g j) = (\<Sum>j = 1..k. a j * g j - ?q * (a (?K - j) * g (?K - (?K - j))))"
    proof (intro sum.cong refl)
      fix j assume j: "j \<in> {1..k}"
      then have "?K - (?K - j) = j" by auto
      then show "a' j * g j = a j * g j - ?q * (a (?K - j) * g (?K - (?K - j)))"
        unfolding a'(1)[OF j] by (simp add: left_diff_distrib)
    qed
    also have "\<dots> = (\<Sum>j = 1..k. a j * g j) - ?q * (\<Sum>j = 1..k. a (?K - j) * g (?K - (?K - j)))"
      by (simp only: sum_subtractf sum_distrib_left)
    also have "(\<Sum>j = 1..k. a (?K - j) * g (?K - (?K - j))) = (\<Sum>j = 1..k. a j * g (?K - j))"
      by (rule sum_reflect[of "\<lambda>j. a j * g (?K - j)"])
    finally show ?thesis using a'(2) by simp
  qed
  have q: "?q * v = num" using v(2) by simp
  show "yule_walker r ?K a'"
    unfolding yule_walker_def
  proof
    fix m assume m: "m \<in> {1..?K}"
    show "(\<Sum>j = 1..?K. a' j * r (gap m j)) = r m"
    proof (cases "m = ?K")
      case True
      have "(\<Sum>j = 1..k. a j * r (gap m j)) = (\<Sum>j = 1..k. a j * r (?K - j))"
        "(\<Sum>j = 1..k. a j * r (gap m (?K - j))) = (\<Sum>j = 1..k. a j * r j)"
        using True by (auto intro!: sum.cong simp: gap_def)
      moreover have "gap m ?K = 0" using True by (simp add: gap_def)
      ultimately have "(\<Sum>j = 1..?K. a' j * r (gap m j)) = (r ?K - num) - ?q * (r 0 - v) + ?q * r 0"
        unfolding expand[of "\<lambda>j. r (gap m j)"] num v(1) by simp
      then show ?thesis using True q by (simp add: algebra_simps)
    next
      case False
      then have mk: "m \<in> {1..k}" "?K - m \<in> {1..k}" using m by auto
      have "(\<Sum>j = 1..k. a j * r (gap m (?K - j))) = (\<Sum>j = 1..k. a j * r (gap (?K - m) j))"
        using mk by (intro sum.cong refl) (auto simp: gap_def intro!: arg_cong[where f = r])
      also have "\<dots> = r (?K - m)" using yw mk(2) by (simp add: yule_walker_def)
      finally have "(\<Sum>j = 1..?K. a' j * r (gap m j)) = r m - ?q * r (?K - m) + ?q * r (gap m ?K)"
        unfolding expand[of "\<lambda>j. r (gap m j)"] using yw mk(1) by (simp add: yule_walker_def)
      moreover have "gap m ?K = ?K - m" using mk by (simp add: gap_def)
      ultimately show ?thesis by simp
    qed
  qed
  have S: "(\<Sum>j = 1..k. a j * r j) = r 0 - v" "(\<Sum>j = 1..k. a j * r (?K - j)) = r ?K - num"
    using v(1) num by simp_all
  have "r 0 - (\<Sum>j = 1..?K. a' j * r j) = v + ?q * (r ?K - num) - ?q * r ?K"
    unfolding expand[of r] S by (simp add: algebra_simps)
  also have "\<dots> = v - ?q * num" by (simp only: right_diff_distrib)
  also have "\<dots> = v - ?q * (?q * v)" unfolding q ..
  finally show "v * (1 - ?q * ?q) = r 0 - (\<Sum>j = 1..?K. a' j * r j)" by (simp only: algebra_simps)
qed

lemma foldl_minus_sum: "foldl (\<lambda>s j. s - f j) (x :: real) [1..<Suc k] = x - (\<Sum>j = 1..k. f j)"
proof (induction k)
  case (Suc k)
  have "[1..<Suc (Suc k)] = [1..<Suc k] @ [Suc k]" by simp
  then show ?case using Suc by (simp del: upt_Suc)
qed simp

lemma ldLoop_Suc: "ldLoop acf (Suc k) = bind_outcome (ldLoop acf k) (\<lambda>s. ldStep acf s (Suc k))"
  by (simp add: ldLoop_def)

lemma ldLoop_yule_walker:
  fixes acf :: "real list"
  assumes "ldLoop acf k = Ok (row, v)"
  shows "length row = k \<and> yule_walker ((!) acf) k (\<lambda>j. row ! (j - 1)) \<and>
         v = acf ! 0 - (\<Sum>j = 1..k. row ! (j - 1) * acf ! j)"
  using assms
proof (induction k arbitrary: row v)
  case 0
  then show ?case by (simp add: ldLoop_def yule_walker_def)
next
  case (Suc k)
  from Suc.prems obtain row0 v0 where l: "ldLoop acf k = Ok (row0, v0)"
    and s: "ldStep acf (row0, v0) (Suc k) = Ok (row, v)"
    by (auto simp: ldLoop_Suc bind_outcome_Ok_iff)
  note IH = Suc.IH[OF l]
  define num where "num = acf ! Suc k - (\<Sum>j = 1..k. row0 ! (j - 1) * acf ! (Suc k - j))"
  have v0: "v0 \<noteq> 0" and row: "row = map (\<lambda>j. row0 ! (j - 1) - num / v0 * row0 ! (Suc k - j - 1)) [1..<Suc k] @ [num / v0]"
    and v: "v = v0 * (1 - num / v0 * (num / v0))"
    using s[unfolded ldStep_def Let_def prod.case foldl_minus_sum num_def[symmetric]]
    by (simp_all split: if_splits del: upt_Suc)
  have len: "length row = Suc k" unfolding row by simp
  have nth: "row ! (j - 1) = row0 ! (j - 1) - num / v0 * row0 ! (Suc k - j - 1)" if "j \<in> {1..k}" for j
  proof -
    have "j - 1 < k" using that by auto
    then show ?thesis unfolding row using that by (simp add: nth_append del: upt_Suc)
  qed
  have top: "row ! (Suc k - 1) = num / v0" unfolding row by (simp add: nth_append del: upt_Suc)
  note E = yule_walker_extend[OF conjunct1[OF conjunct2[OF IH]] conjunct2[OF conjunct2[OF IH]] v0 num_def nth top]
  show ?case using len E v by simp
qed

text \<open>
  C25: the AR coefficients solve the Yule-Walker equations. In exact arithmetic, when the
  Levinson-Durbin recursion returns, its result has one coefficient per lag and satisfies, for every
  lag \<open>m\<close> from 1 to \<open>p\<close>, the equation whose left side weighs the autocorrelations at the distances
  from \<open>m\<close>.
\<close>

theorem levinsonDurbin_yule_walker:
  fixes acf :: "real list"
  assumes "levinsonDurbin acf p = Ok coeffs"
  shows "length coeffs = p \<and> (\<forall>m \<in> {1..p}. (\<Sum>j = 1..p. coeffs ! (j - 1) * acf ! gap m j) = acf ! m)"
proof (cases "p = 0")
  case False
  then obtain v where "ldLoop acf p = Ok (coeffs, v)"
    using assms by (auto simp: levinsonDurbin_def bind_outcome_Ok_iff)
  from ldLoop_yule_walker[OF this] show ?thesis by (simp add: yule_walker_def)
qed (use assms in \<open>simp add: levinsonDurbin_def\<close>)

section \<open>Autocorrelations\<close>

lemma foldl_plus_sum_list: "foldl (\<lambda>c x. c + f x) (a :: real) xs = a + (\<Sum>x \<leftarrow> xs. f x)"
  by (induction xs arbitrary: a) auto

lemma cross_sum_bound:
  fixes xs ys :: "real list"
  assumes "length xs = length ys"
  shows "2 * \<bar>\<Sum>(x, y) \<leftarrow> zip xs ys. x * y\<bar> \<le> (\<Sum>x \<leftarrow> xs. x * x) + (\<Sum>y \<leftarrow> ys. y * y)"
  using assms
proof (induction xs ys rule: list_induct2)
  case (Cons x xs y ys)
  have "2 * \<bar>x * y\<bar> \<le> x * x + y * y"
    using sum_squares_bound[of x y] sum_squares_bound[of x "- y"] by (simp add: power2_eq_square abs_if)
  then show ?case using Cons.IH by (simp add: abs_if split: if_splits)
qed simp

lemma sum_list_take_drop_le:
  fixes xs :: "real list"
  shows "(\<Sum>x \<leftarrow> take n xs. x * x) \<le> (\<Sum>x \<leftarrow> xs. x * x)" "(\<Sum>x \<leftarrow> drop n xs. x * x) \<le> (\<Sum>x \<leftarrow> xs. x * x)"
proof -
  have "(\<Sum>x \<leftarrow> xs. x * x) = (\<Sum>x \<leftarrow> take n xs. x * x) + (\<Sum>x \<leftarrow> drop n xs. x * x)"
    by (metis append_take_drop_id map_append sum_list_append)
  moreover have "0 \<le> (\<Sum>x \<leftarrow> ys. x * x)" for ys :: "real list" by (rule sum_list_nonneg) auto
  ultimately show "(\<Sum>x \<leftarrow> take n xs. x * x) \<le> (\<Sum>x \<leftarrow> xs. x * x)"
    "(\<Sum>x \<leftarrow> drop n xs. x * x) \<le> (\<Sum>x \<leftarrow> xs. x * x)" by (simp_all add: add_increasing2 add_increasing)
qed

text \<open>
  Autocorrelations are correlations. In exact arithmetic the autocorrelation of any series at any
  lag lies between -1 and 1, and at lag 0 it is 1 unless the series is constant.
\<close>

lemma autocorr_bounded:
  fixes series :: "real list"
  shows "\<bar>autocorr real series lag\<bar> \<le> 1 \<and>
         (autocorr real series 0 = 1 \<or> autocorr real series 0 = 0 \<and> set series \<subseteq> {computeMean real series})"
proof -
  define m where "m = computeMean real series"
  define xs where "xs = map (\<lambda>x. x - m) series"
  define c0 where "c0 = (\<Sum>x \<leftarrow> xs. x * x)"
  have c0: "foldl (\<lambda>c x. c + (x - m) * (x - m)) 0 series = c0"
    unfolding c0_def xs_def foldl_plus_sum_list by (simp add: comp_def)
  have ck: "foldl (\<lambda>c (x, y). c + (x - m) * (y - m)) 0 (zip series (drop n series)) =
      (\<Sum>(x, y) \<leftarrow> zip xs (drop n xs). x * y)" for n
    using foldl_plus_sum_list[of "\<lambda>(x, y). (x - m) * (y - m)" 0 "zip series (drop n series)"]
    by (simp add: xs_def drop_map zip_map_map comp_def split_def)
  have pos: "0 \<le> c0" unfolding c0_def by (rule sum_list_nonneg) auto
  have "\<bar>\<Sum>(x, y) \<leftarrow> zip xs (drop n xs). x * y\<bar> \<le> c0" for n
  proof -
    have z: "zip xs (drop n xs) = zip (take (length xs - n) xs) (drop n xs)"
      by (rule nth_equalityI) auto
    show ?thesis unfolding z
      using cross_sum_bound[of "take (length xs - n) xs" "drop n xs"] sum_list_take_drop_le[of "length xs - n" xs]
        sum_list_take_drop_le(2)[of n xs] unfolding c0_def by simp
  qed
  then have A: "\<bar>autocorr real series lag\<bar> \<le> 1"
    using pos by (auto simp: autocorr_def Let_def m_def[symmetric] c0 ck divide_le_eq_1 abs_divide)
  have "(\<Sum>(x, y) \<leftarrow> zip xs xs. x * y) = c0" unfolding c0_def by (simp add: zip_same_conv_map comp_def)
  then have "autocorr real series 0 = (if series = [] \<or> c0 = 0 then 0 else 1)"
    using ck[of 0] by (auto simp: autocorr_def Let_def m_def[symmetric] c0)
  moreover have "set series \<subseteq> {m}" if "c0 = 0"
  proof -
    have "x * x = 0" if "x \<in> set xs" for x
      using \<open>c0 = 0\<close> that unfolding c0_def by (subst (asm) sum_list_nonneg_eq_0_iff) auto
    then show ?thesis unfolding xs_def by force
  qed
  ultimately show ?thesis using A by (auto simp: m_def)
qed

section \<open>Shapes: how many coefficients, residuals and predictions\<close>

lemma length_difference: "0 \<le> d \<Longrightarrow> length (difference series d) = length series - nat d"
proof (induction series d rule: difference.induct)
  case (1 series d)
  show ?case
  proof (cases "d > 1 \<and> series \<noteq> []")
    case True
    then have "length (difference (map2 (-) (tl series) series) (d - 1)) = length series - 1 - nat (d - 1)"
      using 1(1)[of "map2 (-) (tl series) series"] 1(2) by simp
    moreover have "nat d = Suc (nat (d - 1))" using True by (auto simp: Suc_nat_eq_nat_zadd1)
    ultimately show ?thesis using True by (subst difference.simps) (simp add: Let_def)
  next
    case False
    then show ?thesis using 1(2) by (subst difference.simps) (auto simp: Let_def)
  qed
qed

lemma ldLoop_length: "ldLoop acf k = Ok (row, v) \<Longrightarrow> length row = k"
proof (induction k arbitrary: row v)
  case (Suc k)
  then show ?case
    by (auto simp: ldLoop_Suc bind_outcome_Ok_iff ldStep_def Let_def split: if_splits)
qed (simp add: ldLoop_def)

lemma length_levinsonDurbin: "levinsonDurbin acf p = Ok cs \<Longrightarrow> length cs = p"
  by (auto simp: levinsonDurbin_def bind_outcome_Ok_iff dest: ldLoop_length split: if_splits)

lemma length_fitAR [simp]: "length (fitAR centered p) = p"
  by (auto simp: fitAR_def length_levinsonDurbin split: outcome.splits)

lemma length_computeResiduals [simp]: "length (computeResiduals centered ar p) = length centered - p"
  by (simp add: computeResiduals_def)

lemma length_fitMA: "length (fitMA residuals q) = (if residuals = [] then 0 else q)"
  by (simp add: fitMA_def)

lemma rowValues_Ok_iff:
  "(\<exists>vs. rowValues i rows = Ok vs) \<longleftrightarrow> list_all (\<lambda>row. map_of row ''value'' \<noteq> None) rows"
  by (induction rows arbitrary: i) (auto simp: bind_outcome_Ok_iff split: option.splits)

lemma length_rowValues: "rowValues i rows = Ok vs \<Longrightarrow> length vs = length rows"
  by (induction rows arbitrary: i vs) (auto simp: bind_outcome_Ok_iff split: option.splits)

lemma dotRecent_None_iff: "dotRecent cs xs n = None \<longleftrightarrow> length cs < min n (length xs)"
  by (auto simp: dotRecent_def Let_def)

lemma length_lastN: "length (lastN n xs) = min n (length xs)"
  by (simp add: lastN_def)

lemma length_forecastLoop: "length (forecastLoop step first n) = max 1 n"
proof -
  have "length (foldl (\<lambda>ps t. ps @ [step ps t]) ps ts) = length ps + length ts" for ps ts
    by (induction ts arbitrary: ps) auto
  then show ?thesis by (simp add: forecastLoop_def)
qed

lemma numSteps_length: "int (max 1 (nat (numSteps h s))) = numSteps h s"
proof -
  have *: "1 \<le> nat (numSteps h s)" using numSteps_pos[of h s] by linarith
  show ?thesis unfolding max_absorb2[OF *] using numSteps_pos[of h s] by linarith
qed

lemma forecastLoop_all:
  assumes "P first" "\<And>ps t. ps \<noteq> [] \<Longrightarrow> list_all P ps \<Longrightarrow> P (step ps t)"
  shows "list_all P (forecastLoop step first n)"
proof -
  have "forecastLoop step first n \<noteq> [] \<and> list_all P (forecastLoop step first n)"
    unfolding forecastLoop_def
    by (rule foldl_invariant[where P = "\<lambda>ps. ps \<noteq> [] \<and> list_all P ps"]) (use assms in auto)
  then show ?thesis ..
qed

lemma horizonQuantiles_aligned:
  "(q, vs) \<in> set (gomap_list (horizonQuantiles sd ps)) \<Longrightarrow> length vs = length ps"
  by (auto simp: horizonQuantiles_def split: if_splits)

section \<open>The clamp of a prediction\<close>

definition cap :: "float64 \<Rightarrow> float64" where
  "cap base = base * flit 2 + flit 100"

lemma cap_mono: "a \<le> b \<Longrightarrow> cap a \<le> cap b"
proof -
  have c: "flit 2 = Fin 2" "flit 100 = Fin 100" by code_simp+
  assume "a \<le> b"
  then have "a * Fin 2 \<le> b * Fin 2" by (rule fmul_pos_mono) auto
  then show ?thesis unfolding cap_def c
    by (cases "a * Fin 2"; cases "b * Fin 2") (auto simp: plus_float64_def intro: rnd_mono)
qed

lemma cap_values: "cap (Fin 0) = Fin 100" "cap (Fin (- 50)) = Fin 0" "cap (Fin (- 51)) = Fin (- 2)" "cap NaN = NaN"
  by code_simp+

lemma billion: "flit (10 ^ 9) = Fin (10 ^ 9)"
  by code_simp

lemma clampPrediction_cases:
  "clampPrediction base pred = NaN \<or>
   clampPrediction base pred \<le> Fin (10 ^ 9) \<and>
   (cap base = NaN \<or> clampPrediction base pred \<le> cap base) \<and>
   (Fin 0 \<le> clampPrediction base pred \<or> clampPrediction base pred = cap base)"
  unfolding clampPrediction_def Let_def cap_def[symmetric] billion zero_float64
  by (cases pred; cases "cap base") (auto simp: not_less)

lemma clampPrediction_nonneg:
  assumes "\<not> base < Fin (- 50)"
  shows "not_negative (clampPrediction base pred)"
proof (cases "base = NaN")
  case True
  then have "cap base = NaN" by (simp add: cap_values)
  then show ?thesis unfolding clampPrediction_def Let_def cap_def[symmetric] billion zero_float64 not_negative_def
    by (cases pred) auto
next
  case False
  then have "Fin (- 50) \<le> base" using assms by (cases base) (auto simp: not_less)
  from cap_mono[OF this] have "Fin 0 \<le> cap base" by (simp add: cap_values)
  then show ?thesis using clampPrediction_cases[of base pred] unfolding not_negative_def zero_float64
    by (cases "clampPrediction base pred"; cases "cap base") (auto simp: not_less)
qed

section \<open>The contract of the model interface\<close>

lemma arima_Predict_Ok:
  assumes "arima_Predict ctx m rows = Ok f"
  obtains first where
    "fValues f = forecastLoop (arimaStep (baseValue (lastValues m))) (clampPrediction (baseValue (lastValues m)) first)
       (nat (numSteps (ahorizonSec m) (astepSec m)))"
    "fQuantiles f = horizonQuantiles (aresidualStdDev m) (fValues f)"
  using assms that
  by (auto simp: arima_Predict_def Let_def split: option.splits if_splits)

lemma arima_values_clamped:
  assumes "arima_Predict ctx m rows = Ok f" "\<And>pred. P (clampPrediction (baseValue (lastValues m)) pred)"
  shows "list_all P (fValues f)"
proof (rule arima_Predict_Ok[OF assms(1)])
  fix first
  assume "fValues f = forecastLoop (arimaStep (baseValue (lastValues m)))
    (clampPrediction (baseValue (lastValues m)) first) (nat (numSteps (ahorizonSec m) (astepSec m)))"
  then show ?thesis using forecastLoop_all[where P = P] assms(2) by (simp add: arimaStep_def)
qed

interpretation arima: forecasting_model "arima_Predict ctx" "\<lambda>m. \<not> baseValue (lastValues m) < Fin (- 50)" for ctx
proof unfold_locales
  fix m rows f
  assume ok: "arima_Predict ctx m rows = Ok f"
  show "quantiles_aligned f"
    by (rule arima_Predict_Ok[OF ok]) (auto simp: quantiles_aligned_def list_all_iff dest: horizonQuantiles_aligned)
  assume "\<not> baseValue (lastValues m) < Fin (- 50)"
  then show "list_all not_negative (fValues f)" by (intro arima_values_clamped[OF ok] clampPrediction_nonneg)
qed

section \<open>Training makes the model ready\<close>

lemma wrap64_le: "- (2 ^ 63) \<le> i \<Longrightarrow> wrap64 i \<le> i"
  unfolding wrap64_def using zmod_le_nonneg_dividend[of "i + 2 ^ 63" "2 ^ 64"] by linarith

lemma NewARIMAModel_Ok:
  assumes "NewARIMAModel metric step horizon p d q = Ok m"
  shows "0 < ap m" "0 < ad m" "ad m \<le> 2" "0 < aq m" "0 < astepSec m" "astepSec m = step" "ahorizonSec m = horizon"
  using assms by (auto simp: NewARIMAModel_def split: if_splits)

lemma arima_Train_Ok:
  assumes new: "NewARIMAModel metric step horizon p d q = Ok m"
    and rows: "list_all (\<lambda>row. map_of row ''value'' \<noteq> None) history" "10 \<le> length history"
      "ap m + ad m \<le> int (length history)" "aq m + ad m \<le> int (length history)"
  obtains m' where "arima_Train None history m = Ok m'"
    "atrained m'" "ap m' = ap m" "aq m' = aq m" "astepSec m' = step" "ahorizonSec m' = horizon"
    "length (arCoeffs m') = nat (ap m)" "length (lastValues m') = nat (ap m)" "length (lastErrors m') = nat (aq m)"
    "length (maCoeffs m') = (if ap m + ad m = int (length history) then 0 else nat (aq m))"
proof -
  obtain vs where vs: "rowValues 0 history = Ok vs" using rows(1) rowValues_Ok_iff by blast
  have len: "length vs = length history" by (rule length_rowValues[OF vs])
  note N = NewARIMAModel_Ok[OF new]
  have "minPoints m \<le> int (length vs)"
    using rows(2-4) wrap64_le[of "ap m + ad m"] wrap64_le[of "aq m + ad m"] N by (simp add: minPoints_def len)
  moreover have "length (difference vs (ad m)) = length history - nat (ad m)"
    using length_difference[of "ad m" vs] N(2) len by simp
  moreover define res where
    "res = (let c = centre (difference vs (ad m)) in computeResiduals c (fitAR c (nat (ap m))) (nat (ap m)))"
  ultimately have res: "length res = length history - nat (ad m) - nat (ap m)"
    by (simp add: Let_def centre_def)
  then have "res = [] \<longleftrightarrow> ap m + ad m = int (length history)" using rows(3) N(1,2) by (auto simp flip: length_0_conv)
  then have ma: "length (fitMA res (nat (aq m))) = (if ap m + ad m = int (length history) then 0 else nat (aq m))"
    by (simp add: length_fitMA)
  have le: "length (if int (length res) \<ge> aq m then lastN (nat (aq m)) res else replicate (nat (aq m)) 0) = nat (aq m)"
    by (simp add: length_lastN min_def nat_le_iff)
  have lv: "length (lastN (nat (ap m)) vs) = nat (ap m)" using rows(3) N(2) len by (simp add: length_lastN)
  have "arima_Train None history m =
      Ok (m\<lparr>atrained := True, arCoeffs := fitAR (centre (difference vs (ad m))) (nat (ap m)),
             maCoeffs := fitMA res (nat (aq m)), amean := computeMean conv64 (difference vs (ad m)),
             lastValues := lastN (nat (ap m)) vs,
             lastErrors := (if int (length res) \<ge> aq m then lastN (nat (aq m)) res else replicate (nat (aq m)) 0),
             aresidualStdDev := residualDeviation res\<rparr>)"
    using N rows(3) \<open>minPoints m \<le> int (length vs)\<close> len
    by (simp add: arima_Train_def Let_def vs res_def)
  from that[OF this] show ?thesis using ma le lv N by simp
qed

lemma arima_Predict_trained:
  assumes "atrained m" "astepSec m \<noteq> 0" "length (arCoeffs m) = nat (ap m)"
  shows "arima_Predict None m rows = Panic \<longleftrightarrow> length (maCoeffs m) < min (nat (aq m)) (length (lastErrors m))"
    "arima_Predict None m rows \<noteq> Err e"
  using assms dotRecent_None_iff[of "arCoeffs m" "lastValues m" "nat (ap m)"]
    dotRecent_None_iff[of "maCoeffs m" "lastErrors m" "nat (aq m)"]
  by (auto simp: arima_Predict_def Let_def split: option.splits)

section \<open>What the model guarantees\<close>

text \<open>
  C26: a trained ARIMA model predicts. For every accepted parameter set and every history with a value
  in each row, with at least ten rows, more than \<open>p + d\<close> rows and at least \<open>q + d\<close>, training succeeds
  and the next prediction returns a forecast of \<open>horizon / step\<close> values whose quantile series have the
  same length.
\<close>

theorem arima_train_predict:
  assumes "NewARIMAModel metric step horizon p d q = Ok m"
    "list_all (\<lambda>row. map_of row ''value'' \<noteq> None) history" "10 \<le> length history"
    "ap m + ad m < int (length history)" "aq m + ad m \<le> int (length history)"
  shows "\<exists>m' f. arima_Train None history m = Ok m' \<and> arima_Predict None m' rows = Ok f \<and>
           int (length (fValues f)) = numSteps horizon step \<and> quantiles_aligned f"
proof -
  obtain m' where m': "arima_Train None history m = Ok m'"
    "atrained m'" "ap m' = ap m" "aq m' = aq m" "astepSec m' = step" "ahorizonSec m' = horizon"
    "length (arCoeffs m') = nat (ap m)" "length (lastErrors m') = nat (aq m)"
    "length (maCoeffs m') = (if ap m + ad m = int (length history) then 0 else nat (aq m))"
    using arima_Train_Ok[OF assms(1,2,3) _ assms(5)] assms(4) by (metis less_imp_le)
  have "astepSec m' \<noteq> 0" using NewARIMAModel_Ok(5,6)[OF assms(1)] m'(5) by simp
  with arima_Predict_trained[OF m'(2) this, of rows] m' assms(4)
  obtain f where f: "arima_Predict None m' rows = Ok f" by (cases "arima_Predict None m' rows") auto
  have "int (length (fValues f)) = numSteps horizon step"
    by (rule arima_Predict_Ok[OF f])
      (use m'(5,6) numSteps_length[of horizon step] in \<open>simp add: length_forecastLoop\<close>)
  then show ?thesis using m'(1) f arima.predict_quantiles[OF f] by blast
qed

text \<open>
  The smallest training set the model accepts makes it crash. With exactly \<open>p + d\<close> rows (at least
  ten, \<open>q\<close> not above \<open>p\<close>) training reports success, but leaves no moving-average coefficients, and the
  prediction that follows runs out of the range of the empty slice and panics.
\<close>

lemma arima_minimum_history_panics:
  assumes "NewARIMAModel metric step horizon p d q = Ok m"
    "list_all (\<lambda>row. map_of row ''value'' \<noteq> None) history" "10 \<le> length history"
    "ap m + ad m = int (length history)" "aq m \<le> ap m"
  shows "\<exists>m'. arima_Train None history m = Ok m' \<and> arima_Predict None m' rows = Panic"
proof -
  obtain m' where m': "arima_Train None history m = Ok m'"
    "atrained m'" "ap m' = ap m" "aq m' = aq m" "astepSec m' = step"
    "length (arCoeffs m') = nat (ap m)" "length (lastErrors m') = nat (aq m)" "length (maCoeffs m') = 0"
    using arima_Train_Ok[OF assms(1,2,3)] assms(4,5) by (metis add_right_mono order_refl)
  have "astepSec m' \<noteq> 0" using NewARIMAModel_Ok(5,6)[OF assms(1)] m'(5) by simp
  with arima_Predict_trained(1)[OF m'(2) this, of rows] m' NewARIMAModel_Ok(4)[OF assms(1)] show ?thesis by auto
qed

text \<open>
  C27: every ARIMA prediction stays near the last value. When the last observed value is not negative,
  each predicted value that is a number lies between zero and the smaller of twice that value plus 100
  and a thousand million.
\<close>

theorem arima_prediction_bounds:
  assumes "arima_Predict ctx m rows = Ok f" "0 \<le> baseValue (lastValues m)"
  shows "list_all (\<lambda>v. v = NaN \<or> 0 \<le> v \<and> v \<le> baseValue (lastValues m) * flit 2 + flit 100 \<and> v \<le> flit (10 ^ 9))
           (fValues f)"
proof (rule arima_values_clamped[OF assms(1)])
  fix pred
  have c: "Fin 100 \<le> cap (baseValue (lastValues m))" using cap_mono[OF assms(2)] by (simp add: cap_values)
  then have "Fin 0 \<le> cap (baseValue (lastValues m))" by (rule float64_le_trans[rotated]) simp
  then show "clampPrediction (baseValue (lastValues m)) pred = NaN \<or> 0 \<le> clampPrediction (baseValue (lastValues m)) pred \<and>
    clampPrediction (baseValue (lastValues m)) pred \<le> baseValue (lastValues m) * flit 2 + flit 100 \<and>
    clampPrediction (baseValue (lastValues m)) pred \<le> flit (10 ^ 9)"
    using clampPrediction_cases[of "baseValue (lastValues m)" pred]
    unfolding cap_def[symmetric] billion zero_float64 by auto
qed

text \<open>
  Below -50 the non-negativity clamp is undone. When the last observed value is -51 or less, the
  upper limit of twice that value plus 100 is itself negative and is applied after the clamp at zero:
  every predicted value that is a number is negative.
\<close>

lemma arima_negative_forecast:
  assumes "arima_Predict ctx m rows = Ok f" "baseValue (lastValues m) \<le> Fin (- 51)"
  shows "list_all (\<lambda>v. v = NaN \<or> v < 0) (fValues f)"
proof (rule arima_values_clamped[OF assms(1)])
  fix pred
  have "cap (baseValue (lastValues m)) \<le> Fin (- 2)" using cap_mono[OF assms(2)] by (simp add: cap_values)
  then show "clampPrediction (baseValue (lastValues m)) pred = NaN \<or> clampPrediction (baseValue (lastValues m)) pred < 0"
    using clampPrediction_cases[of "baseValue (lastValues m)" pred] unfolding zero_float64
    by (cases "clampPrediction (baseValue (lastValues m)) pred"; cases "cap (baseValue (lastValues m))") auto
qed

section \<open>Concrete runs\<close>

theorem levinsonDurbin_yule_walker_witness:
  "levinsonDurbin [1, 1/2, 1/4 :: real] 2 = Ok [1/2, 0] \<and>
   (\<Sum>j = 1..2. [1/2, 0] ! (j - 1) * [1, 1/2, 1/4 :: real] ! gap 2 j) = 1/4"
proof -
  have "levinsonDurbin [1, 1/2, 1/4 :: real] 2 = Ok [1/2, 0]"
    by (simp add: levinsonDurbin_def ldLoop_def ldStep_def upt_rec)
  from this levinsonDurbin_yule_walker[OF this] show ?thesis by auto
qed

definition sample_arima :: ARIMAModel where
  "sample_arima = (case NewARIMAModel ''rps'' 60 180 1 1 1 of Ok m \<Rightarrow> m)"

definition load_history :: "int list \<Rightarrow> FeatureFrame" where
  "load_history xs = map (\<lambda>x. [(''value'', i2f x)]) xs"

theorem arima_train_predict_witness:
  "\<exists>m' f. arima_Train None (load_history [20, 21, 23, 22, 25, 27, 26, 28, 29, 31]) sample_arima = Ok m' \<and>
     arima_Predict None m' [] = Ok f \<and> int (length (fValues f)) = 3 \<and> quantiles_aligned f"
proof -
  have m: "NewARIMAModel ''rps'' 60 180 1 1 1 = Ok sample_arima" "ap sample_arima = 1" "ad sample_arima = 1" "aq sample_arima = 1"
    by code_simp+
  have n: "numSteps 180 60 = 3" by code_simp
  show ?thesis using arima_train_predict[OF m(1), of "load_history [20, 21, 23, 22, 25, 27, 26, 28, 29, 31]" "[]"]
    by (simp add: m n) (simp add: load_history_def)
qed

definition sample_wide :: ARIMAModel where
  "sample_wide = (case NewARIMAModel ''rps'' 60 180 9 1 2 of Ok m \<Rightarrow> m)"

text \<open>A trained state, with two predictions ahead.\<close>

definition trained_arima :: "float64 \<Rightarrow> ARIMAModel" where
  "trained_arima v = sample_arima\<lparr>ahorizonSec := 120, atrained := True, arCoeffs := [flit (1/2)], maCoeffs := [0],
     lastValues := [v], lastErrors := [0]\<rparr>"

theorem arima_prediction_bounds_witness:
  "\<exists>f. arima_Predict None (trained_arima (Fin 10)) [] = Ok f \<and> hd (fValues f) = Fin (21/2) \<and>
       list_all (\<lambda>v. v = NaN \<or> 0 \<le> v \<and> v \<le> Fin 120 \<and> v \<le> Fin (10 ^ 9)) (fValues f)"
proof -
  define f where "f = (case arima_Predict None (trained_arima (Fin 10)) [] of Ok f \<Rightarrow> f)"
  have f: "arima_Predict None (trained_arima (Fin 10)) [] = Ok f" "hd (fValues f) = Fin (21/2)"
    unfolding f_def by code_simp+
  have b: "baseValue (lastValues (trained_arima (Fin 10))) = Fin 10" "Fin 10 * flit 2 + flit 100 = Fin 120"
    by code_simp+
  show ?thesis using arima_prediction_bounds[OF f(1)] f unfolding b billion by auto
qed

end
