(* ===== verification/Sarima.thy ===== *)
theory Sarima
  imports Arima
begin

text \<open>
  The SARIMA model of \<open>src/pkg/models/sarima.go\<close>: seasonal differencing and coefficient estimation on
  top of the routines of \<^verbatim>\<open>Arima\<close>, training and prediction. Products with the seasonal period wrap as
  Go's \<open>int\<close> does.
\<close>

section \<open>Seasonal routines\<close>

function seasonalDifference :: "'a :: minus list \<Rightarrow> int \<Rightarrow> int \<Rightarrow> 'a list" where
  "seasonalDifference series D s =
     (if D = 0 \<or> s \<le> 0 \<or> int (length series) \<le> s then series
      else let result = map2 (-) (drop (nat s) series) series
           in if D > 1 then seasonalDifference result (D - 1) s else result)"
  by pat_completeness auto
termination
  by (relation "measure (\<lambda>(series, D, s). nat D)") auto

declare seasonalDifference.simps [simp del]

definition fitSeasonalAR :: "float64 list \<Rightarrow> int \<Rightarrow> int \<Rightarrow> float64 list" where
  "fitSeasonalAR centered P s =
     (if P = 0 \<or> s \<le> 0 then []
      else case levinsonDurbin (map (\<lambda>k. autocorr conv64 centered (wrap64 (int k * s))) [0..<nat P + 1]) (nat P) of
             Ok coeffs \<Rightarrow> coeffs
           | _ \<Rightarrow> flit (3/10) # replicate (nat P - 1) 0)"

text \<open>The loop over the seasonal lags stops at the first one beyond the residuals.\<close>

fun seasonalMALoop :: "float64 list \<Rightarrow> int \<Rightarrow> nat \<Rightarrow> nat \<Rightarrow> float64 list" where
  "seasonalMALoop residuals s i 0 = []"
| "seasonalMALoop residuals s i (Suc n) =
     (let lag = wrap64 ((int i + 1) * s)
      in if lag < int (length residuals)
         then shrink (autocorr conv64 residuals lag) # seasonalMALoop residuals s (i + 1) n
         else replicate (Suc n) 0)"

definition fitSeasonalMA :: "float64 list \<Rightarrow> int \<Rightarrow> int \<Rightarrow> float64 list" where
  "fitSeasonalMA residuals Q s =
     (if Q = 0 \<or> s \<le> 0 \<or> residuals = [] then [] else seasonalMALoop residuals s 0 (nat Q))"

definition residualIdx :: "int \<Rightarrow> nat \<Rightarrow> nat \<Rightarrow> int" where
  "residualIdx s t i = wrap64 (int t - (int i + 1) * s)"

text \<open>\<open>None\<close> is the panic of an index beyond the series, which a wrapped product can produce.\<close>

definition computeSeasonalResiduals ::
  "float64 list \<Rightarrow> float64 list \<Rightarrow> float64 list \<Rightarrow> int \<Rightarrow> int \<Rightarrow> int \<Rightarrow> float64 list option" where
  "computeSeasonalResiduals centered ar sar p P s =
     (let startIdx = nat (max p (wrap64 (P * s)));
          lags = [0..<min (nat P) (length sar)];
          steps = [startIdx..<length centered]
      in if list_all (\<lambda>t. list_all (\<lambda>i. residualIdx s t i < int (length centered)) lags) steps
         then Some (map (\<lambda>t.
                let arPred = foldl (\<lambda>a i. a + ar ! i * centered ! (t - 1 - i)) 0 [0..<min (nat p) (length ar)];
                    seasonalARPred =
                      foldl (\<lambda>a i. let idx = residualIdx s t i
                                   in if idx \<ge> 0 then a + sar ! i * centered ! nat idx else a) 0 lags
                in centered ! t - arPred - seasonalARPred) steps)
         else None)"

section \<open>The model\<close>

record SARIMAModel =
  smetric :: string
  sstepSec :: int
  shorizonSec :: int
  sp :: int
  sd :: int
  sq :: int
  sP :: int
  sD :: int
  sQ :: int
  ss :: int
  strained :: bool
  sarCoeffs :: "float64 list"
  smaCoeffs :: "float64 list"
  seasonalARCoeffs :: "float64 list"
  seasonalMACoeffs :: "float64 list"
  smean :: float64
  slastValues :: "float64 list"
  slastErrors :: "float64 list"
  sresidualStdDev :: float64

definition NewSARIMAModel ::
  "string \<Rightarrow> int \<Rightarrow> int \<Rightarrow> int \<Rightarrow> int \<Rightarrow> int \<Rightarrow> int \<Rightarrow> int \<Rightarrow> int \<Rightarrow> int \<Rightarrow> (model_error, SARIMAModel) outcome" where
  "NewSARIMAModel metric stepSec horizonSec p d q P D Q s =
     (if metric = [] then Panic
      else if stepSec \<le> 0 then Panic
      else if horizonSec < stepSec then Panic
      else if d < 0 \<or> d > 2 then Panic
      else if D < 0 \<or> D > 1 then Panic
      else if p < 0 \<or> q < 0 then Panic
      else if P < 0 \<or> Q < 0 then Panic
      else if (P > 0 \<or> D > 0 \<or> Q > 0) \<and> s \<le> 0 then Panic
      else Ok \<lparr>smetric = metric, sstepSec = stepSec, shorizonSec = horizonSec,
               sp = (if p = 0 then 1 else p), sd = (if d = 0 then 1 else d), sq = (if q = 0 then 1 else q),
               sP = P, sD = D, sQ = Q, ss = s,
               strained = False, sarCoeffs = [], smaCoeffs = [], seasonalARCoeffs = [], seasonalMACoeffs = [],
               smean = 0, slastValues = [], slastErrors = [], sresidualStdDev = 0\<rparr>)"

definition sarima_Name :: "SARIMAModel \<Rightarrow> string" where
  "sarima_Name m =
     ''sarima('' @ itoa (sp m) @ '','' @ itoa (sd m) @ '','' @ itoa (sq m) @ '')'' @
     (if sP m = 0 \<and> sD m = 0 \<and> sQ m = 0 then []
      else ''('' @ itoa (sP m) @ '','' @ itoa (sD m) @ '','' @ itoa (sQ m) @ '','' @ itoa (ss m) @ '')'')"

section \<open>Training\<close>

definition seasonalMin :: "SARIMAModel \<Rightarrow> int" where
  "seasonalMin m =
     (if ss m > 0
      then let k = max (wrap64 (ss m * sP m + ss m * sD m)) (wrap64 (ss m * sQ m + ss m * sD m))
           in if sD m > 0 \<or> sP m > 0 \<or> sQ m > 0 then max k (wrap64 (2 * ss m)) else k
      else 0)"

definition sarimaMinPoints :: "SARIMAModel \<Rightarrow> int" where
  "sarimaMinPoints m =
     max (max (max (wrap64 (sp m + sd m)) (wrap64 (sq m + sd m))) (seasonalMin m)) 20"

definition stationarySeries :: "SARIMAModel \<Rightarrow> float64 list \<Rightarrow> float64 list" where
  "stationarySeries m vs =
     (let stationary = difference vs (sd m)
      in if sD m > 0 \<and> ss m > 0 then seasonalDifference stationary (sD m) (ss m) else stationary)"

text \<open>
  The values and errors kept for prediction are replaced only when there are enough of them;
  otherwise the model keeps those of its last training.
\<close>

definition keepLast :: "int \<Rightarrow> float64 list \<Rightarrow> float64 list \<Rightarrow> float64 list" where
  "keepLast needed fresh old =
     (if needed > 0 \<and> needed \<le> int (length fresh) then lastN (nat needed) fresh else old)"

definition sarima_Train :: "ctx \<Rightarrow> FeatureFrame \<Rightarrow> SARIMAModel \<Rightarrow> (model_error, SARIMAModel) outcome" where
  "sarima_Train ctx history m =
     (case ctx of
        Some e \<Rightarrow> Err (ModelCtx e)
      | None \<Rightarrow>
          bind_outcome (rowValues 0 history) (\<lambda>vs.
            if int (length vs) < sarimaMinPoints m
            then Err (NotEnoughPoints (sarimaMinPoints m) (length vs))
            else let stationary = stationarySeries m vs;
                     centered = centre stationary;
                     ar = fitAR centered (nat (sp m));
                     sar = (if sP m > 0 \<and> ss m > 0 then fitSeasonalAR centered (sP m) (ss m) else [])
                 in case computeSeasonalResiduals centered ar sar (sp m) (sP m) (ss m) of
                      None \<Rightarrow> Panic
                    | Some residuals \<Rightarrow>
                        let ma = fitMA residuals (nat (sq m));
                            sma = (if sQ m > 0 \<and> ss m > 0 then fitSeasonalMA residuals (sQ m) (ss m) else [])
                        in Ok (m\<lparr>slastValues := keepLast (max (sp m) (wrap64 (ss m * sP m))) vs (slastValues m),
                                 slastErrors := keepLast (max (sq m) (wrap64 (ss m * sQ m))) residuals (slastErrors m),
                                 strained := True, sarCoeffs := ar, smaCoeffs := ma,
                                 seasonalARCoeffs := sar, seasonalMACoeffs := sma,
                                 smean := computeMean conv64 stationary,
                                 sresidualStdDev := residualDeviation residuals\<rparr>)))"

section \<open>Prediction\<close>

text \<open>The seasonal weighted sum; \<open>None\<close> is the index-out-of-range panic.\<close>

definition seasonalIdx :: "float64 list \<Rightarrow> int \<Rightarrow> nat \<Rightarrow> int" where
  "seasonalIdx xs s i = wrap64 (int (length xs) - 1 - (int i + 1) * s)"

definition seasonalTerm ::
  "float64 list \<Rightarrow> float64 list \<Rightarrow> int \<Rightarrow> float64 option \<Rightarrow> nat \<Rightarrow> float64 option" where
  "seasonalTerm cs xs s a i =
     (let idx = seasonalIdx xs s i
      in if idx \<ge> 0 \<and> idx < int (length xs)
         then (case a of
                 Some a \<Rightarrow> if i < length cs then Some (a + cs ! i * xs ! nat idx) else None
               | None \<Rightarrow> None)
         else a)"

definition seasonalDot :: "float64 list \<Rightarrow> float64 list \<Rightarrow> nat \<Rightarrow> int \<Rightarrow> float64 option" where
  "seasonalDot cs xs n s = foldl (seasonalTerm cs xs s) (Some 0) [0..<n]"

definition sarimaStep :: "float64 \<Rightarrow> int \<Rightarrow> int \<Rightarrow> float64 list \<Rightarrow> nat \<Rightarrow> float64" where
  "sarimaStep base s P ps t =
     (let pred = base * flit (9/10) + last ps * flit (1/10);
          pred = (if s > 0 \<and> int t \<ge> s \<and> P > 0
                  then pred + (ps ! (t - nat s) - base) * flit (3/10) * dampingFactor t else pred)
      in clampPrediction base (damped base pred t))"

definition sarima_Predict :: "ctx \<Rightarrow> SARIMAModel \<Rightarrow> FeatureFrame \<Rightarrow> (model_error, Forecast) outcome" where
  "sarima_Predict ctx m features =
     (case ctx of
        Some e \<Rightarrow> Err (ModelCtx e)
      | None \<Rightarrow>
          if \<not> strained m then Err NotTrained
          else if sstepSec m = 0 then Panic
          else let base = baseValue (slastValues m)
               in case (dotRecent (sarCoeffs m) (slastValues m) (nat (sp m)),
                        seasonalDot (seasonalARCoeffs m) (slastValues m) (nat (sP m)) (ss m),
                        dotRecent (smaCoeffs m) (slastErrors m) (nat (sq m)),
                        seasonalDot (seasonalMACoeffs m) (slastErrors m) (nat (sQ m)) (ss m)) of
                    (Some arPred, Some seasonalARPred, Some maPred, Some seasonalMAPred) \<Rightarrow>
                      let predictions =
                            forecastLoop (sarimaStep base (ss m) (sP m))
                              (clampPrediction base
                                 (base + (arPred + seasonalARPred + maPred + seasonalMAPred) * flit (1/10)))
                              (nat (numSteps (shorizonSec m) (sstepSec m)))
                      in Ok \<lparr>fMetric = smetric m, fValues = predictions, fStepSec = sstepSec m,
                             fHorizon = shorizonSec m,
                             fQuantiles = horizonQuantiles (sresidualStdDev m) predictions\<rparr>
                  | _ \<Rightarrow> Panic)"

section \<open>The contract of the model interface\<close>

lemma sarima_Predict_Ok:
  assumes "sarima_Predict ctx m rows = Ok f"
  obtains first where
    "fValues f = forecastLoop (sarimaStep (baseValue (slastValues m)) (ss m) (sP m))
       (clampPrediction (baseValue (slastValues m)) first) (nat (numSteps (shorizonSec m) (sstepSec m)))"
    "fQuantiles f = horizonQuantiles (sresidualStdDev m) (fValues f)"
  using assms that
  by (auto simp: sarima_Predict_def Let_def split: option.splits if_splits)

lemma sarima_values_clamped:
  assumes "sarima_Predict ctx m rows = Ok f" "\<And>pred. P (clampPrediction (baseValue (slastValues m)) pred)"
  shows "list_all P (fValues f)"
proof (rule sarima_Predict_Ok[OF assms(1)])
  fix first
  assume "fValues f = forecastLoop (sarimaStep (baseValue (slastValues m)) (ss m) (sP m))
    (clampPrediction (baseValue (slastValues m)) first) (nat (numSteps (shorizonSec m) (sstepSec m)))"
  then show ?thesis using forecastLoop_all[where P = P] assms(2) by (simp add: sarimaStep_def Let_def)
qed

interpretation sarima: forecasting_model "sarima_Predict ctx" "\<lambda>m. \<not> baseValue (slastValues m) < Fin (- 50)" for ctx
proof unfold_locales
  fix m rows f
  assume ok: "sarima_Predict ctx m rows = Ok f"
  show "quantiles_aligned f"
    by (rule sarima_Predict_Ok[OF ok]) (auto simp: quantiles_aligned_def list_all_iff dest: horizonQuantiles_aligned)
  assume "\<not> baseValue (slastValues m) < Fin (- 50)"
  then show "list_all not_negative (fValues f)" by (intro sarima_values_clamped[OF ok] clampPrediction_nonneg)
qed

section \<open>Shapes\<close>

lemma length_fitSeasonalAR: "0 < P \<Longrightarrow> 0 < s \<Longrightarrow> length (fitSeasonalAR centered P s) = nat P"
  by (auto simp: fitSeasonalAR_def length_levinsonDurbin split: outcome.splits)

lemma length_seasonalMALoop: "length (seasonalMALoop residuals s i n) = n"
  by (induction residuals s i n rule: seasonalMALoop.induct) (auto simp: Let_def)

lemma length_computeSeasonalResiduals:
  "computeSeasonalResiduals centered ar sar p P s = Some res \<Longrightarrow>
   length res = length centered - nat (max p (wrap64 (P * s)))"
  by (auto simp: computeSeasonalResiduals_def Let_def split: if_splits)

lemma computeSeasonalResiduals_in_range:
  assumes "0 \<le> P" "0 < s" "P * s < 2 ^ 62" "int (length centered) < 2 ^ 62" "length sar \<le> nat P"
  shows "\<exists>res. computeSeasonalResiduals centered ar sar p P s = Some res"
proof -
  have "residualIdx s t i < int (length centered)" if t: "t < length centered" and i: "i < nat P" for t i
  proof -
    have "0 < (int i + 1) * s" using assms(2) by simp
    moreover have "(int i + 1) * s \<le> P * s" using i assms(2) by (intro mult_right_mono) auto
    ultimately have "int64 (int t - (int i + 1) * s)" using assms(3,4) t by (simp add: int64_def)
    then show ?thesis using \<open>0 < (int i + 1) * s\<close> t unfolding residualIdx_def by simp
  qed
  then show ?thesis using assms(5) by (auto simp: computeSeasonalResiduals_def Let_def list_all_iff)
qed

lemma seasonalDot_Some:
  assumes "n \<le> length cs"
  shows "\<exists>x. seasonalDot cs xs n s = Some x"
proof -
  have "seasonalDot cs xs n s \<noteq> None"
    unfolding seasonalDot_def
    by (rule foldl_invariant[where P = "\<lambda>a. a \<noteq> None"])
      (use assms in \<open>auto simp: seasonalTerm_def Let_def split: option.splits\<close>)
  then show ?thesis by simp
qed

lemma seasonalDot_Nil: "seasonalDot cs [] n s = Some 0"
proof -
  have "foldl (seasonalTerm cs [] s) (Some 0) is = Some 0" for "is"
    by (induction "is") (auto simp: seasonalTerm_def Let_def)
  then show ?thesis by (simp add: seasonalDot_def)
qed

lemma length_keepLast: "0 < k \<Longrightarrow> k \<le> int (length xs) \<Longrightarrow> length (keepLast k xs old) = nat k"
  by (simp add: keepLast_def length_lastN min_def nat_le_iff)

section \<open>Training\<close>

definition sarima_params :: "SARIMAModel \<Rightarrow> bool" where
  "sarima_params m \<longleftrightarrow> 0 < sp m \<and> 0 < sd m \<and> 0 < sq m \<and> 0 \<le> sP m \<and> 0 \<le> sD m \<and> 0 \<le> sQ m \<and>
     (0 < sP m \<or> 0 < sD m \<or> 0 < sQ m \<longrightarrow> 0 < ss m) \<and> 0 < sstepSec m"

lemma NewSARIMAModel_params:
  "NewSARIMAModel metric step horizon p d q P D Q s = Ok m \<Longrightarrow> sarima_params m \<and> slastErrors m = [] \<and>
     shorizonSec m = horizon \<and> sstepSec m = step \<and> sD m = D \<and> ss m = s \<and> sP m = P \<and> sQ m = Q"
  by (auto simp: NewSARIMAModel_def sarima_params_def split: if_splits)

text \<open>The history is long enough for the orders and the period.\<close>

definition enough_history :: "SARIMAModel \<Rightarrow> int \<Rightarrow> bool" where
  "enough_history m n \<longleftrightarrow> 20 \<le> n \<and> n < 2 ^ 60 \<and> sp m + sd m \<le> n \<and> sq m + sd m \<le> n \<and>
     (0 < sP m \<or> 0 < sD m \<or> 0 < sQ m \<longrightarrow>
        ss m * sP m + ss m * sD m \<le> n \<and> ss m * sQ m + ss m * sD m \<le> n \<and> 2 * ss m \<le> n)"

lemma seasonal_products:
  assumes "sarima_params m" "enough_history m n"
  shows "0 \<le> ss m * sP m" "ss m * sP m \<le> n" "0 \<le> ss m * sQ m" "ss m * sQ m \<le> n"
    "wrap64 (ss m * sP m) = ss m * sP m" "wrap64 (ss m * sQ m) = ss m * sQ m"
proof -
  have *: "0 \<le> ss m * sP m \<and> ss m * sP m \<le> n \<and> 0 \<le> ss m * sQ m \<and> ss m * sQ m \<le> n"
  proof (cases "0 < sP m \<or> 0 < sD m \<or> 0 < sQ m")
    case True
    then have s: "0 < ss m" using assms(1) by (simp add: sarima_params_def)
    then have "0 \<le> ss m * sP m" "0 \<le> ss m * sQ m" "0 \<le> ss m * sD m" using assms(1) by (simp_all add: sarima_params_def)
    then show ?thesis using assms(2) True unfolding enough_history_def by linarith
  next
    case False
    then have "sP m = 0" "sQ m = 0" using assms(1) by (auto simp: sarima_params_def)
    then show ?thesis using assms(2) by (simp add: enough_history_def)
  qed
  then show "0 \<le> ss m * sP m" "ss m * sP m \<le> n" "0 \<le> ss m * sQ m" "ss m * sQ m \<le> n" by simp_all
  show "wrap64 (ss m * sP m) = ss m * sP m" "wrap64 (ss m * sQ m) = ss m * sQ m"
    using * assms(2) by (auto intro!: wrap64_id simp: int64_def enough_history_def)
qed

lemma sarimaMinPoints_le:
  assumes "sarima_params m" "enough_history m n"
  shows "sarimaMinPoints m \<le> n"
proof -
  have w: "wrap64 k \<le> n" if "0 \<le> k" "k \<le> n" for k using wrap64_le[of k] that by simp
  have "seasonalMin m \<le> n"
  proof (cases "0 < sP m \<or> 0 < sD m \<or> 0 < sQ m")
    case True
    then have s: "0 < ss m" using assms(1) by (simp add: sarima_params_def)
    then have "0 \<le> ss m * sP m" "0 \<le> ss m * sQ m" "0 \<le> ss m * sD m" using assms(1) by (simp_all add: sarima_params_def)
    then show ?thesis using assms(2) True s unfolding enough_history_def
      by (auto simp: seasonalMin_def Let_def intro!: w)
  next
    case False
    then have "sP m = 0" "sQ m = 0" "sD m = 0" using assms(1) by (auto simp: sarima_params_def)
    then show ?thesis using assms(2) by (auto simp: seasonalMin_def Let_def enough_history_def intro!: w)
  qed
  moreover have "wrap64 (sp m + sd m) \<le> n" "wrap64 (sq m + sd m) \<le> n"
    using assms by (auto intro!: w simp: sarima_params_def enough_history_def)
  ultimately show ?thesis using assms(2) by (simp add: sarimaMinPoints_def enough_history_def)
qed

lemma length_stationarySeries: "0 \<le> sd m \<Longrightarrow> length (stationarySeries m vs) \<le> length vs - nat (sd m)"
proof -
  have "length (seasonalDifference xs D s) \<le> length xs" for xs :: "float64 list" and D s
    by (induction xs D s rule: seasonalDifference.induct) (subst seasonalDifference.simps, force simp: Let_def)
  from this[of "difference vs (sd m)" "sD m" "ss m"] show "0 \<le> sd m \<Longrightarrow> ?thesis"
    by (simp add: stationarySeries_def Let_def length_difference)
qed

lemma sarima_Train_Ok:
  assumes m: "sarima_params m" and rows: "list_all (\<lambda>row. map_of row ''value'' \<noteq> None) history"
    "enough_history m (int (length history))"
  obtains m' vs res where "sarima_Train None history m = Ok m'" "strained m'" "rowValues 0 history = Ok vs"
    "sp m' = sp m" "sP m' = sP m" "sq m' = sq m" "sQ m' = sQ m" "ss m' = ss m"
    "sstepSec m' = sstepSec m" "shorizonSec m' = shorizonSec m"
    "length (sarCoeffs m') = nat (sp m)" "length (seasonalARCoeffs m') = nat (sP m)"
    "length (slastValues m') = nat (max (sp m) (ss m * sP m))"
    "length (smaCoeffs m') = (if res = [] then 0 else nat (sq m))"
    "length (seasonalMACoeffs m') = (if res = [] then 0 else nat (sQ m))"
    "slastErrors m' = keepLast (max (sq m) (ss m * sQ m)) res (slastErrors m)"
    "length res = length (stationarySeries m vs) - nat (max (sp m) (ss m * sP m))"
proof -
  obtain vs where vs: "rowValues 0 history = Ok vs" using rows(1) rowValues_Ok_iff by blast
  have len: "length vs = length history" by (rule length_rowValues[OF vs])
  note P = m[unfolded sarima_params_def] and S = seasonal_products[OF m rows(2)]
  have enough: "\<not> int (length vs) < sarimaMinPoints m" using sarimaMinPoints_le[OF m rows(2)] len by simp
  define c where "c = centre (stationarySeries m vs)"
  define sar where "sar = (if sP m > 0 \<and> ss m > 0 then fitSeasonalAR c (sP m) (ss m) else [])"
  have sar: "length sar = nat (sP m)" using P by (auto simp: sar_def length_fitSeasonalAR)
  have c: "length c = length (stationarySeries m vs)" "length c \<le> length history"
    using length_stationarySeries[of m vs] P len by (simp_all add: c_def centre_def)
  have "\<exists>res. computeSeasonalResiduals c (fitAR c (nat (sp m))) sar (sp m) (sP m) (ss m) = Some res"
  proof (cases "0 < sP m")
    case True
    then show ?thesis using S P rows(2) c(2) sar
      by (intro computeSeasonalResiduals_in_range) (auto simp: enough_history_def mult.commute)
  next
    case False
    then have "sar = []" using sar by simp
    then show ?thesis by (simp add: computeSeasonalResiduals_def Let_def list_all_iff)
  qed
  then obtain res where res: "computeSeasonalResiduals c (fitAR c (nat (sp m))) sar (sp m) (sP m) (ss m) = Some res" ..
  have "length res = length c - nat (max (sp m) (ss m * sP m))"
    using length_computeSeasonalResiduals[OF res] S(5) by (simp add: mult.commute)
  moreover have "length (if sQ m > 0 \<and> ss m > 0 then fitSeasonalMA res (sQ m) (ss m) else []) = (if res = [] then 0 else nat (sQ m))"
    using P by (auto simp: fitSeasonalMA_def length_seasonalMALoop)
  moreover have "length (keepLast (max (sp m) (ss m * sP m)) vs (slastValues m)) = nat (max (sp m) (ss m * sP m))"
    using P S(2) rows(2) len by (auto simp: keepLast_def length_lastN enough_history_def)
  moreover have "sarima_Train None history m =
      Ok (m\<lparr>slastValues := keepLast (max (sp m) (ss m * sP m)) vs (slastValues m),
             slastErrors := keepLast (max (sq m) (ss m * sQ m)) res (slastErrors m),
             strained := True, sarCoeffs := fitAR c (nat (sp m)), smaCoeffs := fitMA res (nat (sq m)),
             seasonalARCoeffs := sar,
             seasonalMACoeffs := (if sQ m > 0 \<and> ss m > 0 then fitSeasonalMA res (sQ m) (ss m) else []),
             smean := computeMean conv64 (stationarySeries m vs),
             sresidualStdDev := residualDeviation res\<rparr>)"
    unfolding sarima_Train_def option.case vs bind_outcome.simps Let_def c_def[symmetric] sar_def[symmetric] res S(5,6)
      if_not_P[OF enough] ..
  ultimately show ?thesis using that[OF _ _ vs, where res = res] sar c(1) by (simp add: length_fitMA)
qed

section \<open>Prediction\<close>

lemma sarima_Predict_outcome:
  assumes "strained m" "sstepSec m \<noteq> 0" "length (sarCoeffs m) = nat (sp m)" "length (seasonalARCoeffs m) = nat (sP m)"
  shows "length (smaCoeffs m) < min (nat (sq m)) (length (slastErrors m)) \<Longrightarrow> sarima_Predict None m rows = Panic"
    and "nat (sq m) \<le> length (smaCoeffs m) \<and> nat (sQ m) \<le> length (seasonalMACoeffs m) \<or> slastErrors m = [] \<Longrightarrow>
         \<exists>f. sarima_Predict None m rows = Ok f \<and> int (length (fValues f)) = numSteps (shorizonSec m) (sstepSec m)"
proof -
  obtain ar where ar: "dotRecent (sarCoeffs m) (slastValues m) (nat (sp m)) = Some ar"
    using dotRecent_None_iff[of "sarCoeffs m" "slastValues m" "nat (sp m)"] assms(3) by auto
  obtain sar where sar: "seasonalDot (seasonalARCoeffs m) (slastValues m) (nat (sP m)) (ss m) = Some sar"
    using seasonalDot_Some[of "nat (sP m)" "seasonalARCoeffs m"] assms(4) by auto
  note D = dotRecent_None_iff[of "smaCoeffs m" "slastErrors m" "nat (sq m)"]
  show "sarima_Predict None m rows = Panic" if "length (smaCoeffs m) < min (nat (sq m)) (length (slastErrors m))"
    using that assms(1,2) ar sar D by (simp add: sarima_Predict_def Let_def)
  assume A: "nat (sq m) \<le> length (smaCoeffs m) \<and> nat (sQ m) \<le> length (seasonalMACoeffs m) \<or> slastErrors m = []"
  obtain ma where ma: "dotRecent (smaCoeffs m) (slastErrors m) (nat (sq m)) = Some ma" using A D by auto
  obtain sma where sma: "seasonalDot (seasonalMACoeffs m) (slastErrors m) (nat (sQ m)) (ss m) = Some sma"
    using A seasonalDot_Some[of "nat (sQ m)" "seasonalMACoeffs m" "slastErrors m" "ss m"] seasonalDot_Nil by auto
  show "\<exists>f. sarima_Predict None m rows = Ok f \<and> int (length (fValues f)) = numSteps (shorizonSec m) (sstepSec m)"
    using assms(1,2) ar sar ma sma numSteps_length[of "shorizonSec m" "sstepSec m"]
    by (simp add: sarima_Predict_def Let_def length_forecastLoop)
qed

lemma seasonalDot_last_unused:
  assumes "0 < s" "0 < P" "int (length xs) \<le> s * P" "s * P < 2 ^ 60" "take (nat P - 1) cs = take (nat P - 1) cs'"
    "length cs = length cs'"
  shows "seasonalDot cs xs (nat P) s = seasonalDot cs' xs (nat P) s"
  unfolding seasonalDot_def
proof (rule foldl_cong[OF refl refl])
  fix a i assume "i \<in> set [0..<nat P]"
  then have i: "i < nat P" by simp
  show "seasonalTerm cs xs s a i = seasonalTerm cs' xs s a i"
  proof (cases "i < nat P - 1")
    case True
    then have "i < length cs \<Longrightarrow> cs ! i = cs' ! i" using assms(5) by (metis nth_take)
    then show ?thesis using assms(6) by (auto simp: seasonalTerm_def Let_def split: option.splits)
  next
    case False
    then have "int i + 1 = P" using i by simp
    then have "int (length xs) - 1 - (int i + 1) * s = int (length xs) - 1 - s * P" by (simp add: mult.commute)
    moreover have "int64 (int (length xs) - 1 - s * P)" using assms(1-4) by (simp add: int64_def)
    ultimately have "seasonalIdx xs s i = int (length xs) - 1 - s * P" unfolding seasonalIdx_def by (metis wrap64_id)
    then have "seasonalIdx xs s i < 0" using assms(3) by simp
    then show ?thesis by (simp add: seasonalTerm_def Let_def)
  qed
qed

lemma length_seasonalDifference_once:
  "0 < s \<Longrightarrow> s < int (length xs) \<Longrightarrow> length (seasonalDifference xs 1 s) = length xs - nat s"
  by (subst seasonalDifference.simps) (simp add: Let_def)

lemma residual_count:
  assumes "sarima_params m" "sD m = 1" "sd m + ss m < int (length vs)"
  shows "length (stationarySeries m vs) = length vs - nat (sd m) - nat (ss m)"
  using assms length_seasonalDifference_once[of "ss m" "difference vs (sd m)"] length_difference[of "sd m" vs]
  by (auto simp: stationarySeries_def Let_def sarima_params_def)

section \<open>What the model guarantees\<close>

text \<open>
  A freshly trained SARIMA model predicts. For every accepted parameter set and every history with
  a value in each row that is long enough for the orders and the period, training succeeds and the
  prediction that follows returns a forecast of \<open>horizon / step\<close> values.
\<close>

lemma sarima_train_predict:
  assumes "NewSARIMAModel metric step horizon p d q P D Q s = Ok m"
    "list_all (\<lambda>row. map_of row ''value'' \<noteq> None) history" "enough_history m (int (length history))"
  shows "\<exists>m' f. sarima_Train None history m = Ok m' \<and> sarima_Predict None m' rows = Ok f \<and>
           int (length (fValues f)) = numSteps horizon step"
proof -
  note N = NewSARIMAModel_params[OF assms(1)]
  then have m: "sarima_params m" "0 < sq m" "sstepSec m \<noteq> 0" by (auto simp: sarima_params_def)
  show ?thesis
  proof (rule sarima_Train_Ok[OF m(1) assms(2,3)])
    fix m' vs res
    assume A: "sarima_Train None history m = Ok m'" "strained m'" "sp m' = sp m" "sP m' = sP m" "sq m' = sq m"
      "sQ m' = sQ m" "sstepSec m' = sstepSec m" "shorizonSec m' = shorizonSec m"
      "length (sarCoeffs m') = nat (sp m)" "length (seasonalARCoeffs m') = nat (sP m)"
      "length (smaCoeffs m') = (if res = [] then 0 else nat (sq m))"
      "length (seasonalMACoeffs m') = (if res = [] then 0 else nat (sQ m))"
      "slastErrors m' = keepLast (max (sq m) (ss m * sQ m)) res (slastErrors m)"
    have "res \<noteq> [] \<or> slastErrors m' = []" using A(13) N m(2) by (auto simp: keepLast_def)
    then have "nat (sq m') \<le> length (smaCoeffs m') \<and> nat (sQ m') \<le> length (seasonalMACoeffs m') \<or> slastErrors m' = []"
      using A by auto
    from sarima_Predict_outcome(2)[OF A(2) _ _ _ this, of rows] A m(3) N show ?thesis by auto
  qed
qed

text \<open>
  C34: the last seasonal autoregressive coefficient is dead. When the seasonal window covers the
  non-seasonal one (\<open>p\<close> not above \<open>s * P\<close>), changing the last of the \<open>P\<close> seasonal coefficients of a
  trained model changes no prediction: the value one period back is looked up one place too early, before
  the start of the kept values. With \<open>P = 1\<close> the model has no seasonal autoregression at all.
\<close>

theorem sarima_last_season_unused:
  assumes "sarima_params m" "list_all (\<lambda>row. map_of row ''value'' \<noteq> None) history"
    "enough_history m (int (length history))" "0 < sP m" "sp m \<le> ss m * sP m"
    "length cs = nat (sP m)" "take (nat (sP m) - 1) cs = take (nat (sP m) - 1) (seasonalARCoeffs m')"
    "sarima_Train None history m = Ok m'"
  shows "sarima_Predict ctx (m'\<lparr>seasonalARCoeffs := cs\<rparr>) rows = sarima_Predict ctx m' rows"
proof (rule sarima_Train_Ok[OF assms(1-3)])
  fix m'' vs res
  assume A: "sarima_Train None history m = Ok m''" "sP m'' = sP m" "ss m'' = ss m"
    "length (seasonalARCoeffs m'') = nat (sP m)" "length (slastValues m'') = nat (max (sp m) (ss m * sP m))"
  have s: "0 < ss m" "ss m * sP m < 2 ^ 60" and eq: "m'' = m'"
    using assms(1,3,4,8) A(1) seasonal_products(2)[OF assms(1,3)]
    by (auto simp: sarima_params_def enough_history_def)
  have "seasonalDot cs (slastValues m') (nat (sP m)) (ss m) =
      seasonalDot (seasonalARCoeffs m') (slastValues m') (nat (sP m)) (ss m)"
    using s assms(4-7) A eq seasonal_products(1)[OF assms(1,3)] by (intro seasonalDot_last_unused) auto
  then show ?thesis using A eq by (cases ctx) (auto simp: sarima_Predict_def Let_def split: option.split)
qed

text \<open>
  C35: retraining on a shorter history can crash the forecaster. With seasonal differencing, a fresh
  model trained on a long history predicts; trained again on a history that is accepted but leaves no
  residuals, it reports success, drops its moving-average coefficients and keeps the errors of the first
  training, and the next prediction panics.
\<close>

theorem sarima_retrain_panics:
  assumes "NewSARIMAModel metric step horizon p d q P 1 Q s = Ok m"
    "list_all (\<lambda>row. map_of row ''value'' \<noteq> None) long" "enough_history m (int (length long))"
    "sd m + s + max (sp m) (s * P) + max (sq m) (s * Q) \<le> int (length long)"
    "list_all (\<lambda>row. map_of row ''value'' \<noteq> None) short" "enough_history m (int (length short))"
    "sd m + s < int (length short)" "int (length short) \<le> sd m + s + max (sp m) (s * P)"
  shows "\<exists>m1 m2. sarima_Train None long m = Ok m1 \<and> sarima_Train None short m1 = Ok m2 \<and>
           sarima_Predict None m2 rows = Panic"
proof -
  have new: "sD m = 1" "ss m = s" "sP m = P" "sQ m = Q" and par: "sarima_params m"
    using NewSARIMAModel_params[OF assms(1)] by simp_all
  then have s: "0 < s" "0 < sq m" "0 < sd m" "sstepSec m \<noteq> 0" by (auto simp: sarima_params_def)
  obtain m1 vs1 res1 where 1: "sarima_Train None long m = Ok m1" "rowValues 0 long = Ok vs1"
      "slastErrors m1 = keepLast (max (sq m) (ss m * sQ m)) res1 (slastErrors m)"
      "length res1 = length (stationarySeries m vs1) - nat (max (sp m) (ss m * sP m))"
    and m1: "sp m1 = sp m" "sP m1 = sP m" "sq m1 = sq m" "sQ m1 = sQ m" "ss m1 = ss m" "sstepSec m1 = sstepSec m"
    by (rule sarima_Train_Ok[OF par assms(2,3)]) blast
  have m1': "sd m1 = sd m" "sD m1 = sD m"
    using 1(1,2) by (auto simp: sarima_Train_def Let_def split: if_splits option.splits)
  have vs1: "length vs1 = length long" by (rule length_rowValues[OF 1(2)])
  have "0 < sp m" using par by (simp add: sarima_params_def)
  then have lt: "sd m + s < int (length long)" using assms(4) s(2) by linarith
  have "length res1 = length long - nat (sd m) - nat s - nat (max (sp m) (s * P))"
    using 1(4) residual_count[OF par new(1), of vs1] new vs1 lt by simp
  moreover have "max (sq m) (s * Q) \<le> int (n - nat a - nat b - nat c)"
    if "a + b + c + max (sq m) (s * Q) \<le> int n" "0 < a" "0 < b" "0 < c" for n a b c
    using that by linarith
  moreover have "0 < max (sp m) (s * P)" using \<open>0 < sp m\<close> by simp
  ultimately have "max (sq m) (s * Q) \<le> int (length res1)" using assms(4) s by presburger
  then have errs: "length (slastErrors m1) = nat (max (sq m) (s * Q))"
    using 1(3) length_keepLast[of "max (sq m) (s * Q)" res1] s(2) new by simp
  have par1: "sarima_params m1" "enough_history m1 (int (length short))"
    using par assms(6) m1 m1' by (simp_all add: sarima_params_def enough_history_def)
  obtain m2 vs2 res2 where 2: "sarima_Train None short m1 = Ok m2" "rowValues 0 short = Ok vs2"
      "slastErrors m2 = keepLast (max (sq m1) (ss m1 * sQ m1)) res2 (slastErrors m1)"
      "length res2 = length (stationarySeries m1 vs2) - nat (max (sp m1) (ss m1 * sP m1))" "strained m2"
    and m2: "sp m2 = sp m1" "sP m2 = sP m1" "sq m2 = sq m1" "sstepSec m2 = sstepSec m1"
      "length (sarCoeffs m2) = nat (sp m1)" "length (seasonalARCoeffs m2) = nat (sP m1)"
      "length (smaCoeffs m2) = (if res2 = [] then 0 else nat (sq m1))"
    by (rule sarima_Train_Ok[OF par1(1) assms(5) par1(2)]) blast
  have vs2: "length vs2 = length short" by (rule length_rowValues[OF 2(2)])
  have "length res2 = length short - nat (sd m) - nat s - nat (max (sp m) (s * P))"
    using 2(4) residual_count[OF par1(1), of vs2] new m1 m1' vs2 assms(7) by simp
  then have "length res2 = 0" using assms(8) s(1,3) by linarith
  then have "res2 = []" by simp
  then have "slastErrors m2 = slastErrors m1" "length (smaCoeffs m2) = 0" using 2(3) m1(3) m2(7) s(2)
    by (simp_all add: keepLast_def)
  then have "sarima_Predict None m2 rows = Panic"
    using 2(5) m2 m1 errs s(2,4) by (intro sarima_Predict_outcome(1)) auto
  then show ?thesis using 1(1) 2(1) by blast
qed

section \<open>Concrete runs\<close>

definition sample_sarima :: SARIMAModel where
  "sample_sarima = (case NewSARIMAModel ''rps'' 60 180 1 1 1 1 1 1 10 of Ok m \<Rightarrow> m)"

lemma sample_sarima:
  "NewSARIMAModel ''rps'' 60 180 1 1 1 1 1 1 10 = Ok sample_sarima" "sarima_params sample_sarima"
  "sp sample_sarima = 1" "sd sample_sarima = 1" "sq sample_sarima = 1" "sP sample_sarima = 1"
  "sD sample_sarima = 1" "sQ sample_sarima = 1" "ss sample_sarima = 10"
  by (simp_all add: sample_sarima_def NewSARIMAModel_def sarima_params_def)

lemma load_history_rows:
  "list_all (\<lambda>row. map_of row ''value'' \<noteq> None) (load_history xs)" "length (load_history xs) = length xs"
  by (simp_all add: load_history_def list_all_iff)

lemma sample_enough: "20 \<le> n \<Longrightarrow> n < 2 ^ 60 \<Longrightarrow> enough_history sample_sarima n"
  by (simp add: enough_history_def sample_sarima)

theorem sarima_last_season_unused_witness:
  "\<exists>m'. sarima_Train None (load_history [1..24]) sample_sarima = Ok m' \<and>
     sarima_Predict None (m'\<lparr>seasonalARCoeffs := [flit 7]\<rparr>) [] = sarima_Predict None m' []"
proof -
  have e: "enough_history sample_sarima (int (length (load_history [1..24])))"
    by (simp add: load_history_rows sample_enough)
  obtain m' where m': "sarima_Train None (load_history [1..24]) sample_sarima = Ok m'"
    by (rule sarima_Train_Ok[OF sample_sarima(2) load_history_rows(1) e])
  from sarima_last_season_unused[OF sample_sarima(2) load_history_rows(1) e _ _ _ _ m', of "[flit 7]" None "[]"] m'
  show ?thesis by (simp add: sample_sarima)
qed

theorem sarima_retrain_panics_witness:
  "\<exists>m1 m2. sarima_Train None (load_history [1..40]) sample_sarima = Ok m1 \<and>
     sarima_Train None (load_history [21..40]) m1 = Ok m2 \<and> sarima_Predict None m2 [] = Panic"
  using sarima_retrain_panics[OF sample_sarima(1) load_history_rows(1) _ _ load_history_rows(1), of "[1..40]" "[21..40]" "[]"]
  by (simp add: load_history_rows sample_enough sample_sarima)

end
