(* ===== verification/Byom.thy ===== *)
theory Byom
  imports Models Http
begin

text \<open>
  The model that delegates to an external HTTP service, \<open>src/pkg/models/byom.go\<close>. The service is the
  parameter \<open>send\<close>: any function from the endpoint and the JSON request to a reply.
\<close>

section \<open>The model\<close>

record BYOMModel =
  yendpoint :: string
  ymetric :: string
  ystepSec :: int
  yhorizon :: int

definition NewBYOMModel :: "string \<Rightarrow> string \<Rightarrow> int \<Rightarrow> int \<Rightarrow> BYOMModel" where
  "NewBYOMModel endpoint metric stepSec horizon =
     \<lparr>yendpoint = endpoint, ymetric = metric, ystepSec = stepSec, yhorizon = horizon\<rparr>"

definition byom_Name :: "BYOMModel \<Rightarrow> string" where
  "byom_Name m = ''byom''"

definition byom_Train :: "FeatureFrame \<Rightarrow> BYOMModel \<Rightarrow> (model_error, BYOMModel) outcome" where
  "byom_Train history m = Ok m"

text \<open>The request; a feature that is not a finite number cannot be encoded.\<close>

definition enc_row :: "feature_row \<Rightarrow> json option" where
  "enc_row row = map_option JObj (those (map (\<lambda>(k, v). map_option (\<lambda>j. (k, j)) (enc_float v)) row))"

definition byomRequest :: "Time \<Rightarrow> BYOMModel \<Rightarrow> FeatureFrame \<Rightarrow> json option" where
  "byomRequest now m features =
     map_option (\<lambda>rows. JObj [(''now'', JStr (format_rfc3339 (time_UTC now))),
                              (''horizonSeconds'', JInt (yhorizon m)),
                              (''stepSeconds'', JInt (ystepSec m)),
                              (''features'', JArr rows)])
       (those (map enc_row features))"

text \<open>The response: its metric name is read and not used.\<close>

definition byomResponse_field :: "string \<Rightarrow> json \<Rightarrow> string \<times> float64 list \<Rightarrow> (string \<times> float64 list) option" where
  "byomResponse_field k v r =
     (if eqFold k ''metric'' then map_option (\<lambda>s. (s, snd r)) (dec_string (fst r) v)
      else if eqFold k ''values'' then map_option (\<lambda>vs. (fst r, vs)) (dec_list (dec_float 0) v)
      else Some r)"

definition byomResponse :: "json \<Rightarrow> (string \<times> float64 list) option" where
  "byomResponse j = dec_object byomResponse_field ([], []) j"

definition byom_Predict ::
  "(string \<Rightarrow> json \<Rightarrow> json option http_reply) \<Rightarrow> Time \<Rightarrow> BYOMModel \<Rightarrow> FeatureFrame \<Rightarrow> (model_error, Forecast) outcome" where
  "byom_Predict send now m features =
     (if features = [] then Err FeaturesEmpty
      else case byomRequest now m features of
        None \<Rightarrow> Err ByomMarshal
      | Some body \<Rightarrow>
          (case send (yendpoint m) body of
             RequestInvalid \<Rightarrow> Err ByomRequest
           | NoResponse \<Rightarrow> Err ByomDo
           | Response status text \<Rightarrow>
               if status \<noteq> StatusOK then Err (ByomStatus status)
               else case Option.bind text byomResponse of
                      None \<Rightarrow> Err ByomDecode
                    | Some (_, vs) \<Rightarrow>
                        if ystepSec m = 0 then Panic
                        else let expectedLen = wrap64 (yhorizon m sdiv ystepSec m)
                             in if int (length vs) \<noteq> expectedLen then Err (ByomLength expectedLen (int (length vs)))
                                else Ok \<lparr>fMetric = ymetric m, fValues = map (\<lambda>v. if v < 0 then 0 else v) vs,
                                         fStepSec = ystepSec m, fHorizon = yhorizon m, fQuantiles = None\<rparr>))"

lemma div_le_dividend_int: "0 \<le> a \<Longrightarrow> 0 < b \<Longrightarrow> a div b \<le> (a :: int)"
  using zdiv_mono2[of a 1 b] by simp

section \<open>The contract of the model interface\<close>

lemma byom_Predict_Ok:
  assumes "byom_Predict send now m rows = Ok f"
  shows "list_all not_negative (fValues f)" "fQuantiles f = None"
    "int (length (fValues f)) = wrap64 (yhorizon m sdiv ystepSec m)" "ystepSec m \<noteq> 0" "rows \<noteq> []"
  using assms
  by (auto simp: byom_Predict_def Let_def list_all_iff not_negative_def
      split: if_splits option.splits http_reply.splits)

interpretation byom: forecasting_model "byom_Predict send now" "\<lambda>_. True" for send now
  by unfold_locales (auto dest: byom_Predict_Ok simp: quantiles_aligned_def)

section \<open>What the service decides\<close>

text \<open>A service that answers every request with the same values.\<close>

definition replying :: "int \<Rightarrow> float64 list \<Rightarrow> string \<Rightarrow> json \<Rightarrow> json option http_reply" where
  "replying status vs endpoint body =
     Response status (Some (JObj [(''metric'', JStr ''m''), (''values'', JArr (map JFloat vs))]))"

lemma byomResponse_replying:
  "byomResponse (JObj [(''metric'', JStr ''m''), (''values'', JArr (map JFloat vs))]) = Some (''m'', vs)"
proof -
  have names: "eqFold ''metric'' ''metric''" "\<not> eqFold ''values'' ''metric''" "eqFold ''values'' ''values''"
    by code_simp+
  show ?thesis by (simp add: byomResponse_def dec_object_def byomResponse_field_def names del: dec_list.simps)
qed

text \<open>
  C28: the forecast of an external model is its answer, clamped. When the features are finite numbers
  and the service answers 200 with a list of values, the prediction is that list with the negative
  values replaced by zero, provided it has exactly \<open>horizon / step\<close> entries; otherwise it is the length
  error that names both numbers.
\<close>

theorem byom_prediction_exact:
  assumes "rows \<noteq> []" "list_all (list_all (\<lambda>(k, v). finite64 v)) rows" "0 < ystepSec m" "0 \<le> yhorizon m"
    "int64 (yhorizon m)"
  shows "byom_Predict (replying 200 vs) now m rows =
    (if int (length vs) = yhorizon m div ystepSec m
     then Ok \<lparr>fMetric = ymetric m, fValues = map (\<lambda>v. if v < 0 then 0 else v) vs, fStepSec = ystepSec m,
             fHorizon = yhorizon m, fQuantiles = None\<rparr>
     else Err (ByomLength (yhorizon m div ystepSec m) (int (length vs))))"
proof -
  have row: "\<exists>j. enc_row row = Some j" if "list_all (\<lambda>(k, v). finite64 v) row" for row
  proof -
    have "map (\<lambda>(k, v). map_option (\<lambda>j. (k, j)) (enc_float v)) row = map (\<lambda>x. Some (fst x, JFloat (snd x))) row"
      using that by (auto simp: list_all_iff enc_float_def)
    then show ?thesis unfolding enc_row_def by (simp only: those_map_Some option.map) blast
  qed
  have "\<exists>js. those (map enc_row rows) = Some js" using assms(2)
  proof (induction rows)
    case (Cons r rs)
    then show ?case using row[of r] by auto
  qed simp
  then obtain body where body: "byomRequest now m rows = Some body" by (auto simp: byomRequest_def)
  have "yhorizon m div ystepSec m \<le> yhorizon m" "0 \<le> yhorizon m div ystepSec m"
    using assms(3,4) div_le_dividend_int[of "yhorizon m" "ystepSec m"] by (simp_all add: pos_imp_zdiv_nonneg_iff)
  then have "wrap64 (yhorizon m sdiv ystepSec m) = yhorizon m div ystepSec m"
    using assms(3-5) by (simp add: sdiv_nonneg int64_nonneg_le)
  then show ?thesis using assms(1,3) body
    by (simp add: byom_Predict_def replying_def byomResponse_replying Let_def)
qed

definition epoch :: Time where
  "epoch = unix_utc 0 0"

definition sample_byom :: BYOMModel where
  "sample_byom = NewBYOMModel ''http://m'' ''rps'' 60 120"

theorem byom_prediction_exact_witness:
  "byom_Predict (replying 200 [Fin 5, Fin (- 2)]) epoch sample_byom [[(''value'', Fin 1)]] =
     Ok \<lparr>fMetric = ''rps'', fValues = [Fin 5, Fin 0], fStepSec = 60, fHorizon = 120, fQuantiles = None\<rparr> \<and>
   byom_Predict (replying 200 [Fin 5]) epoch sample_byom [[(''value'', Fin 1)]] = Err (ByomLength 2 1)"
  using byom_prediction_exact[of "[[(''value'', Fin 1)]]" sample_byom "[Fin 5, Fin (- 2)]" epoch]
    byom_prediction_exact[of "[[(''value'', Fin 1)]]" sample_byom "[Fin 5]" epoch]
  by (simp add: sample_byom_def NewBYOMModel_def int64_def)

end
