(* ===== verification/Adapters.thy ===== *)
theory Adapters
  imports Models Http "HOL-Library.AList" "HOL-Library.Multiset"
begin

text \<open>
  The metric adapters of \<open>src/pkg/adapters\<close>: rows, the Prometheus and VictoriaMetrics range queries,
  the generic HTTP adapter, its configuration, and the factory. The servers, the gjson path language,
  the text/template engine and the URL syntax are parameters.
\<close>

section \<open>Rows\<close>

text \<open>The dynamic types a row or a decoded configuration can hold.\<close>

datatype anyval =
    ANil
  | ABool bool
  | AFloat float64
  | AFloat32 float64
  | AInt int
  | AInt32 int
  | AInt64 int
  | AString string
  | ATime Time
  | AMap "(string \<times> anyval) list"
  | AOther

type_synonym Row = "(string \<times> anyval) list"
type_synonym DataFrame = "Row list"

definition AlignTimestamp :: "Time \<Rightarrow> int \<Rightarrow> Time" where
  "AlignTimestamp ts stepSec = time_Truncate ts (wrap64 (stepSec * Second))"

datatype adapter_error =
    MissingField string
  | BadURL
  | BadRequest
  | RequestFailed
  | BadStatus int
  | BodyUnread
  | DecodeFailed
  | StatusField string
  | PairLength nat
  | TimestampType
  | ValueParse num_error
  | ValueType
  | RenderBody
  | RenderHeader string
  | PathMissing string
  | CountMismatch nat nat
  | BadTimestamp nat
  | BadStepSeconds
  | BadHeadersJSON
  | BadVarsJSON
  | UnknownKind string
  | BadFormat string

section \<open>Range queries\<close>

record rangeSerie =
  serieMetric :: "(string \<times> string) list"
  serieValues :: "anyval list list"

record rangeResponse =
  prStatus :: string
  prResultType :: string
  prResult :: "rangeSerie list"

text \<open>A value of dynamic type decodes numbers to \<open>float64\<close>.\<close>

fun dec_any :: "json \<Rightarrow> anyval option" where
  "dec_any JNull = Some ANil"
| "dec_any (JBool b) = Some (ABool b)"
| "dec_any (JInt n) = (if finite64 (i2f n) then Some (AFloat (i2f n)) else None)"
| "dec_any (JFloat x) = Some (AFloat x)"
| "dec_any (JStr s) = Some (AString s)"
| "dec_any _ = Some AOther"

fun dec_strmap :: "json \<Rightarrow> (string \<times> string) list option" where
  "dec_strmap JNull = Some []"
| "dec_strmap (JObj kvs) =
     map_option (foldl (\<lambda>m (k, s). AList.update k s m) [])
       (those (map (\<lambda>(k, v). map_option (\<lambda>s. (k, s)) (dec_string [] v)) kvs))"
| "dec_strmap _ = None"

definition serie_field :: "string \<Rightarrow> json \<Rightarrow> rangeSerie \<Rightarrow> rangeSerie option" where
  "serie_field k v r =
     (if eqFold k ''metric'' then map_option (\<lambda>m. r\<lparr>serieMetric := m\<rparr>) (dec_strmap v)
      else if eqFold k ''values'' then map_option (\<lambda>vs. r\<lparr>serieValues := vs\<rparr>) (dec_list (dec_list dec_any) v)
      else Some r)"

definition data_field :: "string \<Rightarrow> json \<Rightarrow> rangeResponse \<Rightarrow> rangeResponse option" where
  "data_field k v r =
     (if eqFold k ''resultType'' then map_option (\<lambda>s. r\<lparr>prResultType := s\<rparr>) (dec_string (prResultType r) v)
      else if eqFold k ''result''
      then map_option (\<lambda>ss. r\<lparr>prResult := ss\<rparr>)
             (dec_list (dec_object serie_field \<lparr>serieMetric = [], serieValues = []\<rparr>) v)
      else Some r)"

definition response_field :: "string \<Rightarrow> json \<Rightarrow> rangeResponse \<Rightarrow> rangeResponse option" where
  "response_field k v r =
     (if eqFold k ''status'' then map_option (\<lambda>s. r\<lparr>prStatus := s\<rparr>) (dec_string (prStatus r) v)
      else if eqFold k ''data'' then dec_object data_field r v
      else Some r)"

definition dec_response :: "json \<Rightarrow> rangeResponse option" where
  "dec_response j = dec_object response_field \<lparr>prStatus = [], prResultType = [], prResult = []\<rparr> j"

text \<open>One sample: the second it belongs to and its value.\<close>

definition parsePair :: "(float64 \<Rightarrow> int) \<Rightarrow> anyval list \<Rightarrow> (adapter_error, int \<times> float64) outcome" where
  "parsePair cv pair =
     (case pair of
        [t, v] \<Rightarrow>
          (case t of
             AFloat ts \<Rightarrow>
               bind_outcome
                 (case v of
                    AString s \<Rightarrow> wrap_err ValueParse (parseFloat s)
                  | AFloat x \<Rightarrow> Ok x
                  | _ \<Rightarrow> Err ValueType)
                 (\<lambda>val. Ok (f2i cv ts, val))
           | _ \<Rightarrow> Err TimestampType)
      | _ \<Rightarrow> Err (PairLength (length pair)))"

text \<open>The value is added to what its second holds already.\<close>

definition addSample :: "(int \<times> float64) list \<Rightarrow> int \<times> float64 \<Rightarrow> (int \<times> float64) list" where
  "addSample acc s =
     AList.update (fst s) ((case map_of acc (fst s) of Some x \<Rightarrow> x | None \<Rightarrow> 0) + snd s) acc"

definition aggregate ::
  "(float64 \<Rightarrow> int) \<Rightarrow> rangeSerie list \<Rightarrow> (adapter_error, (int \<times> float64) list) outcome" where
  "aggregate cv series =
     foldl (\<lambda>acc pair. bind_outcome acc (\<lambda>acc. bind_outcome (parsePair cv pair) (\<lambda>s. Ok (addSample acc s))))
       (Ok []) (concat (map serieValues series))"

definition AggregateRangeResult ::
  "(float64 \<Rightarrow> int) \<Rightarrow> (nat \<Rightarrow> nat list) \<Rightarrow> rangeSerie list \<Rightarrow> (adapter_error, (Time \<times> float64) list) outcome" where
  "AggregateRangeResult cv order series =
     bind_outcome (aggregate cv series)
       (\<lambda>acc. Ok (map (\<lambda>(ts, v). (unix_utc ts 0, v)) (range_over order acc)))"

text \<open>
  \<open>sort.Slice\<close> by time. The sort is not stable: its result is a stable sort of some rearrangement
  \<open>perm\<close> of the rows.
\<close>

definition sortRows :: "(nat \<Rightarrow> nat list) \<Rightarrow> (Time \<times> float64) list \<Rightarrow> (Time \<times> float64) list" where
  "sortRows perm rows = sort_key (\<lambda>(t, v). tnanos t) (range_over perm rows)"

definition formatRow :: "Time \<times> float64 \<Rightarrow> Row" where
  "formatRow r = (case r of (t, v) \<Rightarrow> [(''ts'', AString (format_rfc3339 (time_UTC t))), (''value'', AFloat v)])"

record RangeRequest =
  rqServer :: string
  rqQuery :: string
  rqStart :: int
  rqEnd :: int
  rqStep :: int

record PrometheusAdapter =
  pServerURL :: string
  pQuery :: string
  pStepSeconds :: int

definition rangeRequest :: "Time \<Rightarrow> PrometheusAdapter \<Rightarrow> int \<Rightarrow> RangeRequest" where
  "rangeRequest clock p windowSeconds =
     (let step = (if pStepSeconds p \<le> 0 then 60 else pStepSeconds p);
          now = time_Truncate (time_UTC clock) Second;
          start = time_Add now (wrap64 (- windowSeconds * Second))
      in \<lparr>rqServer = pServerURL p, rqQuery = pQuery p, rqStart = unixSec start, rqEnd = unixSec now, rqStep = step\<rparr>)"

text \<open>
  The range query: \<open>urlOK\<close> decides whether the server URL parses, \<open>send\<close> is the server, \<open>now\<close> the
  clock; \<open>order\<close> and \<open>perm\<close> are the iteration order of the accumulator and the freedom of the sort.
\<close>

definition rangeCollect ::
  "(string \<Rightarrow> bool) \<Rightarrow> (RangeRequest \<Rightarrow> json option http_reply) \<Rightarrow> (float64 \<Rightarrow> int) \<Rightarrow> (nat \<Rightarrow> nat list) \<Rightarrow>
   (nat \<Rightarrow> nat list) \<Rightarrow> Time \<Rightarrow> PrometheusAdapter \<Rightarrow> int \<Rightarrow> (adapter_error, DataFrame) outcome" where
  "rangeCollect urlOK send cv order perm clock p windowSeconds =
     (if pServerURL p = [] \<or> pQuery p = [] then Err (MissingField ''ServerURL and QueryURL'')
      else if \<not> urlOK (pServerURL p) then Err BadURL
      else case send (rangeRequest clock p windowSeconds) of
             RequestInvalid \<Rightarrow> Err BadRequest
           | NoResponse \<Rightarrow> Err RequestFailed
           | Response status body \<Rightarrow>
               if status \<noteq> StatusOK then Err (BadStatus status)
               else case Option.bind body dec_response of
                      None \<Rightarrow> Err DecodeFailed
                    | Some pr \<Rightarrow>
                        if prStatus pr \<noteq> ''success'' then Err (StatusField (prStatus pr))
                        else bind_outcome (AggregateRangeResult cv order (prResult pr))
                               (\<lambda>rows. Ok (map formatRow (sortRows perm rows))))"

definition prometheus_Collect ::
  "(string \<Rightarrow> bool) \<Rightarrow> (RangeRequest \<Rightarrow> json option http_reply) \<Rightarrow> (float64 \<Rightarrow> int) \<Rightarrow> (nat \<Rightarrow> nat list) \<Rightarrow>
   (nat \<Rightarrow> nat list) \<Rightarrow> Time \<Rightarrow> PrometheusAdapter \<Rightarrow> int \<Rightarrow> (adapter_error, DataFrame) outcome" where
  "prometheus_Collect = rangeCollect"

text \<open>The VictoriaMetrics adapter has the same fields and speaks the same protocol.\<close>

definition victoria_Collect ::
  "(string \<Rightarrow> bool) \<Rightarrow> (RangeRequest \<Rightarrow> json option http_reply) \<Rightarrow> (float64 \<Rightarrow> int) \<Rightarrow> (nat \<Rightarrow> nat list) \<Rightarrow>
   (nat \<Rightarrow> nat list) \<Rightarrow> Time \<Rightarrow> PrometheusAdapter \<Rightarrow> int \<Rightarrow> (adapter_error, DataFrame) outcome" where
  "victoria_Collect = rangeCollect"

section \<open>The generic HTTP adapter\<close>

record HTTPAdapter =
  hURL :: string
  hMethod :: string
  hHeaders :: "(string, string) gomap"
  hBody :: string
  hValuePath :: string
  hTimestampPath :: string
  hTimestampFormat :: string
  hStepSeconds :: int
  hTemplateVars :: "(string, string) gomap"

text \<open>A gjson result, read as a number and as a string.\<close>

record gresult =
  gFloat :: float64
  gString :: string

record HTTPRequest =
  reqMethod :: string
  reqURL :: string
  reqBody :: "string option"
  reqHeaders :: "(string \<times> string) list"

text \<open>
  The surroundings of the adapter: the template engine, the check of a request's method and URL, the
  server (a body that could not be read is \<open>None\<close>), and the path lookup of gjson with its array.
\<close>

record HTTPEnv =
  envTemplate :: "string \<Rightarrow> (string \<times> anyval) list \<Rightarrow> string option"
  envRequestOK :: "string \<Rightarrow> string \<Rightarrow> bool"
  envSend :: "HTTPRequest \<Rightarrow> string option http_reply"
  envGjson :: "string \<Rightarrow> string \<Rightarrow> gresult list option"

fun contains :: "string \<Rightarrow> string \<Rightarrow> bool" where
  "contains [] sub = (sub = [])"
| "contains (c # cs) sub = (take (length sub) (c # cs) = sub \<or> contains cs sub)"

definition renderTemplate ::
  "(string \<Rightarrow> (string \<times> anyval) list \<Rightarrow> string option) \<Rightarrow> string \<Rightarrow> (string \<times> anyval) list \<Rightarrow> string option" where
  "renderTemplate engine tmplStr data =
     (if \<not> contains tmplStr ''{{'' then Some tmplStr else engine tmplStr data)"

definition http_parseTimestamp :: "(float64 \<Rightarrow> int) \<Rightarrow> string \<Rightarrow> gresult \<Rightarrow> Time option" where
  "http_parseTimestamp cv fmt g =
     (let format = (if fmt = [] then ''rfc3339'' else fmt)
      in if format = ''rfc3339'' then parse_rfc3339 (gString g)
         else if format = ''unix'' then Some (unix_utc (f2i cv (gFloat g)) 0)
         else if format = ''unix_milli'' then Some \<lparr>tnanos = f2i cv (gFloat g) * 10 ^ 6, toffset = 0\<rparr>
         else None)"

definition templateData :: "Time \<Rightarrow> Time \<Rightarrow> int \<Rightarrow> int \<Rightarrow> HTTPAdapter \<Rightarrow> (string \<times> anyval) list" where
  "templateData start now windowSeconds step h =
     foldl (\<lambda>d (k, v). AList.update k (AString v) d)
       [(''WindowSeconds'', AInt windowSeconds), (''Start'', AInt64 (unixSec start)), (''End'', AInt64 (unixSec now)),
        (''Step'', AInt step), (''StartRFC3339'', AString (format_rfc3339 start)),
        (''EndRFC3339'', AString (format_rfc3339 now))]
       (gomap_list (hTemplateVars h))"

text \<open>\<open>Header.Set\<close> writes a key in canonical form: an upper-case letter at the start and after each hyphen,
  unless the key has a byte that no header name has.\<close>

definition headerByte :: "char \<Rightarrow> bool" where
  "headerByte c \<longleftrightarrow> isDigit c \<or> (97 \<le> lower_byte c \<and> lower_byte c \<le> 122) \<or> c \<in> set ''!#$%&*+-.^_|~'' \<or> byte c = 39 \<or> byte c = 96"

fun canonical :: "bool \<Rightarrow> string \<Rightarrow> string" where
  "canonical up [] = []"
| "canonical up (c # cs) =
     (if up \<and> 97 \<le> byte c \<and> byte c \<le> 122 then char_of (byte c - 32)
      else if \<not> up \<and> 65 \<le> byte c \<and> byte c \<le> 90 then char_of (byte c + 32) else c) # canonical (c = CHR ''-'') cs"

definition canonicalKey :: "string \<Rightarrow> string" where
  "canonicalKey k = (if list_all headerByte k then canonical True k else k)"

fun renderHeaders ::
  "(string \<Rightarrow> (string \<times> anyval) list \<Rightarrow> string option) \<Rightarrow> (string \<times> anyval) list \<Rightarrow> (string \<times> string) list \<Rightarrow>
   (string \<times> string) list \<Rightarrow> (adapter_error, (string \<times> string) list) outcome" where
  "renderHeaders engine data [] hs = Ok hs"
| "renderHeaders engine data ((k, v) # kvs) hs =
     (case renderTemplate engine v data of
        None \<Rightarrow> Err (RenderHeader k)
      | Some r \<Rightarrow> renderHeaders engine data kvs (AList.update (canonicalKey k) r hs))"

fun zipRows ::
  "(float64 \<Rightarrow> int) \<Rightarrow> string \<Rightarrow> nat \<Rightarrow> gresult list \<Rightarrow> gresult list \<Rightarrow>
   (adapter_error, (Time \<times> float64) list) outcome" where
  "zipRows cv fmt i (v # vs) (t # ts) =
     (case http_parseTimestamp cv fmt t of
        None \<Rightarrow> Err (BadTimestamp i)
      | Some tm \<Rightarrow> bind_outcome (zipRows cv fmt (i + 1) vs ts) (\<lambda>rows. Ok ((tm, gFloat v) # rows)))"
| "zipRows cv fmt i _ _ = Ok []"

definition http_Collect ::
  "HTTPEnv \<Rightarrow> (float64 \<Rightarrow> int) \<Rightarrow> (nat \<Rightarrow> nat list) \<Rightarrow> (nat \<Rightarrow> nat list) \<Rightarrow> Time \<Rightarrow> HTTPAdapter \<Rightarrow> int \<Rightarrow>
   (adapter_error, DataFrame) outcome" where
  "http_Collect env cv order perm clock h windowSeconds =
     (if hURL h = [] then Err (MissingField ''URL'')
      else if hValuePath h = [] \<or> hTimestampPath h = [] then Err (MissingField ''ValuePath and TimestampPath'')
      else let step = (if hStepSeconds h \<le> 0 then 60 else hStepSeconds h);
               now = time_Truncate (time_UTC clock) Second;
               start = time_Add now (wrap64 (- windowSeconds * Second));
               data = templateData start now windowSeconds step h;
               verb = (if hMethod h = [] then ''GET'' else hMethod h)
           in bind_outcome
                (if hBody h = [] then Ok None
                 else case renderTemplate (envTemplate env) (hBody h) data of
                        None \<Rightarrow> Err RenderBody | Some b \<Rightarrow> Ok (Some b))
                (\<lambda>body.
                   if \<not> envRequestOK env verb (hURL h) then Err BadRequest
                   else bind_outcome
                     (renderHeaders (envTemplate env) data (range_over order (gomap_list (hHeaders h)))
                        [(''Accept'', ''application/json'')])
                     (\<lambda>headers.
                        case envSend env \<lparr>reqMethod = verb, reqURL = hURL h, reqBody = body, reqHeaders = headers\<rparr> of
                          RequestInvalid \<Rightarrow> Err BadRequest
                        | NoResponse \<Rightarrow> Err RequestFailed
                        | Response status text \<Rightarrow>
                            if status \<noteq> StatusOK then Err (BadStatus status)
                            else case text of
                              None \<Rightarrow> Err BodyUnread
                            | Some respBody \<Rightarrow>
                               (case envGjson env respBody (hValuePath h) of
                                  None \<Rightarrow> Err (PathMissing (hValuePath h))
                                | Some valArray \<Rightarrow>
                                   (case envGjson env respBody (hTimestampPath h) of
                                      None \<Rightarrow> Err (PathMissing (hTimestampPath h))
                                    | Some tsArray \<Rightarrow>
                                        if length valArray \<noteq> length tsArray
                                        then Err (CountMismatch (length valArray) (length tsArray))
                                        else bind_outcome (zipRows cv (hTimestampFormat h) 0 valArray tsArray)
                                               (\<lambda>rows. Ok (map formatRow (sortRows perm rows))))))))"

section \<open>Configuration of the HTTP adapter\<close>

fun any_string :: "anyval option \<Rightarrow> string option" where
  "any_string (Some (AString s)) = Some s"
| "any_string _ = None"

definition string_or :: "string \<Rightarrow> anyval option \<Rightarrow> string" where
  "string_or old v = (case any_string v of Some s \<Rightarrow> s | None \<Rightarrow> old)"

text \<open>The string entries of a nested map; an entry of another type is dropped.\<close>

definition string_entries :: "(string \<times> anyval) list \<Rightarrow> (string \<times> string) list" where
  "string_entries kvs = List.map_filter (\<lambda>(k, v). map_option (\<lambda>s. (k, s)) (any_string (Some v))) kvs"

definition ParseHTTPAdapterConfig ::
  "(float64 \<Rightarrow> int) \<Rightarrow> (string \<times> anyval) list \<Rightarrow> (adapter_error, HTTPAdapter) outcome" where
  "ParseHTTPAdapterConfig cv config =
     (let adapter = \<lparr>hURL = string_or [] (map_of config ''url''), hMethod = string_or [] (map_of config ''method''),
                     hHeaders = (case map_of config ''headers'' of
                                   Some (AMap kvs) \<Rightarrow> Some (string_entries kvs) | _ \<Rightarrow> None),
                     hBody = string_or [] (map_of config ''body''),
                     hValuePath = string_or [] (map_of config ''valuePath''),
                     hTimestampPath = string_or [] (map_of config ''timestampPath''),
                     hTimestampFormat = string_or [] (map_of config ''timestampFormat''),
                     hStepSeconds = 0,
                     hTemplateVars = Some (case map_of config ''templateVars'' of
                                             Some (AMap kvs) \<Rightarrow> string_entries kvs | _ \<Rightarrow> [])\<rparr>
      in case map_of config ''stepSeconds'' of
           Some (AInt n) \<Rightarrow> Ok (adapter\<lparr>hStepSeconds := n\<rparr>)
         | Some (AFloat x) \<Rightarrow> Ok (adapter\<lparr>hStepSeconds := f2i cv x\<rparr>)
         | Some (AString s) \<Rightarrow>
             (case parseInt64 s of
                Ok n \<Rightarrow> Ok (adapter\<lparr>hStepSeconds := n\<rparr>)
              | _ \<Rightarrow> Err BadStepSeconds)
         | _ \<Rightarrow> Ok adapter)"

definition MustParseHTTPAdapterConfig ::
  "(float64 \<Rightarrow> int) \<Rightarrow> (string \<times> anyval) list \<Rightarrow> (adapter_error, HTTPAdapter) outcome" where
  "MustParseHTTPAdapterConfig cv config =
     (case ParseHTTPAdapterConfig cv config of Ok a \<Rightarrow> Ok a | _ \<Rightarrow> Panic)"

definition ValidateConfig :: "HTTPAdapter \<Rightarrow> (adapter_error, unit) outcome" where
  "ValidateConfig h =
     (if hURL h = [] then Err (MissingField ''url'')
      else if hValuePath h = [] then Err (MissingField ''valuePath'')
      else if hTimestampPath h = [] then Err (MissingField ''timestampPath'')
      else if hTimestampFormat h \<notin> {[], ''rfc3339'', ''unix'', ''unix_milli''} then Err (BadFormat (hTimestampFormat h))
      else Ok ())"

section \<open>The factory\<close>

datatype Adapter =
    Prometheus PrometheusAdapter
  | VictoriaMetrics PrometheusAdapter
  | HTTP HTTPAdapter

definition adapter_Name :: "Adapter \<Rightarrow> string" where
  "adapter_Name a = (case a of Prometheus _ \<Rightarrow> ''prometheus'' | VictoriaMetrics _ \<Rightarrow> ''victoria-metrics'' | HTTP _ \<Rightarrow> ''http'')"

definition cfg :: "(string \<times> string) list \<Rightarrow> string \<Rightarrow> string" where
  "cfg config k = (case map_of config k of Some v \<Rightarrow> v | None \<Rightarrow> [])"

definition or_default :: "string \<Rightarrow> string \<Rightarrow> string" where
  "or_default d s = (if s = [] then d else s)"

definition newPrometheus :: "(string \<times> string) list \<Rightarrow> int \<Rightarrow> (adapter_error, Adapter) outcome" where
  "newPrometheus config stepSeconds =
     (if cfg config ''query'' = [] then Err (MissingField ''query'')
      else Ok (Prometheus \<lparr>pServerURL = or_default ''http://localhost:9090'' (cfg config ''url''),
                           pQuery = cfg config ''query'', pStepSeconds = stepSeconds\<rparr>))"

definition newVictoriaMetrics :: "(string \<times> string) list \<Rightarrow> int \<Rightarrow> (adapter_error, Adapter) outcome" where
  "newVictoriaMetrics config stepSeconds =
     (if cfg config ''query'' = [] then Err (MissingField ''query'')
      else Ok (VictoriaMetrics \<lparr>pServerURL = or_default ''http://localhost:8428'' (cfg config ''url''),
                                pQuery = cfg config ''query'', pStepSeconds = stepSeconds\<rparr>))"

text \<open>\<open>parse\<close> is the parser of JSON texts.\<close>

definition strmap_config ::
  "(string \<Rightarrow> json option) \<Rightarrow> adapter_error \<Rightarrow> string \<Rightarrow> (adapter_error, (string, string) gomap) outcome" where
  "strmap_config parse err text =
     (if text = [] then Ok None
      else case parse text of
             None \<Rightarrow> Err err
           | Some JNull \<Rightarrow> Ok None
           | Some j \<Rightarrow> (case dec_strmap j of None \<Rightarrow> Err err | Some m \<Rightarrow> Ok (Some m)))"

definition newHTTP ::
  "(string \<Rightarrow> json option) \<Rightarrow> (string \<times> string) list \<Rightarrow> int \<Rightarrow> (adapter_error, Adapter) outcome" where
  "newHTTP parse config stepSeconds =
     (if cfg config ''url'' = [] then Err (MissingField ''url'')
      else if cfg config ''valuePath'' = [] \<or> cfg config ''timestampPath'' = []
      then Err (MissingField ''valuePath and timestampPath'')
      else bind_outcome (strmap_config parse BadHeadersJSON (cfg config ''headers'')) (\<lambda>headers.
           bind_outcome (strmap_config parse BadVarsJSON (cfg config ''templateVars'')) (\<lambda>templateVars.
             Ok (HTTP \<lparr>hURL = cfg config ''url'', hMethod = or_default ''GET'' (cfg config ''method''),
                       hHeaders = headers, hBody = cfg config ''body'', hValuePath = cfg config ''valuePath'',
                       hTimestampPath = cfg config ''timestampPath'',
                       hTimestampFormat = or_default ''rfc3339'' (cfg config ''timestampFormat''),
                       hStepSeconds = stepSeconds, hTemplateVars = templateVars\<rparr>))))"

definition adapters_New ::
  "(string \<Rightarrow> json option) \<Rightarrow> string \<Rightarrow> (string \<times> string) list \<Rightarrow> int \<Rightarrow> (adapter_error, Adapter) outcome" where
  "adapters_New parse kind config stepSeconds =
     (if kind = ''prometheus'' then newPrometheus config stepSeconds
      else if kind = ''victoriametrics'' then newVictoriaMetrics config stepSeconds
      else if kind = ''http'' then newHTTP parse config stepSeconds
      else Err (UnknownKind kind))"

section \<open>A range query is a sum per second\<close>

text \<open>An iteration order visits every position once.\<close>

definition is_order :: "(nat \<Rightarrow> nat list) \<Rightarrow> bool" where
  "is_order order \<longleftrightarrow> (\<forall>n. mset (order n) = mset [0..<n])"

lemma mset_range_over:
  assumes "is_order order"
  shows "mset (range_over order xs) = mset xs"
proof -
  have m: "mset (order (length xs)) = mset [0..<length xs]" using assms by (simp add: is_order_def)
  then have "set (order (length xs)) = {..<length xs}" by (metis atLeast_upt set_mset_mset)
  then have "filter (\<lambda>i. i < length xs) (order (length xs)) = order (length xs)" by (simp add: filter_id_conv)
  then have "mset (range_over order xs) = image_mset ((!) xs) (mset (order (length xs)))"
    by (simp add: range_over_def)
  also have "\<dots> = mset (map ((!) xs) [0..<length xs])" unfolding m by simp
  finally show ?thesis by (simp add: map_nth)
qed

lemma sort_key_unique:
  assumes "mset xs = mset ys" "inj_on f (set xs)"
  shows "sort_key f xs = sort_key f ys"
  using assms by (intro sort_key_inj_key_eq) auto

text \<open>The samples of a response, and the sum of those of one second in their order of arrival.\<close>

definition sumAt :: "(int \<times> float64) list \<Rightarrow> int \<Rightarrow> float64" where
  "sumAt samples ts = foldl (+) 0 (map snd (filter (\<lambda>s. fst s = ts) samples))"

lemma sumAt_snoc: "sumAt (samples @ [s]) ts = (if fst s = ts then sumAt samples ts + snd s else sumAt samples ts)"
  by (simp add: sumAt_def)

lemma addSample_inv:
  assumes "distinct (map fst acc)" "set (map fst acc) = fst ` set samples"
    "\<And>ts. ts \<in> fst ` set samples \<Longrightarrow> map_of acc ts = Some (sumAt samples ts)"
  shows "distinct (map fst (addSample acc s))" "set (map fst (addSample acc s)) = fst ` set (samples @ [s])"
    "ts \<in> fst ` set (samples @ [s]) \<Longrightarrow> map_of (addSample acc s) ts = Some (sumAt (samples @ [s]) ts)"
proof -
  show "distinct (map fst (addSample acc s))" using assms(1) by (simp add: addSample_def distinct_update)
  show "set (map fst (addSample acc s)) = fst ` set (samples @ [s])"
    using assms(2) by (auto simp: addSample_def AList.update_keys)
  have zero: "sumAt samples (fst s) = 0" if "fst s \<notin> fst ` set samples"
  proof -
    have "filter (\<lambda>x. fst x = fst s) samples = []" unfolding filter_empty_conv using that by (metis imageI)
    then show ?thesis by (simp add: sumAt_def)
  qed
  have "map_of acc (fst s) = None" if "fst s \<notin> fst ` set samples"
    using assms(2) that by (metis list.set_map map_of_eq_None_iff)
  then have new: "(case map_of acc (fst s) of Some x \<Rightarrow> x | None \<Rightarrow> 0) = sumAt samples (fst s)"
    using assms(3)[of "fst s"] zero by (cases "fst s \<in> fst ` set samples") auto
  show "map_of (addSample acc s) ts = Some (sumAt (samples @ [s]) ts)" if "ts \<in> fst ` set (samples @ [s])"
    using that assms(3)[of ts] unfolding sumAt_snoc
    by (auto simp: addSample_def update_conv' new)
qed

lemma aggregate_samples:
  assumes "aggregate cv series = Ok acc"
  shows "\<exists>samples. map (parsePair cv) (concat (map serieValues series)) = map Ok samples \<and>
    distinct (map fst acc) \<and> set (map fst acc) = fst ` set samples \<and>
    (\<forall>ts \<in> fst ` set samples. map_of acc ts = Some (sumAt samples ts))"
proof -
  have "\<exists>samples. map (parsePair cv) pairs = map Ok samples \<and>
    distinct (map fst acc) \<and> set (map fst acc) = fst ` set samples \<and>
    (\<forall>ts \<in> fst ` set samples. map_of acc ts = Some (sumAt samples ts))"
    if "foldl (\<lambda>acc pair. bind_outcome acc (\<lambda>acc. bind_outcome (parsePair cv pair) (\<lambda>s. Ok (addSample acc s)))) (Ok []) pairs = Ok acc"
    for pairs
    using that
  proof (induction pairs arbitrary: acc rule: rev_induct)
    case (snoc pair pairs)
    from snoc.prems obtain acc0 s where acc0: "foldl (\<lambda>acc pair. bind_outcome acc (\<lambda>acc. bind_outcome (parsePair cv pair) (\<lambda>s. Ok (addSample acc s)))) (Ok []) pairs = Ok acc0"
      and s: "parsePair cv pair = Ok s" and acc: "acc = addSample acc0 s"
      by (auto simp: bind_outcome_Ok_iff)
    from snoc.IH[OF acc0] obtain samples where I: "map (parsePair cv) pairs = map Ok samples"
      "distinct (map fst acc0)" "set (map fst acc0) = fst ` set samples"
      "\<And>ts. ts \<in> fst ` set samples \<Longrightarrow> map_of acc0 ts = Some (sumAt samples ts)" by blast
    note A = addSample_inv[OF I(2,3,4), where s = s]
    show ?case
      by (rule exI[of _ "samples @ [s]"]) (use A I(1) s acc in \<open>auto simp del: map_append set_append simp: map_append[of "parsePair cv"] map_append[of Ok]\<close>)
  qed auto
  from this[of "concat (map serieValues series)"] assms show ?thesis by (simp add: aggregate_def)
qed

text \<open>The rows in order of time, whatever the iteration order and the freedom of the sort.\<close>

definition secondRows :: "(int \<times> float64) list \<Rightarrow> (Time \<times> float64) list" where
  "secondRows samples =
     map (\<lambda>ts. (unix_utc ts 0, sumAt samples ts)) (sorted_list_of_set (fst ` set samples))"

lemma sortRows_secondRows:
  assumes o: "is_order order" "is_order perm"
    and acc: "distinct (map fst acc)" "set (map fst acc) = fst ` set samples"
      "\<And>ts. ts \<in> fst ` set samples \<Longrightarrow> map_of acc ts = Some (sumAt samples ts)"
  shows "sortRows perm (map (\<lambda>(ts, v). (unix_utc ts 0, v)) (range_over order acc)) = secondRows samples"
proof -
  let ?f = "\<lambda>(ts, v). (unix_utc ts 0, v :: float64)" and ?k = "\<lambda>(t, v). tnanos t"
  let ?keys = "sorted_list_of_set (fst ` set samples)"
  have k: "(\<lambda>x. ?k (?f x)) = (\<lambda>x. fst x * Second)" by (auto simp: unix_utc_def)
  have "(fst x, sumAt samples (fst x)) = x" if "x \<in> set acc" for x
  proof -
    have "map_of acc (fst x) = Some (snd x)" using acc(1) that by simp
    moreover have "fst x \<in> fst ` set samples" using acc(2) that by force
    ultimately show ?thesis using acc(3) by (fastforce simp: prod_eq_iff)
  qed
  then have vals: "map (\<lambda>x. (fst x, sumAt samples (fst x))) acc = acc" by (intro map_idI)
  have ms: "mset (range_over perm (map ?f (range_over order acc))) = mset (map ?f acc)"
    unfolding mset_range_over[OF o(2)] mset_map mset_range_over[OF o(1)] ..
  have keys: "mset (map fst acc) = mset ?keys"
    using set_eq_iff_mset_eq_distinct[of "map fst acc" ?keys] acc(1,2) by simp
  have "sort_key ?k (map ?f acc) = secondRows samples"
  proof (rule sort_key_inj_key_eq)
    have "map ?f acc = map (\<lambda>ts. (unix_utc ts 0, sumAt samples ts)) (map fst acc)"
      by (subst vals[symmetric]) simp
    then show "mset (map ?f acc) = mset (secondRows samples)"
      unfolding secondRows_def using keys by (simp only: mset_map)
    show "inj_on ?k (set (map ?f acc))"
      by (auto simp: inj_on_def unix_utc_def dest: eq_key_imp_eq_value[OF acc(1)])
    show "sorted (map ?k (secondRows samples))"
      by (auto simp: secondRows_def comp_def unix_utc_def intro!: sorted_map_mono mono_onI)
  qed
  moreover have "sort_key ?k (range_over perm (map ?f (range_over order acc))) = sort_key ?k (map ?f acc)"
  proof (rule sort_key_unique[OF ms])
    have "set (range_over perm (map ?f (range_over order acc))) = set (map ?f acc)"
      using ms by (metis set_mset_mset)
    then show "inj_on ?k (set (range_over perm (map ?f (range_over order acc))))"
      by (auto simp: inj_on_def unix_utc_def dest: eq_key_imp_eq_value[OF acc(1)])
  qed
  ultimately show ?thesis by (simp add: sortRows_def)
qed

lemma rangeCollect_rows:
  assumes "rangeCollect urlOK send cv order perm clock p w = Ok df" "is_order order" "is_order perm"
  shows "\<exists>body pr samples. send (rangeRequest clock p w) = Response StatusOK (Some body) \<and> dec_response body = Some pr \<and>
           map (parsePair cv) (concat (map serieValues (prResult pr))) = map Ok samples \<and>
           df = map formatRow (secondRows samples)"
proof -
  from assms(1) obtain body pr where
    send: "send (rangeRequest clock p w) = Response StatusOK (Some body)" "dec_response body = Some pr" and
    "bind_outcome (AggregateRangeResult cv order (prResult pr)) (\<lambda>rows. Ok (map formatRow (sortRows perm rows))) = Ok df"
    by (auto simp: rangeCollect_def bind_eq_Some_conv split: if_splits http_reply.splits option.splits)
  then obtain acc where acc: "aggregate cv (prResult pr) = Ok acc"
    and df: "df = map formatRow (sortRows perm (map (\<lambda>(ts, v). (unix_utc ts 0, v)) (range_over order acc)))"
    by (cases "aggregate cv (prResult pr)") (simp_all add: AggregateRangeResult_def)
  from aggregate_samples[OF acc] obtain samples where
    S: "map (parsePair cv) (concat (map serieValues (prResult pr))) = map Ok samples"
    "distinct (map fst acc)" "set (map fst acc) = fst ` set samples"
    "\<And>ts. ts \<in> fst ` set samples \<Longrightarrow> map_of acc ts = Some (sumAt samples ts)" by blast
  have "sortRows perm (map (\<lambda>(ts, v). (unix_utc ts 0, v)) (range_over order acc)) = secondRows samples"
    by (rule sortRows_secondRows[OF assms(2,3) S(2,3)]) (rule S(4))
  then have "df = map formatRow (secondRows samples)" unfolding df by (rule arg_cong)
  then show ?thesis using send S(1) by blast
qed

text \<open>
  A range query does not depend on chance. The rows returned are the same for every iteration order
  of the accumulator map and every choice the unstable sort can make, errors included.
\<close>

lemma range_query_deterministic:
  assumes "is_order order" "is_order perm" "is_order order'" "is_order perm'"
  shows "rangeCollect urlOK send cv order perm clock p w = rangeCollect urlOK send cv order' perm' clock p w"
proof -
  have eq: "bind_outcome (AggregateRangeResult cv order ss) (\<lambda>rows. Ok (map formatRow (sortRows perm rows))) =
        bind_outcome (AggregateRangeResult cv order' ss) (\<lambda>rows. Ok (map formatRow (sortRows perm' rows)))" for ss
  proof (cases "aggregate cv ss")
    case (Ok acc)
    from aggregate_samples[OF Ok] obtain samples where
      S: "distinct (map fst acc)" "set (map fst acc) = fst ` set samples"
      "\<And>ts. ts \<in> fst ` set samples \<Longrightarrow> map_of acc ts = Some (sumAt samples ts)" by blast
    have e: "sortRows perm (map (\<lambda>(ts, v). (unix_utc ts 0, v)) (range_over order acc)) = secondRows samples"
      by (rule sortRows_secondRows[OF assms(1,2) S(1,2)]) (rule S(3))
    have e': "sortRows perm' (map (\<lambda>(ts, v). (unix_utc ts 0, v)) (range_over order' acc)) = secondRows samples"
      by (rule sortRows_secondRows[OF assms(3,4) S(1,2)]) (rule S(3))
    show ?thesis unfolding AggregateRangeResult_def Ok bind_outcome.simps e e' by (rule refl)
  qed (simp_all add: AggregateRangeResult_def)
  show ?thesis unfolding rangeCollect_def eq ..
qed

definition forwards :: "nat \<Rightarrow> nat list" where "forwards n = [0..<n]"
definition backwards :: "nat \<Rightarrow> nat list" where "backwards n = rev [0..<n]"

lemma orders: "is_order forwards" "is_order backwards"
  by (simp_all add: is_order_def forwards_def backwards_def)

text \<open>A server with two series that share a timestamp.\<close>

definition sample_pair :: "int \<Rightarrow> string \<Rightarrow> json" where
  "sample_pair t v = JArr [JInt t, JStr v]"

definition sample_server :: "RangeRequest \<Rightarrow> json option http_reply" where
  "sample_server rq = Response 200 (Some (JObj [(''status'', JStr ''success''),
     (''data'', JObj [(''resultType'', JStr ''matrix''),
       (''result'', JArr [JObj [(''metric'', JObj []), (''values'', JArr [sample_pair 120 ''2'', sample_pair 60 ''1''])],
                          JObj [(''values'', JArr [sample_pair 60 ''4''])]])])]))"

definition sample_prometheus :: PrometheusAdapter where
  "sample_prometheus = \<lparr>pServerURL = ''http://p'', pQuery = ''q'', pStepSeconds = 60\<rparr>"

definition sample_collect :: "(nat \<Rightarrow> nat list) \<Rightarrow> (nat \<Rightarrow> nat list) \<Rightarrow> (adapter_error, DataFrame) outcome" where
  "sample_collect order perm =
     rangeCollect (\<lambda>_. True) sample_server amd64_cv order perm (unix_utc 200 0) sample_prometheus 600"

definition sample_rows :: DataFrame where
  "sample_rows = [[(''ts'', AString ''1970-01-01T00:01:00Z''), (''value'', AFloat (Fin 5))],
                  [(''ts'', AString ''1970-01-01T00:02:00Z''), (''value'', AFloat (Fin 2))]]"

lemma sample_collect: "sample_collect forwards forwards = Ok sample_rows"
  by code_simp

end
