(* ===== verification/Features.thy ===== *)
theory Features
  imports Adapters
begin

text \<open>
  Feature extraction, \<open>src/pkg/features/builder.go\<close>: from the rows of an adapter to the feature frame of
  a model, and the forward fill of missing features.
\<close>

section \<open>Building features\<close>

datatype features_error = DataFrameEmpty | NoValidRows

fun toFloat64 :: "anyval \<Rightarrow> float64 option" where
  "toFloat64 (AFloat x) = Some x"
| "toFloat64 (AFloat32 x) = Some x"
| "toFloat64 (AInt n) = Some (i2f n)"
| "toFloat64 (AInt64 n) = Some (i2f n)"
| "toFloat64 (AInt32 n) = Some (i2f n)"
| "toFloat64 _ = None"

text \<open>Unix times are read in the local zone \<open>loc\<close>.\<close>

fun parseTimestamp :: "(int \<Rightarrow> int) \<Rightarrow> (float64 \<Rightarrow> int) \<Rightarrow> anyval \<Rightarrow> Time option" where
  "parseTimestamp loc cv (AString s) = parse_rfc3339 s"
| "parseTimestamp loc cv (AFloat x) = Some (unix_local loc (f2i cv x) 0)"
| "parseTimestamp loc cv (AInt n) = Some (unix_local loc n 0)"
| "parseTimestamp loc cv (AInt64 n) = Some (unix_local loc n 0)"
| "parseTimestamp loc cv (ATime t) = Some t"
| "parseTimestamp loc cv _ = None"

definition timeFeatures :: "Time \<Rightarrow> feature_row" where
  "timeFeatures t =
     [(''timestamp'', i2f (unixSec t)), (''hour'', i2f (time_Hour t)), (''minute'', i2f (time_Minute t)),
      (''day'', i2f (time_Weekday t))]"

definition featureRow :: "(int \<Rightarrow> int) \<Rightarrow> (float64 \<Rightarrow> int) \<Rightarrow> Row \<Rightarrow> feature_row option" where
  "featureRow loc cv row =
     (case map_of row ''value'' of
        None \<Rightarrow> None
      | Some raw \<Rightarrow>
          (case toFloat64 raw of
             None \<Rightarrow> None
           | Some v \<Rightarrow>
               Some ((''value'', v) #
                 (case map_of row ''ts'' of
                    None \<Rightarrow> []
                  | Some ts \<Rightarrow> (case parseTimestamp loc cv ts of None \<Rightarrow> [] | Some t \<Rightarrow> timeFeatures t)))))"

definition BuildFeatures ::
  "(int \<Rightarrow> int) \<Rightarrow> (float64 \<Rightarrow> int) \<Rightarrow> DataFrame \<Rightarrow> (features_error, FeatureFrame) outcome" where
  "BuildFeatures loc cv df =
     (if df = [] then Err DataFrameEmpty
      else let rows = List.map_filter (featureRow loc cv) df
           in if rows = [] then Err NoValidRows else Ok rows)"

section \<open>Forward fill\<close>

text \<open>One pass over the rows for one feature, from the last value seen.\<close>

fun fillKey :: "string \<Rightarrow> float64 option \<Rightarrow> FeatureFrame \<Rightarrow> FeatureFrame" where
  "fillKey key lastValid [] = []"
| "fillKey key lastValid (row # rows) =
     (case map_of row key of
        Some v \<Rightarrow> row # fillKey key (Some v) rows
      | None \<Rightarrow> (case lastValid of
                   Some v \<Rightarrow> AList.update key v row # fillKey key lastValid rows
                 | None \<Rightarrow> row # fillKey key lastValid rows))"

definition frameKeys :: "FeatureFrame \<Rightarrow> string list" where
  "frameKeys frame = remdups (concat (map (map fst) frame))"

definition FillMissingValues :: "(nat \<Rightarrow> nat list) \<Rightarrow> FeatureFrame \<Rightarrow> FeatureFrame" where
  "FillMissingValues order frame =
     (if frame = [] then frame
      else foldl (\<lambda>f key. fillKey key None f) frame (range_over order (frameKeys frame)))"

section \<open>From a range query to features\<close>

text \<open>The features of a second of UTC time.\<close>

definition secondFeatures :: "int \<Rightarrow> float64 \<Rightarrow> feature_row" where
  "secondFeatures ts v =
     [(''value'', v), (''timestamp'', i2f ts), (''hour'', i2f (ts mod 86400 div 3600)),
      (''minute'', i2f (ts mod 3600 div 60)), (''day'', i2f ((ts div 86400 + 4) mod 7))]"

lemma map_filter_map: "(\<And>x. x \<in> set xs \<Longrightarrow> f (g x) = Some (h x)) \<Longrightarrow> List.map_filter f (map g xs) = map h xs"
  by (induction xs) (auto simp: List.map_filter_simps)

lemma minute_of_day: "(ts :: int) mod 86400 mod 3600 = ts mod 3600"
  by (rule mod_mod_cancel) simp

lemma featureRow_formatRow:
  assumes "time_Date (unix_utc ts 0) = (y, m, d)" "0 \<le> y" "y \<le> 9999"
  shows "featureRow loc cv (formatRow (unix_utc ts 0, v)) = Some (secondFeatures ts v)"
proof -
  have u: "time_UTC (unix_utc ts 0) = unix_utc ts 0" "unixSec (unix_utc ts 0) = ts" "toffset (unix_utc ts 0) = 0"
    by (simp_all add: time_UTC_def unix_utc_def unixSec_def)
  have "parse_rfc3339 (format_rfc3339 (unix_utc ts 0)) = Some (unix_utc ts 0)"
    using parse_format_rfc3339[OF assms] u by (simp add: unix_utc_def)
  then show ?thesis
    by (simp add: featureRow_def formatRow_def u timeFeatures_def secondFeatures_def time_Hour_def time_Minute_def
        time_Weekday_def secOfDay_def wallSec_def wallDay_def minute_of_day)
qed

text \<open>
  C17: features of a range query. What a Prometheus or VictoriaMetrics adapter returns becomes, for every
  second that has samples, in increasing order, one row with the sum of its samples (in order of arrival)
  and the Unix time, hour, minute and weekday of that second in UTC; no row is dropped or merged. The
  years must be those that RFC 3339 can write.
\<close>

theorem range_query_features:
  assumes "rangeCollect urlOK send cv order perm clock p w = Ok df" "is_order order" "is_order perm" "df \<noteq> []"
  shows "\<exists>body pr samples. send (rangeRequest clock p w) = Response StatusOK (Some body) \<and> dec_response body = Some pr \<and>
    map (parsePair cv) (concat (map serieValues (prResult pr))) = map Ok samples \<and>
    ((\<forall>ts \<in> fst ` set samples. 0 \<le> time_year (unix_utc ts 0) \<and> time_year (unix_utc ts 0) \<le> 9999) \<longrightarrow>
     BuildFeatures loc cv df =
       Ok (map (\<lambda>ts. secondFeatures ts (sumAt samples ts)) (sorted_list_of_set (fst ` set samples))))"
proof -
  from rangeCollect_rows[OF assms(1-3)] obtain body pr samples where
    B: "send (rangeRequest clock p w) = Response StatusOK (Some body)" "dec_response body = Some pr" and
    S: "map (parsePair cv) (concat (map serieValues (prResult pr))) = map Ok samples" "df = map formatRow (secondRows samples)"
    by blast
  let ?ts = "sorted_list_of_set (fst ` set samples)"
  have "BuildFeatures loc cv df = Ok (map (\<lambda>ts. secondFeatures ts (sumAt samples ts)) ?ts)"
    if Y: "\<forall>ts \<in> fst ` set samples. 0 \<le> time_year (unix_utc ts 0) \<and> time_year (unix_utc ts 0) \<le> 9999"
  proof -
    have "featureRow loc cv (formatRow (unix_utc ts 0, v)) = Some (secondFeatures ts v)" if "ts \<in> set ?ts" for ts v
      using featureRow_formatRow[of ts] Y that
      by (cases "time_Date (unix_utc ts 0)") (auto simp: time_year_def)
    then have "List.map_filter (featureRow loc cv) df = map (\<lambda>ts. secondFeatures ts (sumAt samples ts)) ?ts"
      unfolding S(2) secondRows_def map_map by (intro map_filter_map) simp
    moreover have "?ts \<noteq> []" using assms(4) unfolding S(2) secondRows_def by auto
    ultimately show ?thesis using assms(4) by (simp add: BuildFeatures_def Let_def)
  qed
  then show ?thesis using S(1) B by blast
qed

section \<open>Forward fill keeps and extends\<close>

text \<open>The last value of a feature in a list of rows.\<close>

fun lastSeen :: "string \<Rightarrow> float64 option \<Rightarrow> FeatureFrame \<Rightarrow> float64 option" where
  "lastSeen key old [] = old"
| "lastSeen key old (row # rows) = lastSeen key (case map_of row key of Some v \<Rightarrow> Some v | None \<Rightarrow> old) rows"

lemma length_fillKey [simp]: "length (fillKey key old rows) = length rows"
  by (induction key old rows rule: fillKey.induct) (auto split: option.splits)

lemma fillKey_nth:
  "i < length rows \<Longrightarrow> map_of (fillKey key old rows ! i) k =
     (if k = key then lastSeen key old (take (Suc i) rows) else map_of (rows ! i) k)"
proof (induction rows arbitrary: i old)
  case (Cons row rows)
  show ?case
  proof (cases i)
    case 0
    then show ?thesis by (auto simp: update_conv' split: option.splits)
  next
    case (Suc j)
    then show ?thesis using Cons by (auto split: option.splits)
  qed
qed simp

lemma lastSeen_cong:
  "length rows = length rows' \<Longrightarrow> (\<And>i. i < length rows \<Longrightarrow> map_of (rows ! i) k = map_of (rows' ! i) k) \<Longrightarrow>
   lastSeen k old rows = lastSeen k old rows'"
proof (induction rows rows' arbitrary: old rule: list_induct2)
  case (Cons r rows r' rows')
  have "map_of r k = map_of r' k" using Cons.prems[of 0] by simp
  moreover have "lastSeen k old rows = lastSeen k old rows'" for old
    using Cons.IH Cons.prems[of "Suc i" for i] by (metis Suc_less_eq length_Cons nth_Cons_Suc)
  ultimately show ?case by simp
qed simp

lemma fillKeys_nth:
  assumes "distinct keys" "i < length frame"
  shows "length (foldl (\<lambda>f key. fillKey key None f) frame keys) = length frame"
    "map_of (foldl (\<lambda>f key. fillKey key None f) frame keys ! i) k =
       (if k \<in> set keys then lastSeen k None (take (Suc i) frame) else map_of (frame ! i) k)"
proof -
  have "\<forall>i < length frame. length (foldl (\<lambda>f key. fillKey key None f) frame keys) = length frame \<and>
    map_of (foldl (\<lambda>f key. fillKey key None f) frame keys ! i) k =
       (if k \<in> set keys then lastSeen k None (take (Suc i) frame) else map_of (frame ! i) k)"
    using assms(1)
  proof (induction keys rule: rev_induct)
    case (snoc key keys)
    let ?f = "foldl (\<lambda>f key. fillKey key None f) frame keys"
    have IH: "i < length frame \<Longrightarrow> length ?f = length frame \<and>
      map_of (?f ! i) k = (if k \<in> set keys then lastSeen k None (take (Suc i) frame) else map_of (frame ! i) k)" for i
      using snoc by simp
    have "lastSeen k None (take (Suc i) ?f) = lastSeen k None (take (Suc i) frame)"
      if "k = key" "i < length frame" for i
      using that IH snoc.prems by (intro lastSeen_cong) auto
    then show ?case using IH by (auto simp: fillKey_nth)
  qed simp
  then show "length (foldl (\<lambda>f key. fillKey key None f) frame keys) = length frame"
    "map_of (foldl (\<lambda>f key. fillKey key None f) frame keys ! i) k =
       (if k \<in> set keys then lastSeen k None (take (Suc i) frame) else map_of (frame ! i) k)"
    using assms(2) by auto
qed

lemma lastSeen_absent: "k \<notin> set (frameKeys rows) \<Longrightarrow> lastSeen k None rows = None"
proof (induction rows)
  case (Cons row rows)
  then have "map_of row k = None" by (auto simp: frameKeys_def map_of_eq_None_iff)
  then show ?case using Cons by (simp add: frameKeys_def)
qed simp

text \<open>
  C31: the forward fill is exact. Whatever the iteration order over the features, the filled frame has the
  same rows, and row \<open>i\<close> holds for every feature the last value that rows \<open>0\<close> to \<open>i\<close> of the original frame
  have for it, or nothing if none of them has one. In particular a value that is present, NaN included, is
  never replaced.
\<close>

theorem FillMissingValues_forward:
  assumes "is_order order" "i < length frame"
  shows "length (FillMissingValues order frame) = length frame \<and>
         map_of (FillMissingValues order frame ! i) k = lastSeen k None (take (Suc i) frame)"
proof -
  have m: "mset (range_over order (frameKeys frame)) = mset (frameKeys frame)" by (rule mset_range_over[OF assms(1)])
  have d: "distinct (range_over order (frameKeys frame))"
    using m by (metis distinct_remdups frameKeys_def mset_eq_imp_distinct_iff)
  have s: "set (range_over order (frameKeys frame)) = set (frameKeys frame)" using m by (metis set_mset_mset)
  have "map_of (frame ! i) k = lastSeen k None (take (Suc i) frame)" if k: "k \<notin> set (frameKeys frame)"
  proof -
    have "k \<notin> set (map fst (frame ! i))" "k \<notin> set (frameKeys (take (Suc i) frame))"
      using k assms(2) nth_mem by (auto simp: frameKeys_def dest: in_set_takeD)
    then show ?thesis using lastSeen_absent by (simp add: map_of_eq_None_iff)
  qed
  then show ?thesis using fillKeys_nth(1)[OF d assms(2)] fillKeys_nth(2)[OF d assms(2), of k] assms(2) s by (auto simp: FillMissingValues_def)
qed

section \<open>Concrete runs\<close>

theorem range_query_features_witness:
  "BuildFeatures (\<lambda>_. 3600) amd64_cv sample_rows =
     Ok [secondFeatures 60 (Fin 5), secondFeatures 120 (Fin 2)] \<and>
   (\<exists>body. sample_server (rangeRequest (unix_utc 200 0) sample_prometheus 600) = Response StatusOK (Some body))"
proof
  show "BuildFeatures (\<lambda>_. 3600) amd64_cv sample_rows = Ok [secondFeatures 60 (Fin 5), secondFeatures 120 (Fin 2)]"
    by code_simp
  have "sample_rows \<noteq> []" by (simp add: sample_rows_def)
  from range_query_features[OF sample_collect[unfolded sample_collect_def] orders(1,1) this]
  show "\<exists>body. sample_server (rangeRequest (unix_utc 200 0) sample_prometheus 600) = Response StatusOK (Some body)"
    by blast
qed

definition sample_gaps :: FeatureFrame where
  "sample_gaps = [[(''value'', Fin 1)], [(''hour'', Fin 2)], [(''value'', NaN), (''hour'', Fin 3)]]"

theorem FillMissingValues_forward_witness:
  "map_of (FillMissingValues backwards sample_gaps ! 1) ''value'' = Some (Fin 1) \<and>
   map_of (FillMissingValues backwards sample_gaps ! 2) ''value'' = Some NaN"
proof -
  have n: "length sample_gaps = 3" by (simp add: sample_gaps_def)
  have v: "lastSeen ''value'' None (take (Suc 1) sample_gaps) = Some (Fin 1)"
    "lastSeen ''value'' None (take (Suc 2) sample_gaps) = Some NaN" by code_simp+
  show ?thesis
    using FillMissingValues_forward[OF orders(2), of 1 sample_gaps "''value''"]
      FillMissingValues_forward[OF orders(2), of 2 sample_gaps "''value''"] unfolding n v by simp
qed

end
