(* ===== verification/Forecaster.thy ===== *)
theory Forecaster
  imports Config Sarima Baseline Byom Features
begin

text \<open>
  The forecast loop of one workload: \<open>src/cmd/forecaster/forecaster.go\<close> (the workload forecaster, its
  tick and its run loop), \<open>build.go\<close>, the model and store factories \<open>models/model.go\<close> and
  \<open>store/store.go\<close>, and the metrics of \<open>metrics/metrics.go\<close>. The store and the metric source are
  parameters of a tick; what a tick reads from its surroundings is the record \<open>TickEnv\<close>. The elapsed
  times that are only logged or observed in histograms are left out; the observations are counted.
\<close>

section \<open>Durations in seconds\<close>

text \<open>\<open>int(d.Seconds())\<close>: the library adds the whole seconds and the rest in floating point.\<close>

definition durSeconds :: "Duration \<Rightarrow> float64" where
  "durSeconds d = i2f (d sdiv Second) + i2f (d smod Second) / flit (10 ^ 9)"

definition intSeconds :: "(float64 \<Rightarrow> int) \<Rightarrow> Duration \<Rightarrow> int" where
  "intSeconds cv d = f2i cv (durSeconds d)"

section \<open>Metrics\<close>

text \<open>A metric is identified by its name and its constant labels.\<close>

type_synonym metric_desc = "string \<times> (string \<times> string) list"

record Metrics =
  mDescs :: "metric_desc list"
  mCollects :: nat
  mPredicts :: nat
  mCapacities :: nat
  mForecastAge :: float64
  mDesiredReplicas :: float64
  mPredictedValue :: float64
  mErrors :: "((string \<times> string) \<times> nat) list"

definition metricDescs :: "string \<Rightarrow> metric_desc list" where
  "metricDescs workload =
     [(''kedastral_adapter_collect_seconds'', [(''adapter'', ''prometheus''), (''workload'', workload)]),
      (''kedastral_model_predict_seconds'', [(''model'', ''baseline''), (''workload'', workload)]),
      (''kedastral_capacity_compute_seconds'', [(''workload'', workload)]),
      (''kedastral_forecast_age_seconds'', [(''workload'', workload)]),
      (''kedastral_desired_replicas'', [(''workload'', workload)]),
      (''kedastral_predicted_value'', [(''workload'', workload)]),
      (''kedastral_errors_total'', [(''workload'', workload)])]"

text \<open>
  \<open>New\<close> registers with the process's registerer, which panics on a metric it already has. The
  registerer is the list of the metrics registered.
\<close>

definition metrics_New :: "string \<Rightarrow> metric_desc list \<Rightarrow> (unit, Metrics \<times> metric_desc list) outcome" where
  "metrics_New workload registered =
     (if distinct (metricDescs workload @ registered)
      then Ok (\<lparr>mDescs = metricDescs workload, mCollects = 0, mPredicts = 0, mCapacities = 0, mForecastAge = 0,
                mDesiredReplicas = 0, mPredictedValue = 0, mErrors = []\<rparr>, metricDescs workload @ registered)
      else Panic)"

record Registry =
  regMetrics :: "(string \<times> Metrics) list"
  regDescs :: "metric_desc list"

definition GetOrCreate :: "string \<Rightarrow> Registry \<Rightarrow> (unit, Metrics \<times> Registry) outcome" where
  "GetOrCreate workload r =
     (case map_of (regMetrics r) workload of
        Some m \<Rightarrow> Ok (m, r)
      | None \<Rightarrow>
          bind_outcome (metrics_New workload (regDescs r)) (\<lambda>(m, ds).
            Ok (m, r\<lparr>regMetrics := AList.update workload m (regMetrics r), regDescs := ds\<rparr>)))"

definition RecordCollect :: "Metrics \<Rightarrow> Metrics" where
  "RecordCollect m = m\<lparr>mCollects := mCollects m + 1\<rparr>"

definition RecordPredict :: "Metrics \<Rightarrow> Metrics" where
  "RecordPredict m = m\<lparr>mPredicts := mPredicts m + 1\<rparr>"

definition RecordCapacity :: "Metrics \<Rightarrow> Metrics" where
  "RecordCapacity m = m\<lparr>mCapacities := mCapacities m + 1\<rparr>"

definition SetForecastAge :: "float64 \<Rightarrow> Metrics \<Rightarrow> Metrics" where
  "SetForecastAge seconds m = m\<lparr>mForecastAge := seconds\<rparr>"

definition SetDesiredReplicas :: "int \<Rightarrow> Metrics \<Rightarrow> Metrics" where
  "SetDesiredReplicas replicas m = m\<lparr>mDesiredReplicas := i2f replicas\<rparr>"

definition SetPredictedValue :: "float64 \<Rightarrow> Metrics \<Rightarrow> Metrics" where
  "SetPredictedValue v m = m\<lparr>mPredictedValue := v\<rparr>"

definition RecordError :: "string \<Rightarrow> string \<Rightarrow> Metrics \<Rightarrow> Metrics" where
  "RecordError component reason m =
     m\<lparr>mErrors := AList.update (component, reason)
         (Suc (case map_of (mErrors m) (component, reason) of None \<Rightarrow> 0 | Some n \<Rightarrow> n)) (mErrors m)\<rparr>"

section \<open>Models\<close>

text \<open>The values of the interface \<open>models.Model\<close> and the dispatch of its methods.\<close>

datatype Model = MBaseline BaselineModel | MARIMA ARIMAModel | MSARIMA SARIMAModel | MBYOM BYOMModel

record TickEnv =
  tCv :: "float64 \<Rightarrow> int"
  tLoc :: "int \<Rightarrow> int"
  tOrder :: "nat \<Rightarrow> nat \<Rightarrow> nat list"
  tCollect :: "Adapter \<Rightarrow> int \<Rightarrow> (adapter_error, DataFrame) outcome"
  tSend :: "string \<Rightarrow> json \<Rightarrow> json option http_reply"
  tTrainCtx :: ctx
  tPredictCtx :: ctx
  tStoreCtx :: ctx
  tNow :: Time

fun model_Train :: "TickEnv \<Rightarrow> FeatureFrame \<Rightarrow> Model \<Rightarrow> (model_error, Model) outcome" where
  "model_Train e h (MBaseline m) = Ok (MBaseline (baseline_Train (tCv e) (tOrder e) h m))"
| "model_Train e h (MARIMA m) = bind_outcome (arima_Train (tTrainCtx e) h m) (\<lambda>m. Ok (MARIMA m))"
| "model_Train e h (MSARIMA m) = bind_outcome (sarima_Train (tTrainCtx e) h m) (\<lambda>m. Ok (MSARIMA m))"
| "model_Train e h (MBYOM m) = bind_outcome (byom_Train h m) (\<lambda>m. Ok (MBYOM m))"

fun model_Predict :: "TickEnv \<Rightarrow> Model \<Rightarrow> FeatureFrame \<Rightarrow> (model_error, Forecast) outcome" where
  "model_Predict e (MBaseline m) f = baseline_Predict (tCv e) m f"
| "model_Predict e (MARIMA m) f = arima_Predict (tPredictCtx e) m f"
| "model_Predict e (MSARIMA m) f = sarima_Predict (tPredictCtx e) m f"
| "model_Predict e (MBYOM m) f = byom_Predict (tSend e) (tNow e) m f"

text \<open>\<open>NewForWorkload\<close>; an unknown model ends the process, and a constructor may panic.\<close>

datatype build_error = BuildAdapter adapter_error | BuildQuantile quantile_error | BuildExit exit

definition NewForWorkload :: "(float64 \<Rightarrow> int) \<Rightarrow> WorkloadConfig \<Rightarrow> (build_error, Model) outcome" where
  "NewForWorkload cv wc =
     (let stepSec = intSeconds cv (wStep wc); horizonSec = intSeconds cv (wHorizon wc); lift = (\<lambda>_. BuildExit (Exit 1))
      in if wModel wc = ''arima''
         then wrap_err lift (bind_outcome (NewARIMAModel (wMetric wc) stepSec horizonSec (wARIMA_P wc) (wARIMA_D wc) (wARIMA_Q wc))
                (\<lambda>m. Ok (MARIMA m)))
         else if wModel wc = ''sarima''
         then wrap_err lift (bind_outcome
                (NewSARIMAModel (wMetric wc) stepSec horizonSec (wSARIMA_P wc) (wSARIMA_D wc) (wSARIMA_Q wc)
                   (wSARIMA_SP wc) (wSARIMA_SD wc) (wSARIMA_SQ wc) (wSARIMA_S wc))
                (\<lambda>m. Ok (MSARIMA m)))
         else if wModel wc = ''baseline'' then Ok (MBaseline (NewBaselineModel (wMetric wc) stepSec horizonSec))
         else if wModel wc = ''byom'' then Ok (MBYOM (NewBYOMModel (wBYOMURL wc) (wMetric wc) stepSec horizonSec))
         else Err (BuildExit (Exit 1)))"

text \<open>\<open>New\<close> reads the same fields from the server's configuration.\<close>

definition models_New :: "(float64 \<Rightarrow> int) \<Rightarrow> Config \<Rightarrow> (build_error, Model) outcome" where
  "models_New cv conf = NewForWorkload cv (configWorkload conf)"

section \<open>The store factory\<close>

datatype Store = SMemory MemoryStore | SRedis RedisStore

definition store_New :: "'r RedisClient \<Rightarrow> 'r \<Rightarrow> Config \<Rightarrow> (exit, Store) outcome" where
  "store_New c r conf =
     (if cStorage conf = ''redis''
      then (case NewRedisStore c r (cRedisAddr conf) (cRedisDB conf) (cRedisTTL conf) of
              Ok st \<Rightarrow> (case redis_Ping c st r of Ok _ \<Rightarrow> Ok (SRedis st) | Err _ \<Rightarrow> Err (Exit 1) | Panic \<Rightarrow> Panic)
            | Err _ \<Rightarrow> Err (Exit 1)
            | Panic \<Rightarrow> Panic)
      else if cStorage conf = ''memory'' then Ok (SMemory NewMemoryStore)
      else Err (Exit 1))"

section \<open>The workload forecaster\<close>

record WorkloadForecaster =
  wf_name :: string
  wf_adapter :: Adapter
  wf_model :: Model
  wf_policy :: Policy
  wf_horizon :: Duration
  wf_step :: Duration
  wf_window :: Duration
  wf_interval :: Duration
  wf_metrics :: "Metrics option"
  wf_currentReplicas :: int

definition NewWorkloadForecaster ::
  "string \<Rightarrow> Adapter \<Rightarrow> Model \<Rightarrow> Policy \<Rightarrow> Duration \<Rightarrow> Duration \<Rightarrow> Duration \<Rightarrow> Duration \<Rightarrow> Metrics option \<Rightarrow> WorkloadForecaster" where
  "NewWorkloadForecaster name adapter model policy horizon step win interval m =
     \<lparr>wf_name = name, wf_adapter = adapter, wf_model = model, wf_policy = policy, wf_horizon = horizon,
      wf_step = step, wf_window = win, wf_interval = interval, wf_metrics = m,
      wf_currentReplicas = MinReplicas policy\<rparr>"

definition workloadPolicy :: "WorkloadConfig \<Rightarrow> float64 \<Rightarrow> Policy" where
  "workloadPolicy wc quantileLevel =
     \<lparr>TargetPerPod = wTargetPerPod wc, Headroom = wHeadroom wc, QuantileLevel = quantileLevel,
      MinReplicas = wMinReplicas wc, MaxReplicas = wMaxReplicas wc, UpMaxFactorPerStep = wUpMaxFactorPerStep wc,
      DownMaxPercentPerStep = wDownMaxPercentPerStep wc, PrewarmWindowSteps = 0, RoundingMode = []\<rparr>"

definition buildWorkloadForecaster ::
  "(float64 \<Rightarrow> int) \<Rightarrow> (string \<Rightarrow> json option) \<Rightarrow> WorkloadConfig \<Rightarrow> Registry \<Rightarrow>
   (build_error, WorkloadForecaster \<times> Registry) outcome" where
  "buildWorkloadForecaster cv parse wc reg =
     bind_outcome (wrap_err BuildAdapter (adapters_New parse (wAdapter wc) (wAdapterConfig wc) (intSeconds cv (wStep wc)))) (\<lambda>adapter.
     bind_outcome (NewForWorkload cv wc) (\<lambda>model.
     bind_outcome (wrap_err BuildQuantile (ParseQuantileLevel (wQuantileLevel wc))) (\<lambda>quantileLevel.
     bind_outcome (wrap_err (\<lambda>_. BuildExit (Exit 2)) (GetOrCreate (wName wc) reg)) (\<lambda>(m, reg).
       Ok (NewWorkloadForecaster (wName wc) adapter model (workloadPolicy wc quantileLevel)
             (wHorizon wc) (wStep wc) (wWindow wc) (wInterval wc) (Some m), reg)))))"

text \<open>An update of the metrics, skipped when there are none.\<close>

definition wf_record :: "(Metrics \<Rightarrow> Metrics) \<Rightarrow> WorkloadForecaster \<Rightarrow> WorkloadForecaster" where
  "wf_record f w = w\<lparr>wf_metrics := map_option f (wf_metrics w)\<rparr>"

definition wf_collect ::
  "TickEnv \<Rightarrow> WorkloadForecaster \<Rightarrow> (adapter_error, DataFrame) outcome \<times> WorkloadForecaster" where
  "wf_collect e w =
     (case tCollect e (wf_adapter w) (intSeconds (tCv e) (wf_window w)) of
        Ok df \<Rightarrow> (Ok df, wf_record RecordCollect w)
      | r \<Rightarrow> (r, w))"

definition wf_buildFeatures :: "TickEnv \<Rightarrow> DataFrame \<Rightarrow> (features_error, FeatureFrame) outcome" where
  "wf_buildFeatures e df = BuildFeatures (tLoc e) (tCv e) df"

definition wf_predict ::
  "TickEnv \<Rightarrow> FeatureFrame \<Rightarrow> WorkloadForecaster \<Rightarrow> (model_error, Forecast) outcome \<times> WorkloadForecaster" where
  "wf_predict e features w =
     (case model_Predict e (wf_model w) features of
        Ok f \<Rightarrow> (Ok f, wf_record RecordPredict w)
      | r \<Rightarrow> (r, w))"

definition wf_calculateReplicas ::
  "TickEnv \<Rightarrow> float64 list \<Rightarrow> quantiles \<Rightarrow> WorkloadForecaster \<Rightarrow> int list \<times> WorkloadForecaster" where
  "wf_calculateReplicas e vs qs w =
     (let desired = ToReplicas (tCv e) (wf_currentReplicas w) vs (intSeconds (tCv e) (wf_step w)) (wf_policy w) qs;
          w = (if desired \<noteq> [] then w\<lparr>wf_currentReplicas := hd desired\<rparr> else w)
      in (desired, wf_record RecordCapacity w))"

definition wf_snapshot :: "TickEnv \<Rightarrow> Forecast \<Rightarrow> int list \<Rightarrow> WorkloadForecaster \<Rightarrow> Snapshot" where
  "wf_snapshot e f desired w =
     \<lparr>Workload = wf_name w, Metric = fMetric f, GeneratedAt = tNow e,
      StepSeconds = intSeconds (tCv e) (wf_step w), HorizonSeconds = intSeconds (tCv e) (wf_horizon w),
      Values = fValues f, DesiredReplicas = desired, Quantiles = fQuantiles f\<rparr>"

definition wf_storeSnapshot ::
  "(ctx \<Rightarrow> Snapshot \<Rightarrow> 's \<Rightarrow> (store_error, unit) outcome \<times> 's) \<Rightarrow> TickEnv \<Rightarrow> Forecast \<Rightarrow> int list \<Rightarrow>
   WorkloadForecaster \<Rightarrow> 's \<Rightarrow> (store_error, unit) outcome \<times> 's" where
  "wf_storeSnapshot put e f desired w s = put (tStoreCtx e) (wf_snapshot e f desired w) s"

section \<open>A tick\<close>

datatype tick_error =
    TickCollect adapter_error | TickFeatures features_error | TickPredict model_error | TickStore store_error

text \<open>Training: an error is only logged, and leaves the model as it was; a panic leaves the tick.\<close>

definition wf_train ::
  "TickEnv \<Rightarrow> FeatureFrame \<Rightarrow> WorkloadForecaster \<Rightarrow> (tick_error, WorkloadForecaster) outcome" where
  "wf_train e features w =
     (case model_Train e features (wf_model w) of
        Ok m \<Rightarrow> Ok (w\<lparr>wf_model := m\<rparr>)
      | Err _ \<Rightarrow> Ok w
      | Panic \<Rightarrow> Panic)"

definition wf_finish :: "Forecast \<Rightarrow> WorkloadForecaster \<Rightarrow> WorkloadForecaster" where
  "wf_finish f w =
     (let w = wf_record (\<lambda>m. SetDesiredReplicas (wf_currentReplicas w) (SetForecastAge 0 m)) w
      in if fValues f \<noteq> [] then wf_record (SetPredictedValue (hd (fValues f))) w else w)"

definition tick ::
  "(ctx \<Rightarrow> Snapshot \<Rightarrow> 's \<Rightarrow> (store_error, unit) outcome \<times> 's) \<Rightarrow> TickEnv \<Rightarrow> WorkloadForecaster \<times> 's \<Rightarrow>
   (tick_error, unit) outcome \<times> WorkloadForecaster \<times> 's" where
  "tick put e st = (case st of (w, s) \<Rightarrow>
     (case wf_collect e w of
        (Panic, w) \<Rightarrow> (Panic, w, s)
      | (Err x, w) \<Rightarrow> (Err (TickCollect x), wf_record (RecordError ''adapter'' ''collect_failed'') w, s)
      | (Ok df, w) \<Rightarrow>
     (case wf_buildFeatures e df of
        Panic \<Rightarrow> (Panic, w, s)
      | Err x \<Rightarrow> (Err (TickFeatures x), wf_record (RecordError ''features'' ''build_failed'') w, s)
      | Ok features \<Rightarrow>
     (case wf_train e features w of
        Panic \<Rightarrow> (Panic, w, s)
      | Err x \<Rightarrow> (Err x, w, s)
      | Ok w \<Rightarrow>
     (case wf_predict e features w of
        (Panic, w) \<Rightarrow> (Panic, w, s)
      | (Err x, w) \<Rightarrow> (Err (TickPredict x), wf_record (RecordError ''model'' ''predict_failed'') w, s)
      | (Ok f, w) \<Rightarrow>
     (case wf_calculateReplicas e (fValues f) (fQuantiles f) w of (desired, w) \<Rightarrow>
     (case wf_storeSnapshot put e f desired w s of
        (Panic, s) \<Rightarrow> (Panic, w, s)
      | (Err x, s) \<Rightarrow> (Err (TickStore x), wf_record (RecordError ''store'' ''put_failed'') w, s)
      | (Ok _, s) \<Rightarrow> (Ok (), wf_finish f w, s))))))))"

section \<open>The run loop\<close>

text \<open>
  \<open>Run\<close>, as the ticks that happen before its context is cancelled: the first is the initial one, the
  others follow the ticker. A failed tick is logged; a panic is recovered by the deferred function,
  which ends the loop. A ticker with an interval that is not positive panics when it is made.
\<close>

datatype run_end = CtxDone | Recovered

fun runTicks ::
  "(ctx \<Rightarrow> Snapshot \<Rightarrow> 's \<Rightarrow> (store_error, unit) outcome \<times> 's) \<Rightarrow> TickEnv list \<Rightarrow> WorkloadForecaster \<times> 's \<Rightarrow>
   run_end \<times> WorkloadForecaster \<times> 's" where
  "runTicks put [] st = (CtxDone, st)"
| "runTicks put (e # es) st =
     (case tick put e st of
        (Panic, st) \<Rightarrow> (Recovered, st)
      | (_, st) \<Rightarrow> runTicks put es st)"

definition wf_Run ::
  "(ctx \<Rightarrow> Snapshot \<Rightarrow> 's \<Rightarrow> (store_error, unit) outcome \<times> 's) \<Rightarrow> TickEnv list \<Rightarrow> WorkloadForecaster \<times> 's \<Rightarrow>
   run_end \<times> WorkloadForecaster \<times> 's" where
  "wf_Run put es st = (if wf_interval (fst st) \<le> 0 then (Recovered, st) else runTicks put es st)"

section \<open>What a tick does\<close>

text \<open>The configuration of a forecaster, which no operation changes.\<close>

definition wf_static :: "WorkloadForecaster \<Rightarrow> string \<times> Adapter \<times> Policy \<times> Duration \<times> Duration \<times> Duration \<times> Duration" where
  "wf_static w = (wf_name w, wf_adapter w, wf_policy w, wf_horizon w, wf_step w, wf_window w, wf_interval w)"

definition wf_inv :: "WorkloadForecaster \<Rightarrow> bool" where
  "wf_inv w \<longleftrightarrow> in_bounds (sanitize (wf_policy w)) (wf_currentReplicas w)"

definition plan_ok :: "Policy \<Rightarrow> Snapshot \<Rightarrow> bool" where
  "plan_ok p s \<longleftrightarrow> length (DesiredReplicas s) = length (Values s) \<and> list_all (in_bounds (sanitize p)) (DesiredReplicas s)"

lemma wf_record_fields [simp]:
  "wf_static (wf_record f w) = wf_static w" "wf_currentReplicas (wf_record f w) = wf_currentReplicas w"
  "wf_model (wf_record f w) = wf_model w" "wf_inv (wf_record f w) = wf_inv w"
  "wf_policy (wf_record f w) = wf_policy w" "wf_name (wf_record f w) = wf_name w"
  "wf_step (wf_record f w) = wf_step w" "wf_horizon (wf_record f w) = wf_horizon w"
  "wf_interval (wf_record f w) = wf_interval w"
  by (simp_all add: wf_record_def wf_static_def wf_inv_def)

lemma wf_static_simps:
  assumes "wf_static w' = wf_static w"
  shows "wf_name w' = wf_name w" "wf_policy w' = wf_policy w" "wf_interval w' = wf_interval w"
  using assms by (simp_all add: wf_static_def)

lemma wf_finish_fields [simp]:
  "wf_static (wf_finish f w) = wf_static w" "wf_currentReplicas (wf_finish f w) = wf_currentReplicas w"
  "wf_inv (wf_finish f w) = wf_inv w"
  by (simp_all add: wf_finish_def Let_def)

lemma wf_collect_keeps:
  assumes "wf_collect e w = (r, w')"
  shows "wf_static w' = wf_static w" "wf_currentReplicas w' = wf_currentReplicas w"
  using assms by (auto simp: wf_collect_def split: outcome.splits)

lemma wf_predict_keeps:
  assumes "wf_predict e ff w = (r, w')"
  shows "wf_static w' = wf_static w" "wf_currentReplicas w' = wf_currentReplicas w"
  using assms by (auto simp: wf_predict_def split: outcome.splits)

lemma wf_train_keeps:
  assumes "wf_train e ff w = Ok w'"
  shows "wf_static w' = wf_static w" "wf_currentReplicas w' = wf_currentReplicas w"
  using assms by (auto simp: wf_train_def wf_static_def split: outcome.splits)

lemma wf_calculateReplicas_result:
  assumes "wf_calculateReplicas e vs qs w = (desired, w')"
  shows "wf_static w' = wf_static w"
    "desired = ToReplicas (tCv e) (wf_currentReplicas w) vs (intSeconds (tCv e) (wf_step w)) (wf_policy w) qs"
    "wf_currentReplicas w' = (if vs = [] then wf_currentReplicas w else hd desired)"
proof -
  have l: "length desired = length vs" "desired = ToReplicas (tCv e) (wf_currentReplicas w) vs (intSeconds (tCv e) (wf_step w)) (wf_policy w) qs"
    using assms by (auto simp: wf_calculateReplicas_def Let_def)
  then show "desired = ToReplicas (tCv e) (wf_currentReplicas w) vs (intSeconds (tCv e) (wf_step w)) (wf_policy w) qs" by simp
  have "desired = [] \<longleftrightarrow> vs = []" using l(1) by auto
  then show "wf_static w' = wf_static w" "wf_currentReplicas w' = (if vs = [] then wf_currentReplicas w else hd desired)"
    using assms by (auto simp: wf_calculateReplicas_def Let_def wf_static_def wf_record_def split: if_splits)
qed

text \<open>Every way a tick can end: before the store is reached, or with what \<open>Put\<close> returned.\<close>

definition tick_stores ::
  "(ctx \<Rightarrow> Snapshot \<Rightarrow> 's \<Rightarrow> (store_error, unit) outcome \<times> 's) \<Rightarrow> TickEnv \<Rightarrow> WorkloadForecaster \<Rightarrow> 's \<Rightarrow> Snapshot \<Rightarrow>
   (tick_error, unit) outcome \<Rightarrow> WorkloadForecaster \<Rightarrow> 's \<Rightarrow> bool" where
  "tick_stores put e w s x r w' s' \<longleftrightarrow>
     put (tStoreCtx e) x s = ((case r of Ok _ \<Rightarrow> Ok () | Err (TickStore y) \<Rightarrow> Err y | _ \<Rightarrow> Panic), s') \<and>
     Workload x = wf_name w \<and> GeneratedAt x = tNow e \<and> StepSeconds x = intSeconds (tCv e) (wf_step w) \<and>
     HorizonSeconds x = intSeconds (tCv e) (wf_horizon w) \<and>
     DesiredReplicas x = ToReplicas (tCv e) (wf_currentReplicas w) (Values x) (StepSeconds x) (wf_policy w) (Quantiles x) \<and>
     wf_currentReplicas w' = (if Values x = [] then wf_currentReplicas w else hd (DesiredReplicas x))"

lemma tick_ends:
  assumes "tick put e (w, s) = (r, w', s')"
  shows "wf_static w' = wf_static w \<and>
    (r \<noteq> Ok () \<and> (\<forall>y. r \<noteq> Err (TickStore y)) \<and> s' = s \<and> wf_currentReplicas w' = wf_currentReplicas w \<or>
     (\<exists>x. tick_stores put e w s x r w' s'))"
proof -
  obtain r1 wf1 where c: "wf_collect e w = (r1, wf1)" by fastforce
  note c' = wf_collect_keeps[OF c]
  show ?thesis
  proof (cases r1)
    case (Ok df)
    show ?thesis
    proof (cases "wf_buildFeatures e df")
      case (Ok ff)
      show ?thesis
      proof (cases "wf_train e ff wf1")
        case (Ok wf2)
        note t' = wf_train_keeps[OF Ok]
        obtain r3 wf3 where p: "wf_predict e ff wf2 = (r3, wf3)" by fastforce
        note p' = wf_predict_keeps[OF p]
        show ?thesis
        proof (cases r3)
          case f: (Ok f)
          obtain desired wf4 where d: "wf_calculateReplicas e (fValues f) (fQuantiles f) wf3 = (desired, wf4)" by fastforce
          note d' = wf_calculateReplicas_result[OF d]
          obtain r5 s5 where st: "wf_storeSnapshot put e f desired wf4 s = (r5, s5)" by fastforce
          have t: "tick put e (w, s) = (case r5 of Panic \<Rightarrow> (Panic, wf4, s5)
              | Err x \<Rightarrow> (Err (TickStore x), wf_record (RecordError ''store'' ''put_failed'') wf4, s5)
              | Ok _ \<Rightarrow> (Ok (), wf_finish f wf4, s5))"
            using \<open>wf_buildFeatures e df = Ok ff\<close>
            by (simp add: tick_def c \<open>r1 = Ok df\<close> Ok p f d st)
          have sta: "wf_static wf4 = wf_static w" using c' t' p' d' by simp
          have "tick_stores put e w s (wf_snapshot e f desired wf4) r w' s'"
            using st t assms d' sta c' t' p'
            by (cases r5) (auto simp: tick_stores_def wf_storeSnapshot_def wf_snapshot_def wf_static_def)
          moreover have "wf_static w' = wf_static w" using t assms sta by (cases r5) auto
          ultimately show ?thesis by blast
        qed (use assms c' t' p' \<open>r1 = Ok df\<close> \<open>wf_buildFeatures e df = Ok ff\<close> Ok p c in \<open>auto simp: tick_def\<close>)
      qed (use assms c' \<open>r1 = Ok df\<close> Ok c in \<open>auto simp: tick_def wf_train_def split: outcome.splits\<close>)
    qed (use assms c' Ok c in \<open>auto simp: tick_def\<close>)
  qed (use assms c' c in \<open>auto simp: tick_def\<close>)
qed

lemma tick_succeeds:
  assumes "tCollect e (wf_adapter w) (intSeconds (tCv e) (wf_window w)) = Ok df" "BuildFeatures (tLoc e) (tCv e) df = Ok ff"
    "wf_train e ff (wf_record RecordCollect w) = Ok w1" "model_Predict e (wf_model w1) ff = Ok f"
    "wf_calculateReplicas e (fValues f) (fQuantiles f) (wf_record RecordPredict w1) = (desired, w2)"
    "put (tStoreCtx e) (wf_snapshot e f desired w2) s = (Ok (), s')"
  shows "tick put e (w, s) = (Ok (), wf_finish f w2, s')"
  using assms by (simp add: tick_def wf_collect_def wf_buildFeatures_def wf_predict_def wf_storeSnapshot_def)

lemma ToReplicas_plan:
  "list_all (in_bounds (sanitize p)) (ToReplicas cv prev forecast stepSec p qs)"
  "length (ToReplicas cv prev forecast stepSec p qs) = length forecast"
  by (auto simp: ToReplicas_def Let_def list_all_iff in_bounds_replicaLoop)

lemma wf_inv_init: "policy_ok p \<Longrightarrow> wf_inv (NewWorkloadForecaster n a m p h st win iv mt)"
  by (auto simp: wf_inv_def NewWorkloadForecaster_def sanitize_id in_bounds_def policy_ok_def)

lemma tick_stores_plan:
  assumes "tick_stores put e w s x r w' s'" "wf_inv w" "wf_static w' = wf_static w"
  shows "plan_ok (wf_policy w) x" "Workload x = wf_name w" "wf_inv w'"
proof -
  show "plan_ok (wf_policy w) x" "Workload x = wf_name w"
    using assms(1) ToReplicas_plan by (auto simp: tick_stores_def plan_ok_def)
  then have "Values x \<noteq> [] \<Longrightarrow> in_bounds (sanitize (wf_policy w)) (hd (DesiredReplicas x))"
    by (cases "DesiredReplicas x") (auto simp: plan_ok_def)
  then show "wf_inv w'" using assms wf_static_simps(2)[OF assms(3)] by (auto simp: tick_stores_def wf_inv_def)
qed

text \<open>The memory store after a tick.\<close>

lemma tick_mem:
  assumes "tick mem_Put e (w, s) = (r, w', s')" "wf_inv w"
  shows "wf_static w' = wf_static w" "wf_inv w'"
    "r \<noteq> Ok () \<Longrightarrow> s' = s"
    "(r = Ok () \<or> (\<exists>y. r = Err (TickStore y))) \<or> wf_currentReplicas w' = wf_currentReplicas w"
    "r = Ok () \<Longrightarrow> \<exists>x. plan_ok (wf_policy w) x \<and> Workload x = wf_name w \<and> GeneratedAt x = tNow e \<and>
       (Values x \<noteq> [] \<longrightarrow> wf_currentReplicas w' = hd (DesiredReplicas x)) \<and>
       s' = s\<lparr>snapshots := AList.update (wf_name w) x (snapshots s)\<rparr>"
proof -
  note t = tick_ends[OF assms(1)]
  then show st: "wf_static w' = wf_static w" by simp
  show "wf_inv w'"
    using t tick_stores_plan(3)[OF _ assms(2) st] assms(2) wf_static_simps(2)[OF st] unfolding wf_inv_def by metis
  show "r \<noteq> Ok () \<Longrightarrow> s' = s"
    using t by (auto simp: tick_stores_def mem_Put_def split: if_splits option.splits outcome.splits tick_error.splits)
  show "(r = Ok () \<or> (\<exists>y. r = Err (TickStore y))) \<or> wf_currentReplicas w' = wf_currentReplicas w"
    using t by (auto simp: tick_stores_def mem_Put_def split: if_splits option.splits outcome.splits tick_error.splits)
  show "\<exists>x. plan_ok (wf_policy w) x \<and> Workload x = wf_name w \<and> GeneratedAt x = tNow e \<and>
       (Values x \<noteq> [] \<longrightarrow> wf_currentReplicas w' = hd (DesiredReplicas x)) \<and>
       s' = s\<lparr>snapshots := AList.update (wf_name w) x (snapshots s)\<rparr>" if "r = Ok ()"
  proof -
    obtain x where x: "tick_stores mem_Put e w s x r w' s'" using t \<open>r = Ok ()\<close> by auto
    with tick_stores_plan(1,2)[OF x assms(2) st] \<open>r = Ok ()\<close> show ?thesis
      by (intro exI[of _ x]) (auto simp: tick_stores_def mem_Put_def split: if_splits option.splits)
  qed
qed

text \<open>What every snapshot of the forecaster's workload satisfies after any number of ticks.\<close>

definition run_inv :: "WorkloadForecaster \<times> MemoryStore \<Rightarrow> bool" where
  "run_inv st \<longleftrightarrow> wf_inv (fst st) \<and>
     (\<forall>x. map_of (snapshots (snd st)) (wf_name (fst st)) = Some x \<longrightarrow> plan_ok (wf_policy (fst st)) x)"

lemma tick_run_inv:
  assumes "run_inv (w, s)" "tick mem_Put e (w, s) = (r, w', s')"
  shows "run_inv (w', s')" "wf_static w' = wf_static w"
proof -
  have i: "wf_inv w" using assms(1) by (simp add: run_inv_def)
  note t = tick_mem[OF assms(2) i]
  show "wf_static w' = wf_static w" by (rule t(1))
  note f = wf_static_simps[OF this]
  show "run_inv (w', s')"
  proof (cases "r = Ok ()")
    case True
    then show ?thesis using t(2) t(5) f by (auto simp: run_inv_def update_conv')
  next
    case False
    then show ?thesis using t(2,3) f assms(1) by (auto simp: run_inv_def)
  qed
qed

lemma runTicks_inv:
  "run_inv st \<Longrightarrow> runTicks mem_Put es st = (z, st') \<Longrightarrow> run_inv st' \<and> wf_static (fst st') = wf_static (fst st)"
proof (induction es arbitrary: st)
  case (Cons e es)
  obtain w s where st: "st = (w, s)" by fastforce
  obtain r w1 s1 where t: "tick mem_Put e (w, s) = (r, w1, s1)" by (metis prod_cases3)
  note i = tick_run_inv[OF Cons.prems(1)[unfolded st] t]
  show ?case using Cons.prems(2) Cons.IH[OF i(1)] i t st by (cases r) auto
qed simp

lemma workloadPolicy_ok: "valid_workload wc \<Longrightarrow> \<not> wHeadroom wc < Fin 1 \<Longrightarrow> policy_ok (workloadPolicy wc q)"
  by (auto simp: valid_workload_def policy_ok_def workloadPolicy_def)

lemma workloadPolicy_bounds:
  "valid_workload wc \<Longrightarrow> in_bounds (sanitize (workloadPolicy wc q)) r \<longleftrightarrow> wMinReplicas wc \<le> r \<and> r \<le> wMaxReplicas wc"
  by (auto simp: valid_workload_def in_bounds_def workloadPolicy_def)

lemma buildWorkloadForecaster_Ok:
  assumes "buildWorkloadForecaster cv parse wc reg = Ok (w, reg')"
  shows "wf_name w = wName wc" "\<exists>q. wf_policy w = workloadPolicy wc q" "wf_currentReplicas w = wMinReplicas wc"
    "wf_interval w = wInterval wc"
  using assms
  by (auto simp: buildWorkloadForecaster_def NewWorkloadForecaster_def workloadPolicy_def outcome_simps split: prod.splits)

section \<open>Seconds\<close>

lemma billion64: "flit (10 ^ 9) = Fin (10 ^ 9)"
  using rnd_of_int[of "10 ^ 9"] by simp

lemma subsecond: "0 \<le> n \<Longrightarrow> n < Second \<Longrightarrow> i2f n / flit (10 ^ 9) = rnd (of_int n / 10 ^ 9)"
proof -
  assume n: "0 \<le> n" "n < Second"
  then have "i2f n = Fin (of_int n)" by (intro i2f_small) simp
  then show ?thesis unfolding billion64 by (simp add: divide_float64_def)
qed

lemma subsecond_le: "0 \<le> n \<Longrightarrow> n < Second \<Longrightarrow> \<exists>v. i2f n / flit (10 ^ 9) = Fin v \<and> 0 \<le> v \<and> v < 1"
proof -
  assume n: "0 \<le> n" "n < Second"
  have "(of_int n :: rat) \<le> of_int 999999999" using n(2) by (subst of_int_le_iff) simp
  then have "rnd (of_int n / 10 ^ 9) \<le> rnd (999999999 / 10 ^ 9)"
    by (intro rnd_mono divide_right_mono) simp_all
  moreover have "rnd (999999999 / 10 ^ 9) < Fin 1" by code_simp
  moreover have "Fin 0 \<le> rnd (of_int n / 10 ^ 9)" using n by simp
  ultimately show ?thesis unfolding subsecond[OF n]
    by (cases "rnd (of_int n / 10 ^ 9)"; cases "rnd (999999999 / 10 ^ 9)") auto
qed

lemma sdiv_Second: "0 \<le> d \<Longrightarrow> d sdiv Second = d div Second" "0 \<le> d \<Longrightarrow> d smod Second = d mod Second"
  by (cases "d = 0"; simp add: signed_divide_int_def signed_modulo_int_def)+

lemma durSeconds_rnd:
  assumes "0 \<le> d" "int64 d"
  shows "\<exists>v. durSeconds d = rnd (of_int (d div Second) + v) \<and> 0 \<le> v \<and> v < 1 \<and> i2f (d mod Second) / flit (10 ^ 9) = Fin v"
proof -
  obtain v where v: "i2f (d mod Second) / flit (10 ^ 9) = Fin v" "0 \<le> v" "v < 1" using subsecond_le[of "d mod Second"] by auto
  have "0 \<le> d div Second" "d div Second \<le> 2 ^ 53" using assms by (auto simp: int64_def)
  then have "i2f (d div Second) = Fin (of_int (d div Second))" by (intro i2f_small) simp
  then show ?thesis using v unfolding durSeconds_def sdiv_Second[OF assms(1)] by (simp add: plus_float64_def)
qed

lemma intSeconds_trunc:
  assumes "0 \<le> d" "int64 d"
  shows "\<exists>r. durSeconds d = Fin r \<and> of_int (d div Second) \<le> r \<and> r \<le> of_int (d div Second) + 1 \<and> intSeconds cv d = \<lfloor>r\<rfloor>"
proof -
  obtain v where v: "durSeconds d = rnd (of_int (d div Second) + v)" "0 \<le> v" "v < 1" using durSeconds_rnd[OF assms] by blast
  have b: "0 \<le> d div Second" "d div Second + 1 \<le> 2 ^ 53" using assms by (auto simp: int64_def)
  have "rnd (of_int (d div Second)) \<le> rnd (of_int (d div Second) + v)"
    "rnd (of_int (d div Second) + v) \<le> rnd (of_int (d div Second + 1))"
    by (rule rnd_mono; use v in simp)+
  moreover have "rnd (of_int (d div Second)) = Fin (of_int (d div Second))"
    "rnd (of_int (d div Second + 1)) = Fin (of_int (d div Second + 1))"
    by (rule rnd_of_int; use b in simp)+
  ultimately obtain r where r: "durSeconds d = Fin r" "of_int (d div Second) \<le> r" "r \<le> of_int (d div Second) + 1"
    using v(1) by (cases "rnd (of_int (d div Second) + v)") auto
  have "0 \<le> r" using r(2) b(1) by (meson of_int_0_le_iff order_trans)
  moreover have "\<lfloor>r\<rfloor> \<le> d div Second + 1" using r(3) floor_mono[of r "of_int (d div Second + 1)"] by simp
  then have "\<lfloor>r\<rfloor> \<le> 2 ^ 53" using b(2) by (rule order_trans)
  then have "\<lfloor>r\<rfloor> < 2 ^ 63" by (rule order_le_less_trans) simp
  ultimately have "int64 (trunc r)" by (simp add: trunc_def int64_def del: floor_less_numeral)
  then show ?thesis using r \<open>0 \<le> r\<close> by (simp add: intSeconds_def trunc_def)
qed

lemma intSeconds_zero:
  assumes d: "0 \<le> d" "d < Second"
  shows "intSeconds cv d = 0"
proof -
  obtain v where v: "i2f d / flit (10 ^ 9) = Fin v" "0 \<le> v" "v < 1" using subsecond_le[OF d] by auto
  have q: "d div Second = 0" "d mod Second = d" using d by simp_all
  have "durSeconds d = rnd v" unfolding durSeconds_def sdiv_Second[OF d(1)] q v(1) by (simp add: plus_float64_def)
  moreover have "valid64 (Fin v)" using v(1) subsecond[OF d] by (metis valid64_rnd)
  ultimately have "durSeconds d = Fin v" using rnd_id by simp
  moreover have "\<lfloor>v\<rfloor> = 0" using v by (simp add: floor_eq_iff)
  ultimately show ?thesis using v by (simp add: intSeconds_def trunc_def int64_def)
qed

lemma intSeconds_pos:
  assumes "Second \<le> d" "int64 d"
  shows "1 \<le> intSeconds cv d"
proof -
  have "0 \<le> d" using assms(1) by simp
  then obtain r :: rat where r: "of_int (d div Second) \<le> r" "intSeconds cv d = \<lfloor>r\<rfloor>"
    using intSeconds_trunc[of d cv, OF _ assms(2)] by blast
  have "1 \<le> d div Second" using assms zdiv_mono1[of Second d Second] by simp
  then have "(1 :: rat) \<le> of_int (d div Second)" by simp
  then show ?thesis using r by linarith
qed

lemma intSeconds_mono:
  assumes "0 \<le> c" "c \<le> d" "int64 d"
  shows "intSeconds cv c \<le> intSeconds cv d"
proof -
  have c: "int64 c" using assms by (simp add: int64_def)
  obtain r1 where r1: "durSeconds c = Fin r1" "r1 \<le> of_int (c div Second) + 1" "intSeconds cv c = \<lfloor>r1\<rfloor>"
    using intSeconds_trunc[OF assms(1) c] by blast
  obtain r2 where r2: "durSeconds d = Fin r2" "of_int (d div Second) \<le> r2" "intSeconds cv d = \<lfloor>r2\<rfloor>"
    using intSeconds_trunc[of d cv] assms by auto
  have "r1 \<le> r2"
  proof (cases "c div Second = d div Second")
    case True
    obtain v where v: "durSeconds c = rnd (of_int (c div Second) + v)" "i2f (c mod Second) / flit (10 ^ 9) = Fin v"
      using durSeconds_rnd[OF assms(1) c] by blast
    obtain u where u: "durSeconds d = rnd (of_int (d div Second) + u)" "i2f (d mod Second) / flit (10 ^ 9) = Fin u"
      using durSeconds_rnd[of d] assms by auto
    have "c mod Second \<le> d mod Second" using True assms(2) by (metis add_le_cancel_left mult_div_mod_eq)
    have "i2f (c mod Second) / flit (10 ^ 9) \<le> i2f (d mod Second) / flit (10 ^ 9)"
      using \<open>c mod Second \<le> d mod Second\<close> by (subst (1 2) subsecond) (auto intro: rnd_mono divide_right_mono)
    then have "rnd (of_int (c div Second) + v) \<le> rnd (of_int (d div Second) + u)"
      using True u(2) v(2) by (intro rnd_mono) simp
    then have "Fin r1 \<le> Fin r2" using u(1) v(1) r1(1) r2(1) by metis
    then show ?thesis by simp
  next
    case False
    then have "c div Second + 1 \<le> d div Second" using assms(2) by (metis add1_zle_eq order_less_le zdiv_mono1 zero_less_numeral zero_less_power)
    then have "(of_int (c div Second) :: rat) + 1 \<le> of_int (d div Second)" by (metis of_int_1 of_int_add of_int_le_iff)
    then show ?thesis using r1 r2 by linarith
  qed
  then show ?thesis using r1 r2 by (simp add: floor_mono)
qed

section \<open>Registration of metrics\<close>

definition reg_inv :: "Registry \<Rightarrow> bool" where
  "reg_inv r \<longleftrightarrow> distinct (map fst (regMetrics r)) \<and> distinct (regDescs r) \<and>
     set (regDescs r) = (\<Union>n\<in>fst ` set (regMetrics r). set (metricDescs n))"

definition empty_registry :: Registry where
  "empty_registry = \<lparr>regMetrics = [], regDescs = []\<rparr>"

lemma distinct_metricDescs: "distinct (metricDescs n)"
  by (simp add: metricDescs_def)

lemma metricDescs_disjoint: "n \<noteq> n' \<Longrightarrow> set (metricDescs n) \<inter> set (metricDescs n') = {}"
  by (auto simp: metricDescs_def)

lemma update_new: "k \<notin> fst ` set xs \<Longrightarrow> AList.update k v xs = xs @ [(k, v)]"
  by (induction xs) auto

lemma GetOrCreate_reg_inv:
  assumes "reg_inv r"
  shows "\<exists>m r'. GetOrCreate n r = Ok (m, r') \<and> reg_inv r' \<and> map_of (regMetrics r') n = Some m"
proof (cases "map_of (regMetrics r) n")
  case None
  then have n: "n \<notin> fst ` set (regMetrics r)" by (simp add: map_of_eq_None_iff)
  then have "set (metricDescs n) \<inter> set (regDescs r) = {}"
    using assms metricDescs_disjoint[of n] unfolding reg_inv_def by blast
  then have "metrics_New n (regDescs r) \<noteq> Panic" "distinct (metricDescs n @ regDescs r)"
    using assms distinct_metricDescs by (auto simp: metrics_New_def reg_inv_def)
  then show ?thesis using None n assms
    by (auto simp: GetOrCreate_def metrics_New_def reg_inv_def update_new map_of_append map_add_def)
next
  case (Some m)
  then show ?thesis using assms by (auto simp: GetOrCreate_def)
qed

section \<open>Properties of the forecast loop\<close>

text \<open>The bounds that hold of the served plan and of the running count after any number of ticks.\<close>

lemma run_stored_plan:
  assumes "valid_workload wc" "buildWorkloadForecaster cv parse wc reg = Ok (w, reg')"
    "wf_Run mem_Put es (w, NewMemoryStore) = (z, w', s)" "mem_GetLatest None (wName wc) s = Ok (Some x)"
  shows "length (DesiredReplicas x) = length (Values x)"
    "list_all (\<lambda>r. wMinReplicas wc \<le> r \<and> r \<le> wMaxReplicas wc) (DesiredReplicas x)"
    "wMinReplicas wc \<le> wf_currentReplicas w'" "wf_currentReplicas w' \<le> wMaxReplicas wc"
proof -
  note v = assms(1) and b = buildWorkloadForecaster_Ok[OF assms(2)]
  obtain q where q: "wf_policy w = workloadPolicy wc q" using b(2) by blast
  have i: "run_inv (w, NewMemoryStore)"
    using b(3) v by (simp add: run_inv_def wf_inv_def q workloadPolicy_bounds NewMemoryStore_def) (simp add: valid_workload_def)
  have "runTicks mem_Put es (w, NewMemoryStore) = (z, w', s)"
    using assms(3) b(4) v by (simp add: wf_Run_def valid_workload_def)
  from runTicks_inv[OF i this] have r: "run_inv (w', s)" "wf_static w' = wf_static w" by simp_all
  note f = wf_static_simps[OF r(2)]
  have "plan_ok (wf_policy w) x" "wf_inv w'"
    using r(1) assms(4) f b(1) by (simp_all add: run_inv_def mem_GetLatest_def)
  then show "length (DesiredReplicas x) = length (Values x)"
    "list_all (\<lambda>r. wMinReplicas wc \<le> r \<and> r \<le> wMaxReplicas wc) (DesiredReplicas x)"
    "wMinReplicas wc \<le> wf_currentReplicas w'" "wf_currentReplicas w' \<le> wMaxReplicas wc"
    unfolding plan_ok_def wf_inv_def f q workloadPolicy_bounds[OF v] by blast+
qed

text \<open>
  C2: whatever a workload that passed validation is forecast from, every plan its loop publishes stays
  within the configured bounds. After any sequence of ticks on the memory store (failed ticks, ticks
  that time out, a loop ended by a panic), the snapshot served for the workload has one replica count
  per forecast value and each lies between the minimum and the maximum of the configuration; so does
  the count the next tick starts from.
\<close>

theorem run_plans_in_bounds:
  assumes "validateWorkload wc0 = Ok wc" "buildWorkloadForecaster cv parse wc reg = Ok (w, reg')"
    "wf_Run mem_Put es (w, NewMemoryStore) = (z, w', s)" "mem_GetLatest None (wName wc) s = Ok (Some x)"
  shows "length (DesiredReplicas x) = length (Values x) \<and>
     list_all (\<lambda>r. wMinReplicas wc \<le> r \<and> r \<le> wMaxReplicas wc) (DesiredReplicas x) \<and>
     wMinReplicas wc \<le> wf_currentReplicas w' \<and> wf_currentReplicas w' \<le> wMaxReplicas wc"
  using run_stored_plan[OF validate_valid[OF assms(1)] assms(2-4)] by blast

text \<open>
  C9: the error paths of a tick. A tick that fails at any stage, or panics, leaves the memory store
  exactly as it was, so a failure never replaces a good forecast; the replica count the next tick
  starts from changes only when the failure is that of the store itself. A tick that succeeds replaces
  the workload's snapshot, and nothing else, with a plan made at the time of the tick whose first count
  is the one the next tick starts from.
\<close>

theorem tick_atomic:
  assumes "tick mem_Put e (w, s) = (r, w', s')" "wf_inv w"
  shows "wf_static w' = wf_static w \<and>
    (r \<noteq> Ok () \<longrightarrow> s' = s \<and> ((\<forall>y. r \<noteq> Err (TickStore y)) \<longrightarrow> wf_currentReplicas w' = wf_currentReplicas w)) \<and>
    (r = Ok () \<longrightarrow> (\<exists>x. plan_ok (wf_policy w) x \<and> Workload x = wf_name w \<and> GeneratedAt x = tNow e \<and>
       (Values x \<noteq> [] \<longrightarrow> wf_currentReplicas w' = hd (DesiredReplicas x)) \<and>
       s' = s\<lparr>snapshots := AList.update (wf_name w) x (snapshots s)\<rparr>))"
  using tick_mem[OF assms] by blast


text \<open>
  C33: validation does not protect the model constructors. For a validated workload with the ARIMA model
  and a usable adapter, building the forecaster panics exactly when the step is below one second, the
  differencing order is outside 0 to 2, or another order is negative: none of these is checked by the
  validation.
\<close>

theorem validated_arima_panics_iff:
  assumes "validateWorkload wc0 = Ok wc" "wModel wc = ''arima''" "int64 (wHorizon wc)" "reg_inv reg"
    "adapters_New parse (wAdapter wc) (wAdapterConfig wc) (intSeconds cv (wStep wc)) = Ok a"
  shows "buildWorkloadForecaster cv parse wc reg = Panic \<longleftrightarrow>
    wStep wc < Second \<or> wARIMA_D wc < 0 \<or> wARIMA_D wc > 2 \<or> wARIMA_P wc < 0 \<or> wARIMA_Q wc < 0"
proof -
  have v: "valid_workload wc" by (rule validate_valid[OF assms(1)])
  then have w: "0 < wStep wc" "wStep wc \<le> wHorizon wc" "wMetric wc \<noteq> []" "int64 (wStep wc)"
    using assms(3) by (auto simp: valid_workload_def int64_def)
  have s: "intSeconds cv (wStep wc) \<le> 0 \<longleftrightarrow> wStep wc < Second"
    using intSeconds_zero[of "wStep wc" cv] intSeconds_pos[of "wStep wc" cv] w by (cases "wStep wc < Second") auto
  have h: "\<not> intSeconds cv (wHorizon wc) < intSeconds cv (wStep wc)"
    using intSeconds_mono[of "wStep wc" "wHorizon wc" cv] w assms(3) by simp
  have g: "GetOrCreate (wName wc) reg \<noteq> Panic" using GetOrCreate_reg_inv[OF assms(4)] by (metis outcome.distinct(3))
  have np: "parseFloat t \<noteq> Panic" for t by (auto simp: parseFloat_def split: option.splits float64.splits)
  have q: "ParseQuantileLevel t \<noteq> Panic" for t
    using np by (auto simp: ParseQuantileLevel_def quantileNumber_def Let_def outcome_simps split: if_splits)
  have "buildWorkloadForecaster cv parse wc reg = Panic \<longleftrightarrow> NewForWorkload cv wc = Panic"
    using assms(5) g q by (auto simp: buildWorkloadForecaster_def outcome_simps split: prod.splits)
  also have "\<dots> \<longleftrightarrow> intSeconds cv (wStep wc) \<le> 0 \<or> wARIMA_D wc < 0 \<or> wARIMA_D wc > 2 \<or> wARIMA_P wc < 0 \<or> wARIMA_Q wc < 0"
    using assms(2) w(3) h by (auto simp: NewForWorkload_def NewARIMAModel_def Let_def outcome_simps)
  finally show ?thesis unfolding s .
qed

section \<open>Concrete runs\<close>

definition loop_workload :: "string \<Rightarrow> WorkloadConfig" where
  "loop_workload model =
     \<lparr>wName = ''web'', wMetric = ''rps'', wAdapter = ''prometheus'', wAdapterConfig = [(''query'', ''q'')],
      wHorizon = 3 * Minute, wStep = Minute, wInterval = 30 * Second, wWindow = 30 * Minute, wModel = model,
      wTargetPerPod = Fin 100, wHeadroom = Fin 1, wQuantileLevel = ''0'', wMinReplicas = 1, wMaxReplicas = 100,
      wUpMaxFactorPerStep = Fin 2, wDownMaxPercentPerStep = 50, wARIMA_P = 0, wARIMA_D = 3, wARIMA_Q = 0,
      wSARIMA_P = 0, wSARIMA_D = 0, wSARIMA_Q = 0, wSARIMA_SP = 1, wSARIMA_SD = 1, wSARIMA_SQ = 1, wSARIMA_S = 24,
      wBYOMURL = ''http://m''\<rparr>"

definition loop_rows :: "int list \<Rightarrow> DataFrame" where
  "loop_rows xs = map (\<lambda>x. [(''ts'', AString ''2023-11-14T22:13:20Z''), (''value'', AFloat (i2f x))]) xs"

definition loop_env :: "int list \<Rightarrow> TickEnv" where
  "loop_env xs =
     \<lparr>tCv = amd64_cv, tLoc = (\<lambda>_. 0), tOrder = (\<lambda>_. forwards), tCollect = (\<lambda>a w. Ok (loop_rows xs)),
      tSend = replying 200 [Fin 510, Fin 550, Fin 590], tTrainCtx = None, tPredictCtx = None, tStoreCtx = None, tNow = sample_time\<rparr>"

definition loop_named :: "string \<Rightarrow> WorkloadForecaster" where
  "loop_named n =
     NewWorkloadForecaster n (Prometheus \<lparr>pServerURL = ''http://localhost:9090'', pQuery = ''q'', pStepSeconds = 60\<rparr>)
       (MBYOM (NewBYOMModel ''http://m'' ''rps'' 60 180)) (workloadPolicy (loop_workload ''byom'') (Fin 0))
       (3 * Minute) Minute (30 * Minute) (30 * Second)
       (Some \<lparr>mDescs = metricDescs n, mCollects = 0, mPredicts = 0, mCapacities = 0, mForecastAge = 0,
              mDesiredReplicas = 0, mPredictedValue = 0, mErrors = []\<rparr>)"

abbreviation loop_forecaster :: WorkloadForecaster where
  "loop_forecaster \<equiv> loop_named ''web''"

lemma loop_valid: "valid_workload (loop_workload ''byom'')" "valid_workload (loop_workload ''arima'')"
  by code_simp+

lemmas loop_validated = loop_valid[THEN validate_id]

lemma loop_seconds: "intSeconds amd64_cv (60 * Second) = 60" "intSeconds amd64_cv (180 * Second) = 180"
  by code_simp+

lemma loop_quantile: "ParseQuantileLevel ''0'' = Ok (Fin 0)"
  by code_simp

lemma loop_built:
  "\<exists>reg. buildWorkloadForecaster amd64_cv (\<lambda>_. None) ((loop_workload ''byom'')\<lparr>wName := n\<rparr>) empty_registry = Ok (loop_named n, reg)"
proof -
  let ?m = "\<lparr>mDescs = metricDescs n, mCollects = 0, mPredicts = 0, mCapacities = 0,
      mForecastAge = 0, mDesiredReplicas = 0, mPredictedValue = 0, mErrors = []\<rparr>"
  have "GetOrCreate n empty_registry = Ok (?m, empty_registry\<lparr>regMetrics := [(n, ?m)], regDescs := metricDescs n\<rparr>)"
    by (simp add: GetOrCreate_def metrics_New_def empty_registry_def distinct_metricDescs)
  then show ?thesis using loop_seconds loop_quantile
    by (simp add: buildWorkloadForecaster_def loop_workload_def loop_named_def adapters_New_def newPrometheus_def
        cfg_def or_default_def NewForWorkload_def workloadPolicy_def Let_def)
qed

lemma loop_workload_name: "(loop_workload m)\<lparr>wName := ''web''\<rparr> = loop_workload m"
  by (simp add: loop_workload_def)

text \<open>The plan of one tick of the sample workload.\<close>

definition loop_forecast :: Forecast where
  "loop_forecast = \<lparr>fMetric = ''rps'', fValues = [Fin 510, Fin 550, Fin 590], fStepSec = 60, fHorizon = 180, fQuantiles = None\<rparr>"

definition loop_snap :: "string \<Rightarrow> Snapshot" where
  "loop_snap n = \<lparr>Workload = n, Metric = ''rps'', GeneratedAt = sample_time, StepSeconds = 60, HorizonSeconds = 180,
     Values = [Fin 510, Fin 550, Fin 590], DesiredReplicas = [2, 4, 6], Quantiles = None\<rparr>"

abbreviation loop_snapshot :: Snapshot where
  "loop_snapshot \<equiv> loop_snap ''web''"

lemma loop_tick:
  assumes "put None (loop_snap n) s = (Ok (), s')"
  shows "\<exists>w. tick put (loop_env [400, 500]) (loop_named n, s) = (Ok (), w, s') \<and> wf_currentReplicas w = 2"
proof -
  let ?e = "loop_env [400, 500]" and ?w = "wf_record RecordCollect (loop_named n)"
  define ff where "ff = (case BuildFeatures (\<lambda>_. 0) amd64_cv (loop_rows [400, 500]) of Ok r \<Rightarrow> r)"
  have c: "tCollect ?e (wf_adapter (loop_named n)) (intSeconds (tCv ?e) (wf_window (loop_named n))) = Ok (loop_rows [400, 500])"
    by (simp add: loop_env_def)
  have b: "BuildFeatures (tLoc ?e) (tCv ?e) (loop_rows [400, 500]) = Ok ff" unfolding ff_def by code_simp
  have m: "wf_model ?w = MBYOM (NewBYOMModel ''http://m'' ''rps'' 60 180)"
    by (simp add: loop_named_def NewWorkloadForecaster_def)
  have t: "wf_train ?e ff ?w = Ok ?w"
    using m by (simp add: wf_train_def byom_Train_def)
  have "byom_Predict (replying 200 [Fin 510, Fin 550, Fin 590]) sample_time (NewBYOMModel ''http://m'' ''rps'' 60 180) ff = Ok loop_forecast"
    unfolding ff_def by code_simp
  then have p: "model_Predict ?e (wf_model ?w) ff = Ok loop_forecast" using m by (simp add: loop_env_def)
  obtain d w2 where d: "wf_calculateReplicas ?e (fValues loop_forecast) (fQuantiles loop_forecast) (wf_record RecordPredict ?w) = (d, w2)"
    by fastforce
  have "fst (wf_calculateReplicas ?e (fValues loop_forecast) (fQuantiles loop_forecast) (wf_record RecordPredict ?w)) = [2, 4, 6]"
    "wf_currentReplicas (snd (wf_calculateReplicas ?e (fValues loop_forecast) (fQuantiles loop_forecast) (wf_record RecordPredict ?w))) = 2"
    "wf_snapshot ?e loop_forecast [2, 4, 6]
      (snd (wf_calculateReplicas ?e (fValues loop_forecast) (fQuantiles loop_forecast) (wf_record RecordPredict ?w))) = loop_snap n"
    by code_simp+
  then have d': "d = [2, 4, 6]" "wf_currentReplicas w2 = 2" "wf_snapshot ?e loop_forecast d w2 = loop_snap n" unfolding d by auto
  have "put (tStoreCtx ?e) (wf_snapshot ?e loop_forecast d w2) s = (Ok (), s')"
    unfolding d'(3) using assms by (simp add: loop_env_def)
  from tick_succeeds[where put = put, OF c b t p d this] d'(2) show ?thesis by auto
qed

theorem run_plans_in_bounds_witness:
  "\<exists>w s. wf_Run mem_Put [loop_env [400, 500]] (loop_forecaster, NewMemoryStore) = (CtxDone, w, s) \<and>
     mem_GetLatest None ''web'' s = Ok (Some loop_snapshot) \<and> list_all (\<lambda>r. 1 \<le> r \<and> r \<le> 100) (DesiredReplicas loop_snapshot) \<and>
     wf_currentReplicas w = 2"
proof -
  let ?s = "NewMemoryStore\<lparr>snapshots := [(''web'', loop_snapshot)]\<rparr>"
  obtain w where w: "tick mem_Put (loop_env [400, 500]) (loop_forecaster, NewMemoryStore) = (Ok (), w, ?s)" "wf_currentReplicas w = 2"
    using loop_tick[of mem_Put "''web''" NewMemoryStore ?s]
    by (auto simp: mem_Put_def loop_snap_def NewMemoryStore_def)
  have i: "0 < wf_interval loop_forecaster" by (simp add: loop_named_def NewWorkloadForecaster_def)
  then have r: "wf_Run mem_Put [loop_env [400, 500]] (loop_forecaster, NewMemoryStore) = (CtxDone, w, ?s)"
    using w by (simp add: wf_Run_def)
  have f: "wName (loop_workload ''byom'') = ''web''" "wMinReplicas (loop_workload ''byom'') = 1"
    "wMaxReplicas (loop_workload ''byom'') = 100" by (simp_all add: loop_workload_def)
  have x: "mem_GetLatest None ''web'' ?s = Ok (Some loop_snapshot)" by (simp add: mem_GetLatest_def)
  obtain reg where b: "buildWorkloadForecaster amd64_cv (\<lambda>_. None) (loop_workload ''byom'') empty_registry = Ok (loop_forecaster, reg)"
    using loop_built[of "''web''"] unfolding loop_workload_name by blast
  from run_plans_in_bounds[OF loop_validated(1) b r, of loop_snapshot] show ?thesis
    using x r w(2) unfolding f by blast
qed

theorem tick_atomic_witness:
  "\<exists>r w s. tick mem_Put ((loop_env [400])\<lparr>tPredictCtx := Some Canceled\<rparr>)
     (loop_forecaster\<lparr>wf_model := MARIMA (trained_arima 0)\<rparr>, NewMemoryStore) = (r, w, s) \<and> r = Err (TickPredict (ModelCtx Canceled)) \<and>
     s = NewMemoryStore \<and> wf_currentReplicas w = 1"
proof -
  let ?w = "loop_forecaster\<lparr>wf_model := MARIMA (trained_arima 0)\<rparr>"
  obtain r w s where t: "tick mem_Put ((loop_env [400])\<lparr>tPredictCtx := Some Canceled\<rparr>) (?w, NewMemoryStore) = (r, w, s)"
    by (metis prod_cases3)
  have "fst (tick mem_Put ((loop_env [400])\<lparr>tPredictCtx := Some Canceled\<rparr>) (?w, NewMemoryStore)) = Err (TickPredict (ModelCtx Canceled))"
    by code_simp
  then have r: "r = Err (TickPredict (ModelCtx Canceled))" using t by simp
  have "wf_inv ?w" by code_simp
  moreover have "wf_currentReplicas ?w = 1" by code_simp
  ultimately show ?thesis using tick_atomic[OF t] r t by auto
qed


theorem validated_arima_panics_iff_witness:
  "buildWorkloadForecaster amd64_cv (\<lambda>_. None) (loop_workload ''arima'') empty_registry = Panic \<and>
   validateWorkload (loop_workload ''arima'') = Ok (loop_workload ''arima'')"
proof -
  have a: "wModel (loop_workload ''arima'') = ''arima''" "int64 (wHorizon (loop_workload ''arima''))"
    "wARIMA_D (loop_workload ''arima'') = 3" by code_simp+
  have r: "reg_inv empty_registry" by (simp add: reg_inv_def empty_registry_def)
  have "(case adapters_New (\<lambda>_. None) (wAdapter (loop_workload ''arima'')) (wAdapterConfig (loop_workload ''arima''))
          (intSeconds amd64_cv (wStep (loop_workload ''arima''))) of Ok _ \<Rightarrow> True | _ \<Rightarrow> False)" by code_simp
  then obtain ad where ad: "adapters_New (\<lambda>_. None) (wAdapter (loop_workload ''arima'')) (wAdapterConfig (loop_workload ''arima''))
          (intSeconds amd64_cv (wStep (loop_workload ''arima''))) = Ok ad" by (auto split: outcome.splits)
  show ?thesis using validated_arima_panics_iff[OF loop_validated(2) a(1,2) r ad] a(3)
      loop_validated(2) by simp
qed


end
