(* ===== verification/Multi.thy ===== *)
theory Multi
  imports Forecaster
begin

text \<open>
  The manager of the workload forecasters, the type \<open>MultiForecaster\<close> of
  \<open>src/cmd/forecaster/forecaster.go\<close>, with the adapter the operator calls it through,
  \<open>operator.go\<close>, and the start-up of \<open>main.go\<close> with its logger. The goroutines are tasks that
  interleave with the manager's calls: the mutex makes the body of \<open>Upsert\<close> and the first half of
  \<open>Remove\<close> atomic, while a tick checks its context and takes the store's lock in two steps.
\<close>

section \<open>State\<close>

text \<open>
  A task is a goroutine that \<open>launch\<close> started. Between its ticks it is waiting; in a tick, once \<open>Put\<close>
  has found the context live, it holds the snapshot it is about to write.
\<close>

datatype task_pc = Waiting | Putting Snapshot | Ended

record task =
  taskForecaster :: WorkloadForecaster
  taskCancelled :: bool
  taskPc :: task_pc

text \<open>The cancel function of a managed forecaster is the number of the task it cancels.\<close>

record managedForecaster =
  mgForecaster :: WorkloadForecaster
  mgCancel :: "nat option"

record MultiForecaster =
  mfStore :: MemoryStore
  mfStarted :: bool
  mfBaseDone :: bool
  mfRunning :: "(string \<times> managedForecaster) list"
  mfTasks :: "task list"
  mfDeleting :: "string list"

section \<open>Operations\<close>

definition register :: "WorkloadForecaster \<Rightarrow> (string \<times> managedForecaster) list \<Rightarrow> (string \<times> managedForecaster) list" where
  "register f = AList.update (wf_name f) \<lparr>mgForecaster = f, mgCancel = None\<rparr>"

definition NewMultiForecaster :: "WorkloadForecaster list \<Rightarrow> MemoryStore \<Rightarrow> MultiForecaster" where
  "NewMultiForecaster workloads store =
     \<lparr>mfStore = store, mfStarted = False, mfBaseDone = False,
      mfRunning = foldl (\<lambda>r f. register f r) [] workloads, mfTasks = [], mfDeleting = []\<rparr>"

text \<open>\<open>launch\<close>: the context is derived from the base context, so it is done when that is.\<close>

definition launch :: "string \<Rightarrow> managedForecaster \<Rightarrow> MultiForecaster \<Rightarrow> MultiForecaster" where
  "launch name managed mf =
     mf\<lparr>mfTasks := mfTasks mf @ [\<lparr>taskForecaster = mgForecaster managed, taskCancelled = mfBaseDone mf, taskPc = Waiting\<rparr>],
        mfRunning := AList.update name (managed\<lparr>mgCancel := Some (length (mfTasks mf))\<rparr>) (mfRunning mf)\<rparr>"

definition cancelTask :: "nat option \<Rightarrow> MultiForecaster \<Rightarrow> MultiForecaster" where
  "cancelTask c mf =
     (case c of None \<Rightarrow> mf
      | Some i \<Rightarrow> mf\<lparr>mfTasks := (mfTasks mf)[i := (mfTasks mf ! i)\<lparr>taskCancelled := True\<rparr>]\<rparr>)"

definition mf_Start :: "(nat \<Rightarrow> nat list) \<Rightarrow> MultiForecaster \<Rightarrow> MultiForecaster" where
  "mf_Start order mf =
     (let mf = mf\<lparr>mfStarted := True\<rparr>
      in foldl (\<lambda>mf (name, managed). launch name managed mf) mf (range_over order (mfRunning mf)))"

definition mf_Upsert :: "WorkloadForecaster \<Rightarrow> MultiForecaster \<Rightarrow> MultiForecaster" where
  "mf_Upsert f mf =
     (let mf = (case map_of (mfRunning mf) (wf_name f) of
                  Some existing \<Rightarrow> cancelTask (mgCancel existing) mf
                | None \<Rightarrow> mf);
          managed = \<lparr>mgForecaster = f, mgCancel = None\<rparr>;
          mf = mf\<lparr>mfRunning := AList.update (wf_name f) managed (mfRunning mf)\<rparr>
      in if mfStarted mf then launch (wf_name f) managed mf else mf)"

text \<open>
  \<open>Remove\<close> under the manager's lock; the deletion from the store follows after the lock is released,
  so the name is noted until then.
\<close>

definition mf_Remove_locked :: "string \<Rightarrow> MultiForecaster \<Rightarrow> MultiForecaster" where
  "mf_Remove_locked name mf =
     (case map_of (mfRunning mf) name of
        None \<Rightarrow> mf
      | Some managed \<Rightarrow>
          (cancelTask (mgCancel managed) mf)
            \<lparr>mfRunning := AList.delete name (mfRunning mf), mfDeleting := mfDeleting mf @ [name]\<rparr>)"

definition mf_Remove_delete :: "string \<Rightarrow> MultiForecaster \<Rightarrow> MultiForecaster" where
  "mf_Remove_delete name mf =
     mf\<lparr>mfStore := snd (mem_Delete name (mfStore mf)), mfDeleting := remove1 name (mfDeleting mf)\<rparr>"

definition mf_Remove :: "string \<Rightarrow> MultiForecaster \<Rightarrow> MultiForecaster" where
  "mf_Remove name mf =
     (if map_of (mfRunning mf) name = None then mf else mf_Remove_delete name (mf_Remove_locked name mf))"

definition mf_Len :: "MultiForecaster \<Rightarrow> int" where
  "mf_Len mf = int (length (mfRunning mf))"

definition mf_GetStore :: "MultiForecaster \<Rightarrow> MemoryStore" where
  "mf_GetStore mf = mfStore mf"

text \<open>\<open>Run\<close> refuses an empty manager; otherwise it starts the tasks and waits for them.\<close>

definition mf_Run :: "(nat \<Rightarrow> nat list) \<Rightarrow> MultiForecaster \<Rightarrow> (string, MultiForecaster) outcome" where
  "mf_Run order mf = (if mfRunning mf = [] then Err ''no workloads configured'' else Ok (mf_Start order mf))"

text \<open>The operator's adapter: a workload that cannot be built leaves the running one in place.\<close>

definition manager_Upsert ::
  "(float64 \<Rightarrow> int) \<Rightarrow> (string \<Rightarrow> json option) \<Rightarrow> WorkloadConfig \<Rightarrow> Registry \<Rightarrow> MultiForecaster \<Rightarrow>
   (build_error, Registry) outcome \<times> MultiForecaster" where
  "manager_Upsert cv parse wc reg mf =
     (case buildWorkloadForecaster cv parse wc reg of
        Ok (f, reg) \<Rightarrow> (Ok reg, mf_Upsert f mf)
      | Err e \<Rightarrow> (Err e, mf)
      | Panic \<Rightarrow> (Panic, mf))"

definition manager_Remove :: "string \<Rightarrow> MultiForecaster \<Rightarrow> MultiForecaster" where
  "manager_Remove name mf = mf_Remove name mf"

section \<open>Interleaving\<close>

text \<open>A store that only notes the snapshot it is given: the part of a tick before the write.\<close>

definition noting_put :: "ctx \<Rightarrow> Snapshot \<Rightarrow> Snapshot option \<Rightarrow> (store_error, unit) outcome \<times> Snapshot option" where
  "noting_put c x s = (Ok (), Some x)"

definition setTask :: "nat \<Rightarrow> task \<Rightarrow> MultiForecaster \<Rightarrow> MultiForecaster" where
  "setTask i t mf = mf\<lparr>mfTasks := (mfTasks mf)[i := t]\<rparr>"

text \<open>
  \<open>Start\<close> has no guard in the code; it is called once, by \<open>main\<close> (or by \<open>Run\<close>), and the rule allows it once.
  A second call would launch every workload again (\<open>second_Start_two_loops\<close>).
\<close>

inductive mf_step :: "MultiForecaster \<Rightarrow> MultiForecaster \<Rightarrow> bool" where
  Start: "\<not> mfStarted mf \<Longrightarrow> is_order order \<Longrightarrow> mf_step mf (mf_Start order mf)"
| Upsert: "mf_step mf (mf_Upsert f mf)"
| RemoveLocked: "mf_step mf (mf_Remove_locked name mf)"
| RemoveDelete: "name \<in> set (mfDeleting mf) \<Longrightarrow> mf_step mf (mf_Remove_delete name mf)"
| BaseCancel: "mf_step mf (mf\<lparr>mfBaseDone := True, mfTasks := map (\<lambda>t. t\<lparr>taskCancelled := True\<rparr>) (mfTasks mf)\<rparr>)"
| TickPut: "i < length (mfTasks mf) \<Longrightarrow> mfTasks mf ! i = t \<Longrightarrow> taskPc t = Waiting \<Longrightarrow> \<not> taskCancelled t \<Longrightarrow>
    tick noting_put e (taskForecaster t, None) = (r, f, Some x) \<Longrightarrow>
    mf_step mf (setTask i (t\<lparr>taskForecaster := f, taskPc := Putting x\<rparr>) mf)"
| TickWrite: "i < length (mfTasks mf) \<Longrightarrow> mfTasks mf ! i = t \<Longrightarrow> taskPc t = Putting x \<Longrightarrow>
    mf_step mf (setTask i (t\<lparr>taskPc := Waiting\<rparr>) (mf\<lparr>mfStore := snd (mem_Put None x (mfStore mf))\<rparr>))"
| TickNone: "i < length (mfTasks mf) \<Longrightarrow> mfTasks mf ! i = t \<Longrightarrow> taskPc t = Waiting \<Longrightarrow>
    tick noting_put e (taskForecaster t, None) = (r, f, None) \<Longrightarrow>
    mf_step mf (setTask i (t\<lparr>taskForecaster := f\<rparr>) mf)"
| Return: "i < length (mfTasks mf) \<Longrightarrow> mfTasks mf ! i = t \<Longrightarrow> taskPc t = Waiting \<Longrightarrow> taskCancelled t \<Longrightarrow>
    mf_step mf (setTask i (t\<lparr>taskPc := Ended\<rparr>) mf)"
| Recover: "i < length (mfTasks mf) \<Longrightarrow> mfTasks mf ! i = t \<Longrightarrow> taskPc t = Waiting \<Longrightarrow>
    mf_step mf (setTask i (t\<lparr>taskPc := Ended\<rparr>) mf)"

inductive_cases mf_stepE: "mf_step mf mf'"

abbreviation mf_reach :: "MultiForecaster \<Rightarrow> MultiForecaster \<Rightarrow> bool" where
  "mf_reach \<equiv> mf_step\<^sup>*\<^sup>*"

section \<open>Start-up\<close>

text \<open>The handler of the logger: its level and whether it writes JSON.\<close>

datatype log_level = LevelDebug | LevelInfo | LevelWarn | LevelError

definition logger_New :: "Config \<Rightarrow> log_level \<times> bool" where
  "logger_New conf =
     ((if cLogLevel conf = ''debug'' then LevelDebug else if cLogLevel conf = ''info'' then LevelInfo
       else if cLogLevel conf = ''warn'' then LevelWarn else if cLogLevel conf = ''error'' then LevelError
       else LevelInfo), cLogFormat conf = ''json'')"

text \<open>
  \<open>main\<close> up to the point where the HTTP server is made, for the memory store: the manager and the age
  after which a snapshot is stale, or the exit code. Each configured workload is built in turn.
\<close>

fun addWorkloads ::
  "(float64 \<Rightarrow> int) \<Rightarrow> (string \<Rightarrow> json option) \<Rightarrow> WorkloadConfig list \<Rightarrow> Registry \<Rightarrow> MultiForecaster \<Rightarrow>
   (exit, MultiForecaster) outcome" where
  "addWorkloads cv parse [] reg mf = Ok mf"
| "addWorkloads cv parse (wc # wcs) reg mf =
     (case buildWorkloadForecaster cv parse wc reg of
        Ok (f, reg) \<Rightarrow> addWorkloads cv parse wcs reg (mf_Upsert f mf)
      | Err _ \<Rightarrow> Err (Exit 1)
      | Panic \<Rightarrow> Panic)"

definition forecaster_setup ::
  "(float64 \<Rightarrow> int) \<Rightarrow> (string \<Rightarrow> json option) \<Rightarrow> Config \<Rightarrow> (exit, MultiForecaster \<times> Duration) outcome" where
  "forecaster_setup cv parse conf =
     (let mf = NewMultiForecaster [] NewMemoryStore
      in if cOperator conf then Ok (mf_Start forwards mf, wrap64 (2 * cInterval conf))
         else case LoadWorkloads conf of
           Err _ \<Rightarrow> Err (Exit 1)
         | Panic \<Rightarrow> Panic
         | Ok wcs \<Rightarrow>
             bind_outcome (addWorkloads cv parse wcs empty_registry mf) (\<lambda>mf.
               case wcs of [] \<Rightarrow> Panic | wc # _ \<Rightarrow> Ok (mf_Start forwards mf, wrap64 (2 * wInterval wc))))"

section \<open>The invariant of the manager\<close>

abbreviation taskName :: "task \<Rightarrow> string" where
  "taskName t \<equiv> wf_name (taskForecaster t)"

text \<open>
  Every entry's cancel function is that of a task of the same workload, every task whose context is
  live is the one its workload's entry cancels, and a task writes only its own workload.
\<close>

definition entry_ok :: "task list \<Rightarrow> string \<times> managedForecaster \<Rightarrow> bool" where
  "entry_ok ts = (\<lambda>(n, m). wf_name (mgForecaster m) = n \<and>
     (case mgCancel m of None \<Rightarrow> True | Some i \<Rightarrow> i < length ts \<and> taskName (ts ! i) = n))"

definition task_ok :: "(string \<times> managedForecaster) list \<Rightarrow> nat \<Rightarrow> task \<Rightarrow> bool" where
  "task_ok running i t \<longleftrightarrow>
     (\<not> taskCancelled t \<longrightarrow> (\<exists>m. map_of running (taskName t) = Some m \<and> mgCancel m = Some i)) \<and>
     (\<forall>x. taskPc t = Putting x \<longrightarrow> Workload x = taskName t)"

definition mf_wf :: "MultiForecaster \<Rightarrow> bool" where
  "mf_wf mf \<longleftrightarrow> distinct (map fst (mfRunning mf)) \<and> (\<forall>e\<in>set (mfRunning mf). entry_ok (mfTasks mf) e) \<and>
     (\<forall>i<length (mfTasks mf). task_ok (mfRunning mf) i (mfTasks mf ! i)) \<and>
     (mfBaseDone mf \<longrightarrow> (\<forall>t\<in>set (mfTasks mf). taskCancelled t))"

definition mf_inv :: "MultiForecaster \<Rightarrow> bool" where
  "mf_inv mf \<longleftrightarrow> mf_wf mf \<and> (\<forall>(n, m)\<in>set (mfRunning mf). mfStarted mf = (mgCancel m \<noteq> None))"

lemma mf_wf_fields [simp]: "mf_wf (mf\<lparr>mfDeleting := ns\<rparr>) = mf_wf mf" "mf_wf (mf\<lparr>mfStore := st\<rparr>) = mf_wf mf"
  by (simp_all add: mf_wf_def)

lemma entry_ok_mono: "entry_ok ts e \<Longrightarrow> entry_ok (ts @ us) e"
  by (auto simp: entry_ok_def nth_append split: option.splits)

lemma entry_ok_update:
  "entry_ok ts e \<Longrightarrow> (i < length ts \<Longrightarrow> taskName t = taskName (ts ! i)) \<Longrightarrow> entry_ok (ts[i := t]) e"
  by (cases "i < length ts") (auto simp: entry_ok_def nth_list_update list_update_beyond split: option.splits)

lemma set_update: "distinct (map fst xs) \<Longrightarrow> set (AList.update k v xs) = insert (k, v) {(a, b) \<in> set xs. a \<noteq> k}"
proof -
  assume d: "distinct (map fst xs)"
  have "(a, b) \<in> set (AList.update k v xs) \<longleftrightarrow> a = k \<and> b = v \<or> a \<noteq> k \<and> (a, b) \<in> set xs" for a b
    using map_of_eq_Some_iff[OF AList.distinct_update[OF d, of k v], of a b] map_of_eq_Some_iff[OF d, of a b]
    by (auto simp: update_conv' split: if_splits)
  then show ?thesis by auto
qed

text \<open>A launch for an entry that has no cancel function yet.\<close>

lemma launch_wf:
  assumes "mf_wf mf" "map_of (mfRunning mf) n = Some m" "mgCancel m = None"
  shows "mf_wf (launch n m mf)" "distinct (map fst (mfRunning mf))"
proof -
  let ?ts = "mfTasks mf" and ?r = "mfRunning mf"
  let ?t = "\<lparr>taskForecaster = mgForecaster m, taskCancelled = mfBaseDone mf, taskPc = Waiting\<rparr>"
  let ?m = "m\<lparr>mgCancel := Some (length ?ts)\<rparr>"
  show d: "distinct (map fst ?r)" using assms(1) by (simp add: mf_wf_def)
  have nm: "wf_name (mgForecaster m) = n"
    using assms(1,2) by (auto simp: mf_wf_def entry_ok_def dest: map_of_SomeD)
  have e: "entry_ok (?ts @ [?t]) x" if "x \<in> set (AList.update n ?m ?r)" for x
  proof -
    from that have "x = (n, ?m) \<or> x \<in> set ?r" unfolding set_update[OF d] by auto
    then show ?thesis
    proof
      assume "x = (n, ?m)"
      then show ?thesis using nm by (simp add: entry_ok_def)
    next
      assume "x \<in> set ?r"
      then show ?thesis using assms(1) entry_ok_mono by (auto simp: mf_wf_def)
    qed
  qed
  have t: "task_ok (AList.update n ?m ?r) i ((?ts @ [?t]) ! i)" if "i < Suc (length ?ts)" for i
  proof (cases "i < length ?ts")
    case True
    then have ok: "task_ok ?r i (?ts ! i)" using assms(1) by (simp add: mf_wf_def)
    show ?thesis
    proof (cases "taskName (?ts ! i) = n \<and> \<not> taskCancelled (?ts ! i)")
      case True
      then show ?thesis using ok assms(2,3) by (auto simp: task_ok_def)
    next
      case False
      then show ?thesis using ok True by (auto simp: task_ok_def nth_append update_conv')
    qed
  next
    case False
    then have "i = length ?ts" using that by simp
    then show ?thesis using nm by (auto simp: task_ok_def update_conv')
  qed
  show "mf_wf (launch n m mf)"
    using assms(1) e t AList.distinct_update[OF d, of n ?m] by (auto simp: mf_wf_def launch_def)
qed

lemma launch_others:
  assumes "distinct (map fst (mfRunning mf))"
  shows "map_of (mfRunning (launch n m mf)) k =
     (if k = n then Some (m\<lparr>mgCancel := Some (length (mfTasks mf))\<rparr>) else map_of (mfRunning mf) k)"
    "mfStarted (launch n m mf) = mfStarted mf" "fst ` set (mfRunning (launch n m mf)) = insert n (fst ` set (mfRunning mf))"
  using assms by (auto simp: launch_def update_conv' set_update image_iff)

text \<open>\<open>Start\<close> launches every entry once.\<close>

abbreviation launches :: "MultiForecaster \<Rightarrow> (string \<times> managedForecaster) list \<Rightarrow> MultiForecaster" where
  "launches mf l \<equiv> foldl (\<lambda>mf (n, m). launch n m mf) mf l"

lemma launches_wf:
  assumes "mf_wf mf" "distinct (map fst l)" "\<forall>(n, m)\<in>set l. map_of (mfRunning mf) n = Some m \<and> mgCancel m = None"
  shows "mf_wf (launches mf l) \<and> mfStarted (launches mf l) = mfStarted mf \<and>
    (\<forall>k. k \<notin> fst ` set l \<longrightarrow> map_of (mfRunning (launches mf l)) k = map_of (mfRunning mf) k) \<and>
    (\<forall>k\<in>fst ` set l. \<exists>m. map_of (mfRunning (launches mf l)) k = Some m \<and> mgCancel m \<noteq> None)"
  using assms
proof (induction l arbitrary: mf)
  case (Cons e l)
  obtain n m where e: "e = (n, m)" by fastforce
  let ?mf = "launch n m mf"
  have em: "map_of (mfRunning mf) n = Some m" "mgCancel m = None" using Cons.prems(3) unfolding e by simp_all
  note l = launch_wf(1)[OF Cons.prems(1) em] and d = launch_wf(2)[OF Cons.prems(1) em]
  note o = launch_others[OF d, of n m]
  have dl: "distinct (map fst l)" "n \<notin> fst ` set l" using Cons.prems(2) e by auto
  have p: "\<forall>(k, v)\<in>set l. map_of (mfRunning ?mf) k = Some v \<and> mgCancel v = None"
  proof (intro ballI, clarify)
    fix k v
    assume kv: "(k, v) \<in> set l"
    then have "fst (k, v) \<in> fst ` set l" by (rule imageI)
    then have "k \<noteq> n" using dl(2) by auto
    moreover have "map_of (mfRunning mf) k = Some v \<and> mgCancel v = None"
      using bspec[OF Cons.prems(3), of "(k, v)"] kv by simp
    ultimately show "map_of (mfRunning ?mf) k = Some v \<and> mgCancel v = None" using o(1)[of k] by simp
  qed
  note IH = Cons.IH[OF l dl(1) p]
  have n: "map_of (mfRunning (launches ?mf l)) n = Some (m\<lparr>mgCancel := Some (length (mfTasks mf))\<rparr>)"
  proof -
    have "map_of (mfRunning (launches ?mf l)) n = map_of (mfRunning ?mf) n" using IH dl(2) by blast
    then show ?thesis using o(1)[of n] by simp
  qed
  have k: "k \<notin> fst ` set l \<Longrightarrow> k \<noteq> n \<Longrightarrow> map_of (mfRunning (launches ?mf l)) k = map_of (mfRunning mf) k" for k
  proof -
    assume "k \<notin> fst ` set l" "k \<noteq> n"
    then have "map_of (mfRunning (launches ?mf l)) k = map_of (mfRunning ?mf) k" using IH by blast
    then show ?thesis using o(1)[of k] \<open>k \<noteq> n\<close> by simp
  qed
  have f: "launches mf (e # l) = launches ?mf l" "fst ` set (e # l) = insert n (fst ` set l)" unfolding e by simp_all
  show ?case unfolding f
  proof (intro conjI allI impI ballI)
    show "mf_wf (launches ?mf l)" using IH by blast
    show "mfStarted (launches ?mf l) = mfStarted mf" using IH o(2) by metis
  next
    fix j
    assume "j \<notin> insert n (fst ` set l)"
    then show "map_of (mfRunning (launches ?mf l)) j = map_of (mfRunning mf) j" using k by blast
  next
    fix j
    assume "j \<in> insert n (fst ` set l)"
    then show "\<exists>m. map_of (mfRunning (launches ?mf l)) j = Some m \<and> mgCancel m \<noteq> None"
    proof
      assume "j = n"
      with n show ?thesis by simp
    qed (use IH in blast)
  qed
qed simp

lemma mf_inv_iff:
  "mf_inv mf \<longleftrightarrow> mf_wf mf \<and> (\<forall>n m. map_of (mfRunning mf) n = Some m \<longrightarrow> mfStarted mf = (mgCancel m \<noteq> None))"
proof (cases "distinct (map fst (mfRunning mf))")
  case True
  then show ?thesis unfolding mf_inv_def by (auto simp: map_of_eq_Some_iff)
qed (auto simp: mf_inv_def mf_wf_def)

lemma Start_inv:
  assumes "mf_inv mf" "\<not> mfStarted mf" "is_order order"
  shows "mf_inv (mf_Start order mf)"
proof -
  let ?mf = "mf\<lparr>mfStarted := True\<rparr>" and ?l = "range_over order (mfRunning mf)"
  have w: "mf_wf ?mf" using assms(1) by (simp add: mf_inv_def mf_wf_def)
  have d: "distinct (map fst (mfRunning mf))" using assms(1) by (simp add: mf_inv_def mf_wf_def)
  note ms = mset_range_over[OF assms(3), of "mfRunning mf"]
  have s: "set ?l = set (mfRunning mf)" using ms by (rule mset_eq_setD)
  have "mset (map fst ?l) = mset (map fst (mfRunning mf))" using ms by simp
  then have dl: "distinct (map fst ?l)" using d by (metis mset_eq_imp_distinct_iff)
  have c: "\<forall>(n, m)\<in>set ?l. map_of (mfRunning ?mf) n = Some m \<and> mgCancel m = None"
    using assms(1,2) d s by (auto simp: mf_inv_def map_of_eq_Some_iff)
  note L = launches_wf[OF w dl c]
  have "mgCancel m \<noteq> None" if "map_of (mfRunning (launches ?mf ?l)) n = Some m" for n m
  proof (cases "n \<in> fst ` set ?l")
    case True
    then show ?thesis using L that by force
  next
    case False
    then have "map_of (mfRunning mf) n = Some m" using L that by simp
    then show ?thesis using False s by (force dest: map_of_SomeD)
  qed
  then show ?thesis using L unfolding mf_inv_iff mf_Start_def by (simp add: Let_def)
qed

text \<open>Cancelling an entry's task and replacing or removing the entry.\<close>

definition cancelEntry :: "string \<Rightarrow> MultiForecaster \<Rightarrow> MultiForecaster" where
  "cancelEntry n mf = (case map_of (mfRunning mf) n of None \<Rightarrow> mf | Some m \<Rightarrow> cancelTask (mgCancel m) mf)"

lemma cancelTask_fields [simp]:
  "mfRunning (cancelTask c mf) = mfRunning mf" "mfStarted (cancelTask c mf) = mfStarted mf"
  "mfBaseDone (cancelTask c mf) = mfBaseDone mf" "length (mfTasks (cancelTask c mf)) = length (mfTasks mf)"
  "mfStore (cancelTask c mf) = mfStore mf" "mfDeleting (cancelTask c mf) = mfDeleting mf"
  by (cases c; simp add: cancelTask_def)+

lemma cancelTask_nth:
  "i < length (mfTasks mf) \<Longrightarrow> mfTasks (cancelTask c mf) ! i =
     (if c = Some i then (mfTasks mf ! i)\<lparr>taskCancelled := True\<rparr> else mfTasks mf ! i)"
  by (cases c) (auto simp: cancelTask_def)

lemma cancelEntry_fields [simp]:
  "mfRunning (cancelEntry n mf) = mfRunning mf" "mfStarted (cancelEntry n mf) = mfStarted mf"
  "mfBaseDone (cancelEntry n mf) = mfBaseDone mf" "length (mfTasks (cancelEntry n mf)) = length (mfTasks mf)"
  by (simp_all add: cancelEntry_def split: option.split)

lemma cancelEntry_nth:
  assumes "i < length (mfTasks mf)"
  shows "taskForecaster (mfTasks (cancelEntry n mf) ! i) = taskForecaster (mfTasks mf ! i)"
    "taskPc (mfTasks (cancelEntry n mf) ! i) = taskPc (mfTasks mf ! i)"
    "taskCancelled (mfTasks mf ! i) \<Longrightarrow> taskCancelled (mfTasks (cancelEntry n mf) ! i)"
  using assms by (auto simp: cancelEntry_def cancelTask_nth split: option.split)

lemma cancelEntry_cancels:
  assumes "mf_wf mf" "i < length (mfTasks mf)" "taskName (mfTasks mf ! i) = n"
  shows "taskCancelled (mfTasks (cancelEntry n mf) ! i)"
proof (cases "taskCancelled (mfTasks mf ! i)")
  case False
  then obtain m where "map_of (mfRunning mf) n = Some m" "mgCancel m = Some i"
    using assms by (auto simp: mf_wf_def task_ok_def)
  then show ?thesis using assms(2) by (simp add: cancelEntry_def cancelTask_nth)
qed (use cancelEntry_nth assms in auto)

lemma replace_entry_wf:
  assumes "mf_wf mf" "distinct (map fst r)" "\<And>k. k \<noteq> n \<Longrightarrow> map_of r k = map_of (mfRunning mf) k"
    "\<And>m. map_of r n = Some m \<Longrightarrow> wf_name (mgForecaster m) = n \<and> mgCancel m = None"
  shows "mf_wf ((cancelEntry n mf)\<lparr>mfRunning := r\<rparr>)"
  unfolding mf_wf_def
proof (intro conjI ballI allI impI)
  let ?ts = "mfTasks (cancelEntry n mf)"
  show "distinct (map fst (mfRunning ((cancelEntry n mf)\<lparr>mfRunning := r\<rparr>)))" using assms(2) by simp
next
  fix e
  assume "e \<in> set (mfRunning ((cancelEntry n mf)\<lparr>mfRunning := r\<rparr>))"
  then have er: "e \<in> set r" by simp
  obtain k m where km: "e = (k, m)" by fastforce
  have e: "e = (k, m)" "map_of r k = Some m" using assms(2) er km by (simp_all add: map_of_eq_Some_iff)
  show "entry_ok (mfTasks ((cancelEntry n mf)\<lparr>mfRunning := r\<rparr>)) e"
  proof (cases "k = n")
    case True
    then show ?thesis using assms(4) e by (simp add: entry_ok_def)
  next
    case False
    then have "e \<in> set (mfRunning mf)" using assms(3) e by (auto dest: map_of_SomeD)
    then have "entry_ok (mfTasks mf) e" using assms(1) by (simp add: mf_wf_def)
    then show ?thesis using cancelEntry_nth(1) e by (auto simp: entry_ok_def split: option.splits)
  qed
next
  fix i
  assume "i < length (mfTasks ((cancelEntry n mf)\<lparr>mfRunning := r\<rparr>))"
  then have i: "i < length (mfTasks mf)" by simp
  then have ok: "task_ok (mfRunning mf) i (mfTasks mf ! i)" using assms(1) by (simp add: mf_wf_def)
  show "task_ok (mfRunning ((cancelEntry n mf)\<lparr>mfRunning := r\<rparr>)) i (mfTasks ((cancelEntry n mf)\<lparr>mfRunning := r\<rparr>) ! i)"
  proof (cases "taskName (mfTasks mf ! i) = n")
    case True
    then have "taskCancelled (mfTasks (cancelEntry n mf) ! i)" by (rule cancelEntry_cancels[OF assms(1) i])
    then show ?thesis using ok cancelEntry_nth[OF i, of n] by (simp add: task_ok_def)
  next
    case False
    then show ?thesis using ok cancelEntry_nth[OF i, of n] assms(3)[OF False] by (auto simp: task_ok_def)
  qed
next
  fix t
  assume "mfBaseDone ((cancelEntry n mf)\<lparr>mfRunning := r\<rparr>)" "t \<in> set (mfTasks ((cancelEntry n mf)\<lparr>mfRunning := r\<rparr>))"
  then obtain i where i: "i < length (mfTasks mf)" "t = mfTasks (cancelEntry n mf) ! i" and "mfBaseDone mf"
    by (auto simp: in_set_conv_nth)
  then have "taskCancelled (mfTasks mf ! i)" using assms(1) by (simp add: mf_wf_def)
  then show "taskCancelled t" using cancelEntry_nth(3)[OF i(1)] i(2) by simp
qed

lemma Upsert_cancelEntry:
  "mf_Upsert f mf =
     (let mf = (cancelEntry (wf_name f) mf)
            \<lparr>mfRunning := AList.update (wf_name f) \<lparr>mgForecaster = f, mgCancel = None\<rparr> (mfRunning mf)\<rparr>
      in if mfStarted mf then launch (wf_name f) \<lparr>mgForecaster = f, mgCancel = None\<rparr> mf else mf)"
  by (simp add: mf_Upsert_def cancelEntry_def Let_def split: option.split)

lemma Remove_cancelEntry:
  "mf_Remove_locked n mf =
     (if map_of (mfRunning mf) n = None then mf
      else (cancelEntry n mf)\<lparr>mfRunning := AList.delete n (mfRunning mf), mfDeleting := mfDeleting mf @ [n]\<rparr>)"
  by (auto simp: mf_Remove_locked_def cancelEntry_def split: option.split)

lemma Upsert_inv:
  assumes "mf_inv mf"
  shows "mf_inv (mf_Upsert f mf)"
proof -
  let ?v = "\<lparr>mgForecaster = f, mgCancel = None\<rparr>"
  let ?mf = "(cancelEntry (wf_name f) mf)\<lparr>mfRunning := AList.update (wf_name f) ?v (mfRunning mf)\<rparr>"
  have w: "mf_wf mf" and d: "distinct (map fst (mfRunning mf))" using assms by (simp_all add: mf_inv_def mf_wf_def)
  have u: "mf_wf ?mf"
    by (rule replace_entry_wf[OF w]) (use d in \<open>simp_all add: AList.distinct_update update_conv'\<close>)
  have m: "map_of (mfRunning ?mf) (wf_name f) = Some ?v" by (simp add: update_conv')
  have l: "mf_wf (launch (wf_name f) ?v ?mf)" "distinct (map fst (mfRunning ?mf))" using launch_wf[OF u m] by simp_all
  show ?thesis
  proof (cases "mfStarted mf")
    case True
    then show ?thesis using assms l(1) launch_others[OF l(2)]
      unfolding mf_inv_iff Upsert_cancelEntry by (auto simp: Let_def update_conv')
  next
    case False
    then show ?thesis using assms u unfolding mf_inv_iff Upsert_cancelEntry by (auto simp: Let_def update_conv')
  qed
qed

lemma Remove_inv:
  assumes "mf_inv mf"
  shows "mf_inv (mf_Remove_locked n mf)"
proof (cases "map_of (mfRunning mf) n = None")
  case False
  let ?r = "AList.delete n (mfRunning mf)"
  have w: "mf_wf mf" and d: "distinct (map fst (mfRunning mf))" using assms by (simp_all add: mf_inv_def mf_wf_def)
  have "mf_wf ((cancelEntry n mf)\<lparr>mfRunning := ?r\<rparr>)"
    by (rule replace_entry_wf[OF w]) (use d in \<open>simp_all add: AList.distinct_delete delete_conv'\<close>)
  moreover have "mfStarted mf = (mgCancel m \<noteq> None)" if "map_of ?r k = Some m" for k m
    using assms that unfolding mf_inv_iff by (auto simp: delete_conv' split: if_splits)
  ultimately show ?thesis unfolding Remove_cancelEntry if_not_P[OF False] mf_inv_iff by simp
qed (use assms in \<open>simp add: Remove_cancelEntry\<close>)

lemma setTask_inv:
  assumes "mf_inv mf" "i < length (mfTasks mf)" "taskName t = taskName (mfTasks mf ! i)"
    "taskCancelled t = taskCancelled (mfTasks mf ! i)" "\<And>x. taskPc t = Putting x \<Longrightarrow> Workload x = taskName t"
  shows "mf_inv (setTask i t mf)"
proof -
  have w: "mf_wf mf" using assms(1) by (simp add: mf_inv_def)
  have "mf_wf (setTask i t mf)"
    unfolding mf_wf_def
  proof (intro conjI ballI allI impI)
    show "distinct (map fst (mfRunning (setTask i t mf)))" using w by (simp add: mf_wf_def setTask_def)
  next
    fix e
    assume "e \<in> set (mfRunning (setTask i t mf))"
    then show "entry_ok (mfTasks (setTask i t mf)) e" using w entry_ok_update assms(3) by (simp add: mf_wf_def setTask_def)
  next
    fix j
    assume "j < length (mfTasks (setTask i t mf))"
    then have "task_ok (mfRunning mf) j (mfTasks mf ! j)" using w by (simp add: mf_wf_def setTask_def)
    then show "task_ok (mfRunning (setTask i t mf)) j (mfTasks (setTask i t mf) ! j)"
      using assms(2-5) by (auto simp: setTask_def task_ok_def nth_list_update)
  next
    fix u
    assume "mfBaseDone (setTask i t mf)" "u \<in> set (mfTasks (setTask i t mf))"
    then show "taskCancelled u"
      using w assms(2,4) set_update_subset_insert[of "mfTasks mf" i t] by (auto simp: mf_wf_def setTask_def)
  qed
  then show ?thesis using assms(1) by (simp add: mf_inv_def setTask_def)
qed

lemma noting_tick:
  assumes "tick noting_put e (w, None) = (r, w', Some x)"
  shows "wf_name w' = wf_name w" "Workload x = wf_name w"
proof -
  note t = tick_ends[OF assms]
  then show "wf_name w' = wf_name w" using wf_static_simps(1)[of w' w] by blast
  from t obtain y where "tick_stores noting_put e w None y r w' (Some x)" by auto
  then show "Workload x = wf_name w" unfolding tick_stores_def noting_put_def by blast
qed

lemma tick_name: "tick put e (w, s) = (r, w', s') \<Longrightarrow> wf_name w' = wf_name w"
  using tick_ends[of put e w s r w' s'] wf_static_simps(1)[of w' w] by blast

lemma mf_step_inv: "mf_step mf mf' \<Longrightarrow> mf_inv mf \<Longrightarrow> mf_inv mf'"
proof (induction rule: mf_step.induct)
  case (Start mf order)
  then show ?case by (intro Start_inv)
next
  case (Upsert mf f)
  then show ?case by (rule Upsert_inv)
next
  case (RemoveLocked mf name)
  then show ?case by (rule Remove_inv)
next
  case (RemoveDelete name mf)
  then show ?case by (simp add: mf_Remove_delete_def mf_inv_def)
next
  case (BaseCancel mf)
  then show ?case by (auto simp: mf_inv_def mf_wf_def entry_ok_def task_ok_def split: option.splits)
next
  case (TickPut i mf t e r f x)
  then show ?case using noting_tick[OF TickPut(5)] by (intro setTask_inv) auto
next
  case (TickWrite i mf t x)
  then have "mf_inv (mf\<lparr>mfStore := snd (mem_Put None x (mfStore mf))\<rparr>)" by (simp add: mf_inv_def)
  then show ?case using TickWrite by (intro setTask_inv) auto
next
  case (TickNone i mf t e r f)
  then show ?case using tick_name[OF TickNone(4)] by (intro setTask_inv) auto
next
  case (Return i mf t)
  then show ?case by (intro setTask_inv) auto
next
  case (Recover i mf t)
  then show ?case by (intro setTask_inv) auto
qed

lemma register_entries:
  assumes "distinct (map fst r)" "\<forall>(n, m)\<in>set r. wf_name (mgForecaster m) = n \<and> mgCancel m = None"
  shows "distinct (map fst (foldl (\<lambda>r f. register f r) r ws)) \<and>
    (\<forall>(n, m)\<in>set (foldl (\<lambda>r f. register f r) r ws). wf_name (mgForecaster m) = n \<and> mgCancel m = None)"
  using assms
proof (induction ws arbitrary: r)
  case (Cons f ws)
  have "distinct (map fst (register f r))" using Cons.prems(1) by (simp add: register_def AList.distinct_update)
  moreover have "\<forall>(n, m)\<in>set (register f r). wf_name (mgForecaster m) = n \<and> mgCancel m = None"
    using Cons.prems by (auto simp: register_def set_update)
  ultimately show ?case using Cons.IH[of "register f r"] by simp
qed simp

lemma New_inv: "mf_inv (NewMultiForecaster ws s)"
  using register_entries[of "[]" ws]
  by (auto simp: NewMultiForecaster_def mf_inv_def mf_wf_def entry_ok_def)

lemma mf_reach_inv: "mf_reach mf mf' \<Longrightarrow> mf_inv mf \<Longrightarrow> mf_inv mf'"
  by (induction rule: rtranclp_induct) (auto intro: mf_step_inv)

lemma unregistered_cancelled:
  assumes "mf_inv mf" "map_of (mfRunning mf) n = None" "t \<in> set (mfTasks mf)" "taskName t = n"
  shows "taskCancelled t"
proof (rule ccontr)
  assume live: "\<not> taskCancelled t"
  obtain i where "i < length (mfTasks mf)" "t = mfTasks mf ! i" using assms(3) by (metis in_set_conv_nth)
  then have "task_ok (mfRunning mf) i t" using assms(1) unfolding mf_inv_def mf_wf_def by blast
  then show False using live assms(2,4) unfolding task_ok_def by simp
qed

section \<open>The interface of the manager\<close>

text \<open>
  What the controller is promised by \<open>ForecasterManager\<close>: \<open>Upsert\<close> puts a forecaster under its name,
  \<open>Remove\<close> takes a name out, and neither touches another name.
\<close>

datatype 'f manager_call = Upserted 'f | Removed string

locale forecaster_manager =
  fixes upsert :: "'f \<Rightarrow> 'm \<Rightarrow> 'm" and remove :: "string \<Rightarrow> 'm \<Rightarrow> 'm" and entry :: "'m \<Rightarrow> string \<Rightarrow> 'f option"
    and key :: "'f \<Rightarrow> string" and inv :: "'m \<Rightarrow> bool"
  assumes inv_upsert: "inv m \<Longrightarrow> inv (upsert f m)"
    and inv_remove: "inv m \<Longrightarrow> inv (remove n m)"
    and entry_upsert: "inv m \<Longrightarrow> entry (upsert f m) = (entry m)(key f \<mapsto> f)"
    and entry_remove: "inv m \<Longrightarrow> entry (remove n m) = (entry m)(n := None)"
begin

fun manager_do :: "'f manager_call \<Rightarrow> 'm \<Rightarrow> 'm" where
  "manager_do (Upserted f) m = upsert f m"
| "manager_do (Removed n) m = remove n m"

fun call_key :: "'f manager_call \<Rightarrow> string" where
  "call_key (Upserted f) = key f"
| "call_key (Removed n) = n"

fun call_entry :: "'f manager_call \<Rightarrow> 'f option" where
  "call_entry (Upserted f) = Some f"
| "call_entry (Removed n) = None"

lemma manager_do_entry: "inv m \<Longrightarrow> inv (manager_do c m) \<and> entry (manager_do c m) = (entry m)(call_key c := call_entry c)"
  by (cases c) (simp_all add: inv_upsert inv_remove entry_upsert entry_remove)

text \<open>Only the last call for a name counts.\<close>

lemma manager_last_call:
  "inv m \<Longrightarrow> inv (fold manager_do cs m) \<and>
     entry (fold manager_do cs m) n =
       (case filter (\<lambda>c. call_key c = n) (rev cs) of [] \<Rightarrow> entry m n | c # _ \<Rightarrow> call_entry c)"
proof (induction cs rule: rev_induct)
  case (snoc c cs)
  then show ?case using manager_do_entry[of "fold manager_do cs m" c] by (auto simp: fun_upd_def)
qed simp

end

definition mf_entry :: "MultiForecaster \<Rightarrow> string \<Rightarrow> WorkloadForecaster option" where
  "mf_entry mf n = map_option mgForecaster (map_of (mfRunning mf) n)"

lemma Remove_delete_inv [simp]: "mf_inv (mf_Remove_delete n mf) = mf_inv mf"
  by (simp add: mf_inv_def mf_Remove_delete_def)

interpretation mgr: forecaster_manager mf_Upsert mf_Remove mf_entry wf_name mf_inv
proof unfold_locales
  fix mf f n
  assume inv: "mf_inv mf"
  show "mf_inv (mf_Upsert f mf)" by (rule Upsert_inv[OF inv])
  show "mf_inv (mf_Remove n mf)" using inv Remove_inv[OF inv] unfolding mf_Remove_def by simp
  show "mf_entry (mf_Upsert f mf) = (mf_entry mf)(wf_name f \<mapsto> f)"
    by (rule ext) (simp add: mf_entry_def Upsert_cancelEntry Let_def launch_def update_conv')
  show "mf_entry (mf_Remove n mf) = (mf_entry mf)(n := None)"
    by (rule ext) (simp add: mf_entry_def mf_Remove_def mf_Remove_delete_def Remove_cancelEntry delete_conv')
qed

section \<open>Properties of the manager\<close>

text \<open>
  C6: one live loop per workload. In every state the manager can reach, by any interleaving of one \<open>Start\<close>,
  \<open>Upsert\<close>, \<open>Remove\<close>, the ticks of the workload goroutines and a cancellation of the base context, a
  workload has at most one goroutine whose context is live, it is the one the registered entry cancels,
  and a workload that is not registered has none; once the manager has started, every registered
  workload has a goroutine to cancel.
\<close>

theorem one_live_loop:
  assumes "mf_reach (NewMultiForecaster ws st) mf"
  shows "(\<forall>i j. i < length (mfTasks mf) \<and> j < length (mfTasks mf) \<and> \<not> taskCancelled (mfTasks mf ! i) \<and>
       \<not> taskCancelled (mfTasks mf ! j) \<and> taskName (mfTasks mf ! i) = taskName (mfTasks mf ! j) \<longrightarrow> i = j) \<and>
     (\<forall>i. i < length (mfTasks mf) \<and> \<not> taskCancelled (mfTasks mf ! i) \<longrightarrow>
       (\<exists>m. map_of (mfRunning mf) (taskName (mfTasks mf ! i)) = Some m \<and> mgCancel m = Some i)) \<and>
     (mfStarted mf \<longrightarrow> (\<forall>n m. map_of (mfRunning mf) n = Some m \<longrightarrow>
       (\<exists>i. mgCancel m = Some i \<and> i < length (mfTasks mf) \<and> taskName (mfTasks mf ! i) = n)))"
proof -
  have inv: "mf_inv mf" by (rule mf_reach_inv[OF assms New_inv])
  then have live: "\<exists>m. map_of (mfRunning mf) (taskName (mfTasks mf ! i)) = Some m \<and> mgCancel m = Some i"
    if "i < length (mfTasks mf)" "\<not> taskCancelled (mfTasks mf ! i)" for i
    using that unfolding mf_inv_def mf_wf_def task_ok_def by blast
  have reg: "\<exists>i. mgCancel m = Some i \<and> i < length (mfTasks mf) \<and> taskName (mfTasks mf ! i) = n"
    if "mfStarted mf" "map_of (mfRunning mf) n = Some m" for n m
  proof -
    have "entry_ok (mfTasks mf) (n, m)" using inv that by (auto simp: mf_inv_def mf_wf_def dest: map_of_SomeD)
    then show ?thesis using inv that unfolding mf_inv_iff entry_ok_def by (force split: option.splits)
  qed
  have "i = j" if "i < length (mfTasks mf)" "j < length (mfTasks mf)" "\<not> taskCancelled (mfTasks mf ! i)"
    "\<not> taskCancelled (mfTasks mf ! j)" "taskName (mfTasks mf ! i) = taskName (mfTasks mf ! j)" for i j
    using live[OF that(1,3)] live[OF that(2,4)] unfolding that(5) by auto
  then show ?thesis using live reg by blast
qed

text \<open>
  C39: a removed workload can come back. When \<open>Remove\<close> is called while a tick of the workload is between
  the context check and the write of \<open>Put\<close>, the manager can finish the removal (entry gone, goroutine
  cancelled, snapshot deleted) before the write; the deleted workload's snapshot is then back in the
  store, with no goroutine left to refresh it and no removal left to delete it.
\<close>

theorem removed_snapshot_returns:
  assumes "mf_reach (NewMultiForecaster ws st) mf" "map_of (mfRunning mf) n = Some m" "mgCancel m = Some i"
    "taskPc (mfTasks mf ! i) = Putting x" "n \<noteq> []" "mfDeleting mf = []"
  shows "\<exists>mf'. mf_reach mf mf' \<and> map_of (mfRunning mf') n = None \<and> mfDeleting mf' = [] \<and>
     (\<forall>t\<in>set (mfTasks mf'). taskName t = n \<longrightarrow> taskCancelled t) \<and> mem_GetLatest None n (mfStore mf') = Ok (Some x)"
proof -
  have inv: "mf_inv mf" by (rule mf_reach_inv[OF assms(1) New_inv])
  then have d: "distinct (map fst (mfRunning mf))" by (simp add: mf_inv_def mf_wf_def)
  have "entry_ok (mfTasks mf) (n, m)" using inv assms(2) by (auto simp: mf_inv_def mf_wf_def dest: map_of_SomeD)
  then have i: "i < length (mfTasks mf)" "taskName (mfTasks mf ! i) = n" using assms(3) by (simp_all add: entry_ok_def)
  then have x: "Workload x = n" using inv assms(4) by (auto simp: mf_inv_def mf_wf_def task_ok_def)
  let ?mf1 = "mf_Remove_locked n mf"
  let ?mf2 = "mf_Remove_delete n ?mf1"
  let ?t = "mfTasks ?mf2 ! i"
  let ?mf3 = "setTask i (?t\<lparr>taskPc := Waiting\<rparr>) (?mf2\<lparr>mfStore := snd (mem_Put None x (mfStore ?mf2))\<rparr>)"
  have m1: "mfDeleting ?mf1 = [n]" "mfTasks ?mf1 = mfTasks (cancelTask (Some i) mf)" "mfRunning ?mf1 = AList.delete n (mfRunning mf)"
    using assms(2,3,6) by (simp_all add: mf_Remove_locked_def)
  have t: "i < length (mfTasks ?mf2)" "taskPc ?t = Putting x"
    using i(1) m1(2) assms(4) by (simp_all add: mf_Remove_delete_def cancelTask_nth)
  have "mf_step mf ?mf1" by (rule RemoveLocked)
  moreover have "mf_step ?mf1 ?mf2" by (rule RemoveDelete) (simp add: m1)
  moreover have "mf_step ?mf2 ?mf3" by (rule TickWrite[OF t(1) refl t(2)])
  ultimately have r: "mf_reach mf ?mf3" by (meson rtranclp.rtrancl_into_rtrancl rtranclp.rtrancl_refl)
  have inv3: "mf_inv ?mf3" by (rule mf_reach_inv[OF r inv])
  have gone: "map_of (mfRunning ?mf3) n = None" by (simp add: setTask_def mf_Remove_delete_def m1(3) delete_conv')
  have "taskCancelled u" if "u \<in> set (mfTasks ?mf3)" "taskName u = n" for u
    by (rule unregistered_cancelled[OF inv3 gone that])
  moreover have "mem_GetLatest None n (mfStore ?mf3) = Ok (Some x)"
    using x assms(5) by (simp add: setTask_def mem_Put_def mem_GetLatest_def update_conv')
  moreover have "mfDeleting ?mf3 = []" by (simp add: setTask_def mf_Remove_delete_def m1(1))
  ultimately show ?thesis using r gone by blast
qed

section \<open>Concrete runs\<close>

definition started_mf :: MultiForecaster where
  "started_mf = mf_Start forwards (NewMultiForecaster [loop_forecaster] NewMemoryStore)"

lemma started_mf_fields:
  "mfTasks started_mf = [\<lparr>taskForecaster = loop_forecaster, taskCancelled = False, taskPc = Waiting\<rparr>]"
  "mfRunning started_mf = [(''web'', \<lparr>mgForecaster = loop_forecaster, mgCancel = Some 0\<rparr>)]"
  "mfDeleting started_mf = []" "mfStarted started_mf"
  by (simp_all add: started_mf_def mf_Start_def NewMultiForecaster_def register_def launch_def range_over_def forwards_def
      loop_named_def NewWorkloadForecaster_def)

lemma started_mf_base: "\<not> mfBaseDone started_mf"
  by (simp add: started_mf_def mf_Start_def NewMultiForecaster_def register_def launch_def range_over_def forwards_def
      loop_named_def NewWorkloadForecaster_def)

lemma started_mf_step: "mf_step (NewMultiForecaster [loop_forecaster] NewMemoryStore) started_mf"
  unfolding started_mf_def by (rule Start[OF _ orders(1)]) (simp add: NewMultiForecaster_def)

lemma second_Start_two_loops:
  "map (\<lambda>t. (taskName t, taskCancelled t)) (mfTasks (mf_Start forwards started_mf)) = [(''web'', False), (''web'', False)]"
  by (simp add: mf_Start_def started_mf_fields started_mf_base launch_def range_over_def forwards_def
      loop_named_def NewWorkloadForecaster_def Let_def)

theorem one_live_loop_witness:
  "\<exists>m. map_of (mfRunning started_mf) ''web'' = Some m \<and> mgCancel m = Some 0 \<and> \<not> taskCancelled (mfTasks started_mf ! 0)"
proof -
  have r: "mf_reach (NewMultiForecaster [loop_forecaster] NewMemoryStore) started_mf" using started_mf_step by blast
  have n: "taskName (mfTasks started_mf ! 0) = ''web''"
    by (simp add: started_mf_fields loop_named_def NewWorkloadForecaster_def)
  show ?thesis using one_live_loop[OF r] n by (auto simp: started_mf_fields)
qed

theorem removed_snapshot_returns_witness:
  "\<exists>mf mf'. mf_reach started_mf mf \<and> mf_reach mf mf' \<and> map_of (mfRunning mf') ''web'' = None \<and>
     mem_GetLatest None ''web'' (mfStore mf') = Ok (Some loop_snapshot)"
proof -
  obtain f where f: "tick noting_put (loop_env [400, 500]) (loop_forecaster, None) = (Ok (), f, Some loop_snapshot)"
    using loop_tick[of noting_put "''web''" None "Some loop_snapshot"] by (auto simp: noting_put_def)
  let ?t = "\<lparr>taskForecaster = loop_forecaster, taskCancelled = False, taskPc = Waiting\<rparr>"
  let ?mf = "setTask 0 (?t\<lparr>taskForecaster := f, taskPc := Putting loop_snapshot\<rparr>) started_mf"
  have s: "mf_step started_mf ?mf" 
    by (rule TickPut[where i = 0 and t = ?t and e = "loop_env [400, 500]" and r = "Ok ()"])
      (use f in \<open>simp_all add: started_mf_fields\<close>)
  then have r: "mf_reach (NewMultiForecaster [loop_forecaster] NewMemoryStore) ?mf"
    using started_mf_step by (meson rtranclp.rtrancl_into_rtrancl rtranclp.rtrancl_refl)
  from removed_snapshot_returns[OF r, of "''web''" _ 0 loop_snapshot] show ?thesis
    using s by (auto simp: setTask_def started_mf_fields)
qed

end
