(* ===== verification/Controller.thy ===== *)
theory Controller
  imports Multi
begin

text \<open>
  The operator: the resource types of \<open>src/pkg/api/v1alpha1\<close> and the reconciler of
  \<open>src/cmd/forecaster/controller\<close> (\<open>translate.go\<close>, \<open>scaledobject.go\<close>, \<open>controller.go\<close>). The Kubernetes
  client and the helper packages of controller-runtime are the parameter \<open>KubeAPI\<close>, over a cluster state
  of its own type; the forecast loops are those of the manager.
\<close>

section \<open>Resources\<close>

record ScaleTargetRef =
  targetAPIVersion :: string
  targetKind :: string
  targetName :: string

record ARIMAParams =
  arimaP :: int
  arimaD :: int
  arimaQ :: int

record SARIMAParams =
  sarimaP :: int
  sarimaD :: int
  sarimaQ :: int
  SeasonalP :: int
  SeasonalD :: int
  SeasonalQ :: int
  SeasonalPeriod :: int

record ModelSpec =
  modelType :: string
  modelARIMA :: "ARIMAParams option"
  modelSARIMA :: "SARIMAParams option"
  modelBYOMURL :: string

record ForecastSpec =
  specHorizon :: string
  specStep :: string
  specInterval :: string
  specWindow :: string

record CapacitySpec =
  capTargetPerPod :: float64
  capHeadroom :: float64
  capQuantileLevel :: string
  capMinReplicas :: int
  capMaxReplicas :: int
  capUpMaxFactorPerStep :: float64
  capDownMaxPercentPerStep :: int

record ForecastPolicySpec =
  specScaleTargetRef :: ScaleTargetRef
  specMetric :: string
  specDataSourceRef :: string
  specModel :: ModelSpec
  specForecast :: ForecastSpec
  specCapacity :: CapacitySpec
  specLeadTime :: string

record Condition =
  condType :: string
  condStatus :: string
  condReason :: string
  condMessage :: string
  condObservedGeneration :: int

record ForecastPolicyStatus =
  statusObservedGeneration :: int
  statusLastForecastTime :: "Time option"
  statusCurrentReplicas :: int
  statusDesiredReplicas :: int
  statusScaledObjectName :: string
  statusConditions :: "Condition list"

text \<open>Of the object metadata, the fields the controller reads.\<close>

record ForecastPolicy =
  fpNamespace :: string
  fpName :: string
  fpGeneration :: int
  fpSpec :: ForecastPolicySpec
  fpStatus :: ForecastPolicyStatus

record DataSource =
  dsNamespace :: string
  dsName :: string
  dsType :: string
  dsConfig :: "(string \<times> string) list"

text \<open>The fields of KEDA's ScaledObject that the controller writes, and its owner.\<close>

record ScaledObject =
  soNamespace :: string
  soName :: string
  soTarget :: ScaleTargetRef
  soMinReplicaCount :: int
  soMaxReplicaCount :: int
  soTriggers :: "(string \<times> (string \<times> string) list) list"
  soOwner :: "(string \<times> string) option"

section \<open>Translation\<close>

definition workloadKey :: "string \<Rightarrow> string \<Rightarrow> string" where
  "workloadKey namespace name = namespace @ ''-'' @ name"

definition parseDurationOr :: "(float64 \<Rightarrow> int) \<Rightarrow> string \<Rightarrow> Duration \<Rightarrow> (dur_error, Duration) outcome" where
  "parseDurationOr cv v fallback = (if v = [] then Ok fallback else durationx_Parse cv v)"

datatype translate_error = BadDuration dur_error | BadWorkload workload_error

definition withARIMA :: "ARIMAParams option \<Rightarrow> WorkloadConfig \<Rightarrow> WorkloadConfig" where
  "withARIMA p wc =
     (case p of None \<Rightarrow> wc | Some a \<Rightarrow> wc\<lparr>wARIMA_P := arimaP a, wARIMA_D := arimaD a, wARIMA_Q := arimaQ a\<rparr>)"

definition withSARIMA :: "SARIMAParams option \<Rightarrow> WorkloadConfig \<Rightarrow> WorkloadConfig" where
  "withSARIMA p wc =
     (case p of None \<Rightarrow> wc
      | Some a \<Rightarrow> wc\<lparr>wSARIMA_P := sarimaP a, wSARIMA_D := sarimaD a, wSARIMA_Q := sarimaQ a, wSARIMA_SP := SeasonalP a,
                     wSARIMA_SD := SeasonalD a, wSARIMA_SQ := SeasonalQ a, wSARIMA_S := SeasonalPeriod a\<rparr>)"

definition toWorkloadConfig ::
  "(float64 \<Rightarrow> int) \<Rightarrow> ForecastPolicy \<Rightarrow> DataSource \<Rightarrow> (translate_error, WorkloadConfig) outcome" where
  "toWorkloadConfig cv policy ds =
     (let spec = fpSpec policy; fc = specForecast spec; cap = specCapacity spec; ms = specModel spec;
          dur = (\<lambda>v d. wrap_err BadDuration (parseDurationOr cv v d))
      in bind_outcome (dur (specHorizon fc) (30 * Minute)) (\<lambda>horizon.
         bind_outcome (dur (specStep fc) Minute) (\<lambda>step.
         bind_outcome (dur (specInterval fc) (30 * Second)) (\<lambda>interval.
         bind_outcome (dur (specWindow fc) (30 * Minute)) (\<lambda>win.
           let wc = \<lparr>wName = workloadKey (fpNamespace policy) (fpName policy), wMetric = specMetric spec,
                     wAdapter = dsType ds, wAdapterConfig = dsConfig ds, wHorizon = horizon, wStep = step,
                     wInterval = interval, wWindow = win,
                     wModel = (if modelType ms = [] then ''baseline'' else modelType ms),
                     wTargetPerPod = capTargetPerPod cap, wHeadroom = capHeadroom cap,
                     wQuantileLevel = (if capQuantileLevel cap = [] then ''0'' else capQuantileLevel cap),
                     wMinReplicas = capMinReplicas cap, wMaxReplicas = capMaxReplicas cap,
                     wUpMaxFactorPerStep = capUpMaxFactorPerStep cap, wDownMaxPercentPerStep = capDownMaxPercentPerStep cap,
                     wARIMA_P = 0, wARIMA_D = 0, wARIMA_Q = 0, wSARIMA_P = 0, wSARIMA_D = 0, wSARIMA_Q = 0,
                     wSARIMA_SP = 0, wSARIMA_SD = 0, wSARIMA_SQ = 0, wSARIMA_S = 0, wBYOMURL = modelBYOMURL ms\<rparr>
           in wrap_err BadWorkload (ValidateWorkload (withSARIMA (modelSARIMA ms) (withARIMA (modelARIMA ms) wc))))))))"

section \<open>The cluster\<close>

datatype api_error = NotFound | APIError

text \<open>
  The Kubernetes client over a cluster state of type \<open>'k\<close>: \<open>Get\<close> for both resources, \<open>List\<close> in a
  namespace, the status update, and controller-runtime's \<open>CreateOrUpdate\<close>, which applies a change to
  the object it finds or to a new one. \<open>SetStatusCondition\<close> and \<open>SetControllerReference\<close> are helpers of
  the same libraries.
\<close>

record 'k KubeAPI =
  kGetPolicy :: "string \<times> string \<Rightarrow> 'k \<Rightarrow> (api_error, ForecastPolicy) outcome"
  kGetDataSource :: "string \<times> string \<Rightarrow> 'k \<Rightarrow> (api_error, DataSource) outcome"
  kListPolicies :: "string \<Rightarrow> 'k \<Rightarrow> (api_error, ForecastPolicy list) outcome"
  kUpdateStatus :: "ForecastPolicy \<Rightarrow> 'k \<Rightarrow> (api_error, unit) outcome \<times> 'k"
  kCreateOrUpdate :: "ScaledObject \<Rightarrow> (ScaledObject \<Rightarrow> (api_error, ScaledObject) outcome) \<Rightarrow> 'k \<Rightarrow> (api_error, unit) outcome \<times> 'k"
  kSetCondition :: "Condition list \<Rightarrow> Condition \<Rightarrow> Condition list"
  kSetOwner :: "ForecastPolicy \<Rightarrow> ScaledObject \<Rightarrow> (api_error, ScaledObject) outcome"

text \<open>What the controller knows of a new ScaledObject before the change is applied.\<close>

definition emptyScaledObject :: "ForecastPolicy \<Rightarrow> ScaledObject" where
  "emptyScaledObject policy =
     \<lparr>soNamespace = fpNamespace policy, soName = fpName policy,
      soTarget = \<lparr>targetAPIVersion = [], targetKind = [], targetName = []\<rparr>, soMinReplicaCount = 0,
      soMaxReplicaCount = 0, soTriggers = [], soOwner = None\<rparr>"

definition scaledObjectFields :: "string \<Rightarrow> ForecastPolicy \<Rightarrow> string \<Rightarrow> ScaledObject \<Rightarrow> ScaledObject" where
  "scaledObjectFields scalerAddress policy workload so =
     (let target = specScaleTargetRef (fpSpec policy); cap = specCapacity (fpSpec policy)
      in so\<lparr>soTarget := \<lparr>targetAPIVersion = (if targetAPIVersion target = [] then ''apps/v1'' else targetAPIVersion target),
                         targetKind = (if targetKind target = [] then ''Deployment'' else targetKind target),
                         targetName = targetName target\<rparr>,
            soMinReplicaCount := capMinReplicas cap, soMaxReplicaCount := capMaxReplicas cap,
            soTriggers := [(''external'', [(''scalerAddress'', scalerAddress), (''workload'', workload)])]\<rparr>)"

definition reconcileScaledObject ::
  "'k KubeAPI \<Rightarrow> string \<Rightarrow> ForecastPolicy \<Rightarrow> string \<Rightarrow> 'k \<Rightarrow> (api_error, string) outcome \<times> 'k" where
  "reconcileScaledObject api scalerAddress policy workload k =
     (case kCreateOrUpdate api (emptyScaledObject policy)
             (\<lambda>so. kSetOwner api policy (scaledObjectFields scalerAddress policy workload so)) k of
        (r, k) \<Rightarrow> (bind_outcome r (\<lambda>_. Ok (fpName policy)), k))"

section \<open>The reconciler\<close>

text \<open>What \<open>Reconcile\<close> returns: the delay after which it is called again, or an error to retry at once.\<close>

type_synonym reconcile_result = "(api_error, Duration) outcome"

definition readyCondition :: "string \<Rightarrow> string \<Rightarrow> string \<Rightarrow> ForecastPolicy \<Rightarrow> Condition" where
  "readyCondition status reason message policy =
     \<lparr>condType = ''Ready'', condStatus = status, condReason = reason, condMessage = message,
      condObservedGeneration = fpGeneration policy\<rparr>"

definition rec_fail :: "'k KubeAPI \<Rightarrow> ForecastPolicy \<Rightarrow> string \<Rightarrow> string \<Rightarrow> 'k \<Rightarrow> reconcile_result \<times> 'k" where
  "rec_fail api policy reason message k =
     (let st = fpStatus policy;
          st = st\<lparr>statusConditions := kSetCondition api (statusConditions st) (readyCondition ''False'' reason message policy),
                  statusObservedGeneration := fpGeneration policy\<rparr>
      in case kUpdateStatus api (policy\<lparr>fpStatus := st\<rparr>) k of
           (r, k) \<Rightarrow> (bind_outcome r (\<lambda>_. Ok (30 * Second)), k))"

definition maxInt :: "int list \<Rightarrow> int" where
  "maxInt vs = foldl (\<lambda>highest v. if v > highest then v else highest) (hd vs) (tl vs)"

definition forecastStatus :: "(store_error, Snapshot option) outcome \<Rightarrow> ForecastPolicyStatus \<Rightarrow> ForecastPolicyStatus" where
  "forecastStatus latest st =
     (case latest of
        Ok (Some snapshot) \<Rightarrow>
          (let st = st\<lparr>statusLastForecastTime := Some (GeneratedAt snapshot)\<rparr>
           in if DesiredReplicas snapshot \<noteq> []
              then st\<lparr>statusCurrentReplicas := hd (DesiredReplicas snapshot),
                      statusDesiredReplicas := maxInt (DesiredReplicas snapshot)\<rparr>
              else st)
      | _ \<Rightarrow> st)"

definition updateReadyStatus ::
  "'k KubeAPI \<Rightarrow> (string \<Rightarrow> (store_error, Snapshot option) outcome) \<Rightarrow> ForecastPolicy \<Rightarrow> string \<Rightarrow> string \<Rightarrow> 'k \<Rightarrow>
   (api_error, unit) outcome \<times> 'k" where
  "updateReadyStatus api get policy workload scaledObjectName k =
     (let st = (fpStatus policy)\<lparr>statusObservedGeneration := fpGeneration policy, statusScaledObjectName := scaledObjectName\<rparr>;
          st = forecastStatus (get workload) st;
          st = st\<lparr>statusConditions := kSetCondition api (statusConditions st)
                    (readyCondition ''True'' ''Reconciled'' ''Forecast loop running and ScaledObject reconciled'' policy)\<rparr>
      in kUpdateStatus api (policy\<lparr>fpStatus := st\<rparr>) k)"

text \<open>
  The state of the reconciler is the cluster, the manager and the metrics registry. The texts of error
  messages are reduced to the error's kind.
\<close>

record OperatorEnv =
  oCv :: "float64 \<Rightarrow> int"
  oParse :: "string \<Rightarrow> json option"
  oScalerAddress :: string

definition Reconcile ::
  "'k KubeAPI \<Rightarrow> OperatorEnv \<Rightarrow> string \<Rightarrow> string \<Rightarrow> 'k \<times> MultiForecaster \<times> Registry \<Rightarrow>
   reconcile_result \<times> 'k \<times> MultiForecaster \<times> Registry" where
  "Reconcile api env namespace name st = (case st of (k, mf, reg) \<Rightarrow>
     (case kGetPolicy api (namespace, name) k of
        Panic \<Rightarrow> (Panic, k, mf, reg)
      | Err e \<Rightarrow> (if e = NotFound then (Ok 0, k, manager_Remove (workloadKey namespace name) mf, reg) else (Err e, k, mf, reg))
      | Ok policy \<Rightarrow>
     (case kGetDataSource api (namespace, specDataSourceRef (fpSpec policy)) k of
        Panic \<Rightarrow> (Panic, k, mf, reg)
      | Err e \<Rightarrow> (if e = NotFound
                 then (case rec_fail api policy ''DataSourceNotFound'' (specDataSourceRef (fpSpec policy)) k of (r, k) \<Rightarrow> (r, k, mf, reg))
                 else (Err e, k, mf, reg))
      | Ok ds \<Rightarrow>
     (case toWorkloadConfig (oCv env) policy ds of
        Panic \<Rightarrow> (Panic, k, mf, reg)
      | Err _ \<Rightarrow> (case rec_fail api policy ''InvalidSpec'' [] k of (r, k) \<Rightarrow> (r, k, mf, reg))
      | Ok wc \<Rightarrow>
     (case manager_Upsert (oCv env) (oParse env) wc reg mf of
        (Panic, mf) \<Rightarrow> (Panic, k, mf, reg)
      | (Err _, mf) \<Rightarrow> (case rec_fail api policy ''ForecasterError'' [] k of (r, k) \<Rightarrow> (r, k, mf, reg))
      | (Ok reg, mf) \<Rightarrow>
     (case reconcileScaledObject api (oScalerAddress env) policy (wName wc) k of
        (Panic, k) \<Rightarrow> (Panic, k, mf, reg)
      | (Err _, k) \<Rightarrow> (case rec_fail api policy ''ScaledObjectError'' [] k of (r, k) \<Rightarrow> (r, k, mf, reg))
      | (Ok so, k) \<Rightarrow>
     (case updateReadyStatus api (\<lambda>w. mem_GetLatest None w (mfStore mf)) policy (wName wc) so k of
        (r, k) \<Rightarrow> (bind_outcome r (\<lambda>_. Ok (wInterval wc)), k, mf, reg))))))))"

definition policiesForDataSource :: "'k KubeAPI \<Rightarrow> DataSource \<Rightarrow> 'k \<Rightarrow> (string \<times> string) list" where
  "policiesForDataSource api ds k =
     (case kListPolicies api (dsNamespace ds) k of
        Ok items \<Rightarrow> map (\<lambda>p. (fpNamespace p, fpName p)) (filter (\<lambda>p. specDataSourceRef (fpSpec p) = dsName ds) items)
      | _ \<Rightarrow> [])"

section \<open>What the translation and the manager keep\<close>

text \<open>A translated policy is a valid workload with the policy's key; an exit of the model factory is impossible.\<close>

lemma toWorkloadConfig_Ok:
  assumes "toWorkloadConfig cv policy ds = Ok wc"
  shows "valid_workload wc" "wName wc = workloadKey (fpNamespace policy) (fpName policy)"
    "wMinReplicas wc = capMinReplicas (specCapacity (fpSpec policy))"
    "wMaxReplicas wc = (let m = capMaxReplicas (specCapacity (fpSpec policy)) in if m = 0 then 100 else m)"
proof -
  obtain w0 where w0: "validateWorkload w0 = Ok wc" "wName w0 = workloadKey (fpNamespace policy) (fpName policy)"
    "wMinReplicas w0 = capMinReplicas (specCapacity (fpSpec policy))"
    "wMaxReplicas w0 = capMaxReplicas (specCapacity (fpSpec policy))"
    using assms
    by (auto simp: toWorkloadConfig_def Let_def outcome_simps ValidateWorkload_def withARIMA_def withSARIMA_def split: option.splits)
  show "valid_workload wc" "wName wc = workloadKey (fpNamespace policy) (fpName policy)"
    using validate_valid[OF w0(1)] validate_name[OF w0(1)] w0(2) by simp_all
  show "wMinReplicas wc = capMinReplicas (specCapacity (fpSpec policy))"
    "wMaxReplicas wc = (let m = capMaxReplicas (specCapacity (fpSpec policy)) in if m = 0 then 100 else m)"
    using w0(1) unfolding validateWorkload_Ok by (elim conjE; simp add: w0(3,4) Let_def)+
qed

lemma valid_no_exit: "valid_workload wc \<Longrightarrow> NewForWorkload cv wc \<noteq> Err (BuildExit x)"
  by (auto simp: valid_workload_def NewForWorkload_def NewARIMAModel_def NewSARIMAModel_def Let_def outcome_simps split: if_splits)

text \<open>A reconciliation that can build its workload puts it into the manager, whatever the cluster answers later.\<close>

lemma Reconcile_upserts:
  assumes "kGetPolicy api (ns, name) k = Ok policy" "kGetDataSource api (ns, specDataSourceRef (fpSpec policy)) k = Ok ds"
    "toWorkloadConfig (oCv env) policy ds = Ok wc" "buildWorkloadForecaster (oCv env) (oParse env) wc reg = Ok (f, reg1)"
    "Reconcile api env ns name (k, mf, reg) = (r, k', mf', reg')"
  shows "mf' = mf_Upsert f mf"
proof -
  obtain rs k1 where so: "reconcileScaledObject api (oScalerAddress env) policy (wName wc) k = (rs, k1)" by fastforce
  show ?thesis using assms so
    by (cases rs) (simp_all add: Reconcile_def manager_Upsert_def split: prod.splits)
qed

lemma Upsert_tasks:
  assumes "mf_inv mf" "mfStarted mf"
  shows "length (mfTasks (mf_Upsert f mf)) = Suc (length (mfTasks mf))"
    "i < length (mfTasks mf) \<Longrightarrow> taskName (mfTasks mf ! i) = wf_name f \<Longrightarrow> taskCancelled (mfTasks (mf_Upsert f mf) ! i)"
    "last (mfTasks (mf_Upsert f mf)) = \<lparr>taskForecaster = f, taskCancelled = mfBaseDone mf, taskPc = Waiting\<rparr>"
proof -
  let ?t = "\<lparr>taskForecaster = f, taskCancelled = mfBaseDone mf, taskPc = Waiting\<rparr>"
  have u: "mfTasks (mf_Upsert f mf) = mfTasks (cancelEntry (wf_name f) mf) @ [?t]"
    using assms(2) by (simp add: Upsert_cancelEntry launch_def Let_def)
  show "length (mfTasks (mf_Upsert f mf)) = Suc (length (mfTasks mf))" "last (mfTasks (mf_Upsert f mf)) = ?t"
    by (simp_all add: u)
  show "taskCancelled (mfTasks (mf_Upsert f mf) ! i)" if "i < length (mfTasks mf)" "taskName (mfTasks mf ! i) = wf_name f"
    using cancelEntry_cancels[OF _ that] assms(1) that(1) by (simp add: u nth_append mf_inv_def)
qed

text \<open>The first count of a plan is within the scale-up limit of the count the tick starts from.\<close>

lemma tick_first_count:
  assumes "tick mem_Put e (w, s) = (Ok (), w', s')" "wf_inv w" "upFactor_ok (wf_policy w)" "wf_currentReplicas w \<le> max_count"
    "mem_GetLatest None (wf_name w) s' = Ok (Some x)" "Values x \<noteq> []"
  shows "hd (DesiredReplicas x) \<le> upCap (tCv e) (max 1 (wf_currentReplicas w)) (UpMaxFactorPerStep (sanitize (wf_policy w)))"
proof -
  obtain y where y: "tick_stores mem_Put e w s y (Ok ()) w' s'" using tick_ends[OF assms(1)] by auto
  then have x: "y = x" using assms(5)
    by (auto simp: tick_stores_def mem_Put_def mem_GetLatest_def update_conv' split: if_splits option.splits)
  let ?p = "wf_policy w" and ?c = "wf_currentReplicas w"
  have d: "DesiredReplicas x = ToReplicas (tCv e) ?c (Values x) (StepSeconds x) ?p (Quantiles x)"
    using y unfolding x tick_stores_def by blast
  have l: "0 < length (Values x)" using assms(6) by simp
  have c: "previous (tCv e) ?c (Values x) (StepSeconds x) ?p (Quantiles x) 0 = ?c"
    using assms(2) by (auto simp: previous_def wf_inv_def in_bounds_def clampBounds_def)
  have h: "hd (DesiredReplicas x) = DesiredReplicas x ! 0"
    using d ToReplicas_plan(2)[of "tCv e" ?c "Values x"] l by (metis hd_conv_nth length_greater_0_conv)
  have "DesiredReplicas x ! 0 = clampChange (tCv e) ?c (demand (tCv e) (Values x) ?p (Quantiles x) 0)
      (UpMaxFactorPerStep (sanitize ?p)) (DownMaxPercentPerStep (sanitize ?p))"
    unfolding d using ToReplicas_clampChange[OF assms(3) l, of "tCv e" ?c "StepSeconds x" "Quantiles x", unfolded c, OF assms(4)] .
  then show ?thesis unfolding h
    using clampChange_limits(3)[OF assms(3) assms(2)[unfolded wf_inv_def] assms(4) in_bounds_demand] by metis
qed

section \<open>Properties of the operator\<close>

text \<open>
  C37: a reconciliation restarts the loop from nothing. Every time a policy is reconciled, which the
  controller requests again after each interval, the goroutines of its workload are cancelled and a new
  one is started, whether the policy has changed or not. Its model is untrained and its replica count is
  the configured minimum, not the count of the last plan; so the first count of the plan it publishes
  never exceeds the minimum (at least one) times the scale-up factor, however large the load and
  however long the policy has existed.
\<close>

theorem reconcile_restarts_loop:
  assumes "mf_reach (NewMultiForecaster ws st) mf" "mfStarted mf" "\<not> mfBaseDone mf"
    "kGetPolicy api (ns, name) k = Ok policy" "kGetDataSource api (ns, specDataSourceRef (fpSpec policy)) k = Ok ds"
    "toWorkloadConfig (oCv env) policy ds = Ok wc" "buildWorkloadForecaster (oCv env) (oParse env) wc reg = Ok (f, reg1)"
    "Reconcile api env ns name (k, mf, reg) = (r, k', mf', reg')"
    "Fin 1 \<le> wUpMaxFactorPerStep wc" "wUpMaxFactorPerStep wc \<le> Fin max_factor" "wMaxReplicas wc \<le> max_count"
  shows "(\<forall>i<length (mfTasks mf). taskName (mfTasks mf ! i) = wName wc \<longrightarrow> taskCancelled (mfTasks mf' ! i)) \<and>
     last (mfTasks mf') = \<lparr>taskForecaster = f, taskCancelled = False, taskPc = Waiting\<rparr> \<and>
     length (mfTasks mf') = Suc (length (mfTasks mf)) \<and> NewForWorkload (oCv env) wc = Ok (wf_model f) \<and>
     wf_currentReplicas f = capMinReplicas (specCapacity (fpSpec policy)) \<and>
     (\<forall>e s w' s' x. tick mem_Put e (f, s) = (Ok (), w', s') \<and> mem_GetLatest None (wName wc) s' = Ok (Some x) \<and> Values x \<noteq> [] \<longrightarrow>
        hd (DesiredReplicas x) \<le>
          f2i (tCv e) (fceil (i2f (max 1 (capMinReplicas (specCapacity (fpSpec policy)))) * wUpMaxFactorPerStep wc)))"
proof -
  have inv: "mf_inv mf" by (rule mf_reach_inv[OF assms(1) New_inv])
  note b = buildWorkloadForecaster_Ok[OF assms(7)] and w = toWorkloadConfig_Ok[OF assms(6)]
  note u = Reconcile_upserts[OF assms(4-8)] Upsert_tasks[OF inv assms(2), where f = f]
  have m: "NewForWorkload (oCv env) wc = Ok (wf_model f)"
    using assms(7) by (auto simp: buildWorkloadForecaster_def NewWorkloadForecaster_def outcome_simps split: prod.splits)
  obtain q where q: "wf_policy f = workloadPolicy wc q" using b(2) by blast
  have i: "wf_inv f" using w(1) b(3) unfolding wf_inv_def q workloadPolicy_bounds[OF w(1)] by (simp add: valid_workload_def)
  have s: "UpMaxFactorPerStep (sanitize (wf_policy f)) = wUpMaxFactorPerStep wc"
    using w(1) by (simp add: q workloadPolicy_def valid_workload_def)
  then have up: "upFactor_ok (wf_policy f)" using assms(9,10) by (simp add: upFactor_ok_def)
  have c: "wf_currentReplicas f \<le> max_count" using b(3) w(1) assms(11) by (simp add: valid_workload_def)
  have first: "hd (DesiredReplicas x) \<le> upCap (tCv e) (max 1 (capMinReplicas (specCapacity (fpSpec policy)))) (wUpMaxFactorPerStep wc)"
    if "tick mem_Put e (f, s) = (Ok (), w', s')" "mem_GetLatest None (wName wc) s' = Ok (Some x)" "Values x \<noteq> []" for e s w' s' x
    using tick_first_count[OF that(1) i up c _ that(3)] that(2) unfolding s b(1) b(3) w(3) by blast
  have "\<forall>i<length (mfTasks mf). taskName (mfTasks mf ! i) = wName wc \<longrightarrow> taskCancelled (mfTasks mf' ! i)"
    "last (mfTasks mf') = \<lparr>taskForecaster = f, taskCancelled = False, taskPc = Waiting\<rparr>"
    "length (mfTasks mf') = Suc (length (mfTasks mf))" "wf_currentReplicas f = capMinReplicas (specCapacity (fpSpec policy))"
    using u b(1,3) w(3) assms(3) by simp_all
  then show ?thesis using m first by blast
qed

text \<open>
  What the reconciler relies on of the Kubernetes client: \<open>Get\<close> returns the object of the name it is
  asked for; a status update that succeeds is what a later \<open>Get\<close> sees of the conditions, and changes no
  ScaledObject; \<open>CreateOrUpdate\<close> stores what the change made of some object; \<open>SetControllerReference\<close>
  writes only the owner; \<open>SetStatusCondition\<close> leaves the condition it is given as the one of its type.
  The laws speak of the state the API server holds; the client that the operator is given may read from
  a cache that follows that state with a delay.
\<close>

definition kube_laws :: "'k KubeAPI \<Rightarrow> (string \<times> string \<Rightarrow> 'k \<Rightarrow> ScaledObject option) \<Rightarrow> bool" where
  "kube_laws api getObject \<longleftrightarrow>
     (\<forall>n k p. kGetPolicy api n k = Ok p \<longrightarrow> (fpNamespace p, fpName p) = n) \<and>
     (\<forall>p k k'. kUpdateStatus api p k = (Ok (), k') \<longrightarrow>
        (\<exists>p'. kGetPolicy api (fpNamespace p, fpName p) k' = Ok p' \<and> statusConditions (fpStatus p') = statusConditions (fpStatus p)) \<and>
        (\<forall>n. getObject n k' = getObject n k)) \<and>
     (\<forall>x f k k'. kCreateOrUpdate api x f k = (Ok (), k') \<longrightarrow>
        (\<exists>y z. f y = Ok z \<and> getObject (soNamespace x, soName x) k' = Some z)) \<and>
     (\<forall>p x y. kSetOwner api p x = Ok y \<longrightarrow> (\<exists>w. y = x\<lparr>soOwner := w\<rparr>)) \<and>
     (\<forall>cs c. find (\<lambda>d. condType d = condType c) (kSetCondition api cs c) = Some c)"

abbreviation readyOf :: "ForecastPolicy \<Rightarrow> Condition option" where
  "readyOf p \<equiv> find (\<lambda>c. condType c = ''Ready'') (statusConditions (fpStatus p))"

lemma kube_lawsD:
  assumes "kube_laws api getObject"
  shows "kGetPolicy api n k = Ok p \<Longrightarrow> (fpNamespace p, fpName p) = n"
    "kUpdateStatus api p k = (Ok (), k') \<Longrightarrow>
       \<exists>p'. kGetPolicy api (fpNamespace p, fpName p) k' = Ok p' \<and> statusConditions (fpStatus p') = statusConditions (fpStatus p)"
    "kUpdateStatus api p k = (Ok (), k') \<Longrightarrow> getObject n k' = getObject n k"
    "kCreateOrUpdate api x f k = (Ok (), k') \<Longrightarrow> \<exists>y z. f y = Ok z \<and> getObject (soNamespace x, soName x) k' = Some z"
    "kSetOwner api p x = Ok y \<Longrightarrow> \<exists>w. y = x\<lparr>soOwner := w\<rparr>"
    "find (\<lambda>d. condType d = condType c) (kSetCondition api cs c) = Some c"
  using assms unfolding kube_laws_def by blast+

lemma kube_status:
  assumes "kube_laws api getObject" "kUpdateStatus api (policy\<lparr>fpStatus := st\<rparr>) k = (Ok (), k')"
    "statusConditions st = kSetCondition api cs (readyCondition s r m policy)"
  shows "\<exists>p. kGetPolicy api (fpNamespace policy, fpName policy) k' = Ok p \<and> readyOf p = Some (readyCondition s r m policy)"
    "getObject n k' = getObject n k"
proof -
  obtain p where p: "kGetPolicy api (fpNamespace policy, fpName policy) k' = Ok p" "statusConditions (fpStatus p) = statusConditions st"
    using kube_lawsD(2)[OF assms(1,2)] by auto
  have "condType (readyCondition s r m policy) = ''Ready''" by (simp add: readyCondition_def)
  then have "readyOf p = Some (readyCondition s r m policy)"
    using kube_lawsD(6)[OF assms(1), of "readyCondition s r m policy" cs] p(2) assms(3) by simp
  then show "\<exists>p. kGetPolicy api (fpNamespace policy, fpName policy) k' = Ok p \<and> readyOf p = Some (readyCondition s r m policy)"
    using p(1) by blast
  show "getObject n k' = getObject n k" by (rule kube_lawsD(3)[OF assms(1,2)])
qed

lemma kube_fail:
  assumes "kube_laws api getObject" "rec_fail api policy reason message k = (Ok d, k')"
  shows "d = 30 * Second" "\<exists>p. kGetPolicy api (fpNamespace policy, fpName policy) k' = Ok p \<and>
     readyOf p = Some (readyCondition ''False'' reason message policy)"
proof -
  let ?st = "(fpStatus policy)\<lparr>statusConditions := kSetCondition api (statusConditions (fpStatus policy))
      (readyCondition ''False'' reason message policy), statusObservedGeneration := fpGeneration policy\<rparr>"
  have u: "d = 30 * Second" "kUpdateStatus api (policy\<lparr>fpStatus := ?st\<rparr>) k = (Ok (), k')"
    using assms(2) by (auto simp: rec_fail_def Let_def outcome_simps split: prod.splits)
  show "d = 30 * Second" by (rule u(1))
  show "\<exists>p. kGetPolicy api (fpNamespace policy, fpName policy) k' = Ok p \<and>
     readyOf p = Some (readyCondition ''False'' reason message policy)"
    by (rule kube_status(1)[OF assms(1) u(2)]) simp
qed

lemma kube_ready:
  assumes "kube_laws api getObject" "updateReadyStatus api get policy workload so k = (Ok (), k')"
  shows "\<exists>p. kGetPolicy api (fpNamespace policy, fpName policy) k' = Ok p \<and>
     readyOf p = Some (readyCondition ''True'' ''Reconciled'' ''Forecast loop running and ScaledObject reconciled'' policy)"
    "getObject n k' = getObject n k"
  using kube_status[OF assms(1) assms(2)[unfolded updateReadyStatus_def Let_def]] by simp_all

lemma kube_scaledObject:
  assumes "kube_laws api getObject" "reconcileScaledObject api addr policy workload k = (Ok so, k')"
  shows "so = fpName policy" "\<exists>x. getObject (fpNamespace policy, fpName policy) k' = Some x \<and> scaledObjectFields addr policy workload x = x"
proof -
  have c: "kCreateOrUpdate api (emptyScaledObject policy) (\<lambda>so. kSetOwner api policy (scaledObjectFields addr policy workload so)) k = (Ok (), k')"
    and "so = fpName policy"
    using assms(2) by (auto simp: reconcileScaledObject_def outcome_simps split: prod.splits)
  then show "so = fpName policy" by simp
  obtain y z where z: "kSetOwner api policy (scaledObjectFields addr policy workload y) = Ok z"
    "getObject (fpNamespace policy, fpName policy) k' = Some z"
    using kube_lawsD(4)[OF assms(1) c] by (auto simp: emptyScaledObject_def)
  then obtain w where "z = (scaledObjectFields addr policy workload y)\<lparr>soOwner := w\<rparr>"
    using kube_lawsD(5)[OF assms(1)] by blast
  then show "\<exists>x. getObject (fpNamespace policy, fpName policy) k' = Some x \<and> scaledObjectFields addr policy workload x = x"
    using z(2) by (auto simp: scaledObjectFields_def Let_def)
qed

text \<open>The two ways a reconciliation of an existing policy completes: refused, or with all three parts done.\<close>

lemma Reconcile_completes:
  assumes "kGetPolicy api (ns, name) k = Ok policy" "Reconcile api env ns name (k, mf, reg) = (Ok d, k', mf', reg')"
  shows "(\<exists>reason message k1. rec_fail api policy reason message k1 = (Ok d, k') \<and>
       (reason \<noteq> ''ScaledObjectError'' \<longrightarrow> mf' = mf \<and> reg' = reg)) \<or>
    (\<exists>ds wc f so k1. kGetDataSource api (ns, specDataSourceRef (fpSpec policy)) k = Ok ds \<and>
       toWorkloadConfig (oCv env) policy ds = Ok wc \<and>
       buildWorkloadForecaster (oCv env) (oParse env) wc reg = Ok (f, reg') \<and> mf' = mf_Upsert f mf \<and> d = wInterval wc \<and>
       reconcileScaledObject api (oScalerAddress env) policy (wName wc) k = (Ok so, k1) \<and>
       updateReadyStatus api (\<lambda>w. mem_GetLatest None w (mfStore mf')) policy (wName wc) so k1 = (Ok (), k'))"
    (is "?refused \<or> ?done")
proof (cases "kGetDataSource api (ns, specDataSourceRef (fpSpec policy)) k")
  case ds: (Ok ds)
  show ?thesis
  proof (cases "toWorkloadConfig (oCv env) policy ds")
    case wc: (Ok wc)
    show ?thesis
    proof (cases "buildWorkloadForecaster (oCv env) (oParse env) wc reg")
      case f: (Ok fr)
      obtain f reg1 where fr: "fr = (f, reg1)" by fastforce
      obtain rs k1 where so: "reconcileScaledObject api (oScalerAddress env) policy (wName wc) k = (rs, k1)" by fastforce
      let ?mf = "mf_Upsert f mf"
      have R: "Reconcile api env ns name (k, mf, reg) = (case rs of
          Panic \<Rightarrow> (Panic, k1, ?mf, reg1)
        | Err _ \<Rightarrow> (case rec_fail api policy ''ScaledObjectError'' [] k1 of (r, k) \<Rightarrow> (r, k, ?mf, reg1))
        | Ok s \<Rightarrow> (case updateReadyStatus api (\<lambda>w. mem_GetLatest None w (mfStore ?mf)) policy (wName wc) s k1 of
            (r, k) \<Rightarrow> (bind_outcome r (\<lambda>_. Ok (wInterval wc)), k, ?mf, reg1)))"
        using assms(1) ds wc f fr so by (simp add: Reconcile_def manager_Upsert_def)
      show ?thesis
      proof (cases rs)
        case (Ok s)
        obtain r k2 where u: "updateReadyStatus api (\<lambda>w. mem_GetLatest None w (mfStore ?mf)) policy (wName wc) s k1 = (r, k2)" by fastforce
        have e: "r = Ok ()" "k2 = k'" "d = wInterval wc" "mf' = ?mf" "reg' = reg1"
          using R u assms(2) by (cases r; simp add: Ok)+
        show ?thesis using ds wc f[unfolded fr] so[unfolded Ok] u unfolding e by blast
      next
        case (Err e)
        then have "rec_fail api policy ''ScaledObjectError'' [] k1 = (Ok d, k')"
          using R assms(2) by (cases "rec_fail api policy ''ScaledObjectError'' [] k1") simp
        then show ?thesis by blast
      qed (use R assms(2) in simp)
    next
      case (Err e)
      then have "rec_fail api policy ''ForecasterError'' [] k = (Ok d, k')" "mf' = mf \<and> reg' = reg"
        using assms ds wc by (simp_all add: Reconcile_def manager_Upsert_def split: prod.splits)
      then show ?thesis by blast
    qed (use assms ds wc in \<open>simp add: Reconcile_def manager_Upsert_def\<close>)
  next
    case (Err e)
    then have "rec_fail api policy ''InvalidSpec'' [] k = (Ok d, k')" "mf' = mf \<and> reg' = reg"
      using assms ds by (simp_all add: Reconcile_def split: prod.splits)
    then show ?thesis by blast
  qed (use assms ds in \<open>simp add: Reconcile_def\<close>)
next
  case (Err e)
  then have "rec_fail api policy ''DataSourceNotFound'' (specDataSourceRef (fpSpec policy)) k = (Ok d, k')" "mf' = mf \<and> reg' = reg"
    using assms by (simp_all add: Reconcile_def split: prod.splits if_splits)
  then show ?thesis by blast
qed (use assms in \<open>simp add: Reconcile_def\<close>)

text \<open>
  C7: the Ready condition tells the truth. When a reconciliation of an existing policy completes, the
  cluster holds a Ready condition for the generation that was read. If it is true, the manager has
  registered, under the policy's key and nothing else, the forecaster built from the translation of the
  policy with the DataSource it refers to, and its
  ScaledObject has the policy's target, bounds and a single trigger that asks the scaler for that key.
  If it is false, the controller tries again after 30 seconds and, unless only the ScaledObject failed,
  the manager is as it was: an earlier forecast loop of the policy keeps running.
\<close>

theorem ready_condition_truthful:
  assumes "kube_laws api getObject" "kGetPolicy api (ns, name) k = Ok policy"
    "Reconcile api env ns name (k, mf, reg) = (Ok d, k', mf', reg')" "mf_reach (NewMultiForecaster ws st) mf"
  shows "\<exists>p c. kGetPolicy api (ns, name) k' = Ok p \<and> readyOf p = Some c \<and> condObservedGeneration c = fpGeneration policy \<and>
     (if condStatus c = ''True''
      then (\<exists>ds wc f x. kGetDataSource api (ns, specDataSourceRef (fpSpec policy)) k = Ok ds \<and>
         toWorkloadConfig (oCv env) policy ds = Ok wc \<and> wName wc = workloadKey ns name \<and> d = wInterval wc \<and>
         buildWorkloadForecaster (oCv env) (oParse env) wc reg = Ok (f, reg') \<and>
         mf_entry mf' = (mf_entry mf)(workloadKey ns name \<mapsto> f) \<and>
         getObject (ns, name) k' = Some x \<and> scaledObjectFields (oScalerAddress env) policy (workloadKey ns name) x = x)
      else condStatus c = ''False'' \<and> d = 30 * Second \<and> (condReason c \<noteq> ''ScaledObjectError'' \<longrightarrow> mf' = mf \<and> reg' = reg))"
    (is "\<exists>p c. ?get p \<and> readyOf p = Some c \<and> ?gen c \<and> ?rest c")
proof -
  have n: "fpNamespace policy = ns" "fpName policy = name" using kube_lawsD(1)[OF assms(1,2)] by simp_all
  from Reconcile_completes[OF assms(2,3)] show ?thesis
  proof (elim disjE exE conjE)
    fix reason message k1
    let ?c = "readyCondition ''False'' reason message policy"
    assume r: "rec_fail api policy reason message k1 = (Ok d, k')" "reason \<noteq> ''ScaledObjectError'' \<longrightarrow> mf' = mf \<and> reg' = reg"
    note f = kube_fail[OF assms(1) r(1), unfolded n]
    obtain p where p: "?get p" "readyOf p = Some ?c" using f(2) by blast
    have "?gen ?c" "?rest ?c" using f(1) r(2) by (simp_all add: readyCondition_def)
    then show ?thesis using p by blast
  next
    fix ds wc f so k1
    let ?c = "readyCondition ''True'' ''Reconciled'' ''Forecast loop running and ScaledObject reconciled'' policy"
    assume ds: "kGetDataSource api (ns, specDataSourceRef (fpSpec policy)) k = Ok ds"
      and wc: "toWorkloadConfig (oCv env) policy ds = Ok wc" and b: "buildWorkloadForecaster (oCv env) (oParse env) wc reg = Ok (f, reg')"
      and mf: "mf' = mf_Upsert f mf" and d: "d = wInterval wc"
      and so: "reconcileScaledObject api (oScalerAddress env) policy (wName wc) k = (Ok so, k1)"
      and u: "updateReadyStatus api (\<lambda>w. mem_GetLatest None w (mfStore mf')) policy (wName wc) so k1 = (Ok (), k')"
    note w = toWorkloadConfig_Ok(2)[OF wc, unfolded n]
    obtain x where x: "getObject (ns, name) k1 = Some x" "scaledObjectFields (oScalerAddress env) policy (workloadKey ns name) x = x"
      using kube_scaledObject(2)[OF assms(1) so] unfolding n w by blast
    note r = kube_ready[OF assms(1) u, unfolded n]
    obtain p where p: "?get p" "readyOf p = Some ?c" using r(1) by blast
    have m: "mf_entry mf' = (mf_entry mf)(workloadKey ns name \<mapsto> f)"
      using mgr.entry_upsert[OF mf_reach_inv[OF assms(4) New_inv], of f] buildWorkloadForecaster_Ok(1)[OF b] w mf by simp
    have "?gen ?c" by (simp add: readyCondition_def)
    moreover have "?rest ?c"
    proof -
      have t: "condStatus ?c = ''True''" by (simp add: readyCondition_def)
      have "getObject (ns, name) k' = Some x" using x(1) r(2) by simp
      then show ?thesis unfolding if_P[OF t] using ds wc w d m b x(2) by blast
    qed
    ultimately show ?thesis using p by blast
  qed
qed

text \<open>
  C38: deleting a policy can stop another one. The key of the policy \<open>b-c\<close> in the namespace \<open>a\<close> is also that
  of the policy \<open>c\<close> in the namespace \<open>a-b\<close>. When the first is reconciled after its deletion, the loop that
  runs for the second is unregistered, all its goroutines are cancelled and its snapshot is deleted,
  although its policy exists and its condition still says that it is ready.
\<close>

theorem colliding_policy_stopped:
  assumes "mf_reach (NewMultiForecaster ws st) mf" "kGetPolicy api (a, b @ ''-'' @ c) k = Err NotFound"
    "mf_entry mf (workloadKey (a @ ''-'' @ b) c) = Some f"
    "Reconcile api env a (b @ ''-'' @ c) (k, mf, reg) = (r, k', mf', reg')"
  shows "r = Ok 0 \<and> k' = k \<and> mf_entry mf' = (mf_entry mf)(workloadKey (a @ ''-'' @ b) c := None) \<and>
     (\<forall>t\<in>set (mfTasks mf'). taskName t = workloadKey (a @ ''-'' @ b) c \<longrightarrow> taskCancelled t) \<and>
     mem_GetLatest None (workloadKey (a @ ''-'' @ b) c) (mfStore mf') = Ok None"
proof -
  let ?n = "workloadKey (a @ ''-'' @ b) c"
  have n: "workloadKey a (b @ ''-'' @ c) = ?n" by (simp add: workloadKey_def)
  have inv: "mf_inv mf" by (rule mf_reach_inv[OF assms(1) New_inv])
  have "Reconcile api env a (b @ ''-'' @ c) (k, mf, reg) = (Ok 0, k, mf_Remove ?n mf, reg)"
    unfolding Reconcile_def manager_Remove_def n using assms(2) by simp
  then have e: "r = Ok 0" "k' = k" and mf': "mf' = mf_Remove ?n mf" using assms(4) by auto
  note g = mgr.entry_remove[OF inv, of ?n] mgr.inv_remove[OF inv, of ?n]
  then have gone: "map_of (mfRunning mf') ?n = None" unfolding mf' by (metis fun_upd_same mf_entry_def option.map_disc_iff)
  have "taskCancelled t" if "t \<in> set (mfTasks mf')" "taskName t = ?n" for t
    using unregistered_cancelled[OF g(2) gone[unfolded mf']] that unfolding mf' by blast
  moreover have "mem_GetLatest None ?n (mfStore mf') = Ok None"
    unfolding mf' mf_Remove_def using assms(3)
    by (auto simp: mf_entry_def mf_Remove_delete_def mem_Delete_def mem_GetLatest_def delete_conv')
  ultimately show ?thesis using e g(1) unfolding mf' by blast
qed

section \<open>A concrete cluster\<close>

record Cluster =
  clPolicies :: "((string \<times> string) \<times> ForecastPolicy) list"
  clSources :: "((string \<times> string) \<times> DataSource) list"
  clObjects :: "((string \<times> string) \<times> ScaledObject) list"

definition found :: "'a option \<Rightarrow> (api_error, 'a) outcome" where
  "found x = (case x of None \<Rightarrow> Err NotFound | Some a \<Rightarrow> Ok a)"

definition clusterAPI :: "Cluster KubeAPI" where
  "clusterAPI =
     \<lparr>kGetPolicy = (\<lambda>n k. case map_of (clPolicies k) n of None \<Rightarrow> Err NotFound
        | Some p \<Rightarrow> Ok (p\<lparr>fpNamespace := fst n, fpName := snd n\<rparr>)),
      kGetDataSource = (\<lambda>n k. found (map_of (clSources k) n)),
      kListPolicies = (\<lambda>ns k. Ok (filter (\<lambda>p. fpNamespace p = ns) (map snd (clPolicies k)))),
      kUpdateStatus = (\<lambda>p k. (Ok (), k\<lparr>clPolicies := AList.update (fpNamespace p, fpName p) p (clPolicies k)\<rparr>)),
      kCreateOrUpdate = (\<lambda>x f k.
        (case f (case map_of (clObjects k) (soNamespace x, soName x) of None \<Rightarrow> x | Some y \<Rightarrow> y) of
           Ok z \<Rightarrow> (Ok (), k\<lparr>clObjects := AList.update (soNamespace x, soName x) z (clObjects k)\<rparr>)
         | Err e \<Rightarrow> (Err e, k)
         | Panic \<Rightarrow> (Panic, k))),
      kSetCondition = (\<lambda>cs c. filter (\<lambda>d. condType d \<noteq> condType c) cs @ [c]),
      kSetOwner = (\<lambda>p x. Ok (x\<lparr>soOwner := Some (fpNamespace p, fpName p)\<rparr>))\<rparr>"

lemma find_appended: "find (\<lambda>d. condType d = t) (filter (\<lambda>d. condType d \<noteq> t) cs @ [c]) = (if condType c = t then Some c else None)"
  by (induction cs) auto

lemma clusterAPI_laws: "kube_laws clusterAPI (\<lambda>n k. map_of (clObjects k) n)"
  by (auto simp: kube_laws_def clusterAPI_def find_appended update_conv' split: option.splits outcome.splits)

lemma clusterAPI_total:
  "\<exists>k'. reconcileScaledObject clusterAPI addr p w k = (Ok (fpName p), k')" "\<exists>k'. updateReadyStatus clusterAPI get p w so k = (Ok (), k')"
  by (simp_all add: reconcileScaledObject_def updateReadyStatus_def clusterAPI_def Let_def)

definition web_spec :: ForecastPolicySpec where
  "web_spec =
     \<lparr>specScaleTargetRef = \<lparr>targetAPIVersion = [], targetKind = [], targetName = ''web''\<rparr>, specMetric = ''rps'',
      specDataSourceRef = ''prom'', specModel = \<lparr>modelType = ''byom'', modelARIMA = Some \<lparr>arimaP = 0, arimaD = 3, arimaQ = 0\<rparr>,
        modelSARIMA = Some \<lparr>sarimaP = 0, sarimaD = 0, sarimaQ = 0, SeasonalP = 1, SeasonalD = 1, SeasonalQ = 1, SeasonalPeriod = 24\<rparr>,
        modelBYOMURL = ''http://m''\<rparr>,
      specForecast = \<lparr>specHorizon = ''3m'', specStep = [], specInterval = [], specWindow = []\<rparr>,
      specCapacity = \<lparr>capTargetPerPod = Fin 100, capHeadroom = Fin 1, capQuantileLevel = [], capMinReplicas = 1,
        capMaxReplicas = 100, capUpMaxFactorPerStep = Fin 2, capDownMaxPercentPerStep = 50\<rparr>, specLeadTime = ''10m''\<rparr>"

definition web_policy :: ForecastPolicy where
  "web_policy =
     \<lparr>fpNamespace = ''a'', fpName = ''web'', fpGeneration = 7, fpSpec = web_spec,
      fpStatus = \<lparr>statusObservedGeneration = 0, statusLastForecastTime = None, statusCurrentReplicas = 0,
        statusDesiredReplicas = 0, statusScaledObjectName = [], statusConditions = []\<rparr>\<rparr>"

definition web_source :: DataSource where
  "web_source = \<lparr>dsNamespace = ''a'', dsName = ''prom'', dsType = ''prometheus'', dsConfig = [(''query'', ''q'')]\<rparr>"

definition web_cluster :: Cluster where
  "web_cluster = \<lparr>clPolicies = [((''a'', ''web''), web_policy)], clSources = [((''a'', ''prom''), web_source)], clObjects = []\<rparr>"

definition web_env :: OperatorEnv where
  "web_env = \<lparr>oCv = amd64_cv, oParse = (\<lambda>_. None), oScalerAddress = ''scaler:50051''\<rparr>"

lemma web_translated: "toWorkloadConfig amd64_cv web_policy web_source = Ok ((loop_workload ''byom'')\<lparr>wName := ''a-web''\<rparr>)"
  by code_simp

lemma web_found:
  "kGetPolicy clusterAPI (''a'', ''web'') web_cluster = Ok web_policy"
  "kGetDataSource clusterAPI (''a'', specDataSourceRef (fpSpec web_policy)) web_cluster = Ok web_source"
  by code_simp+

definition started_empty :: MultiForecaster where
  "started_empty = mf_Start forwards (NewMultiForecaster [] NewMemoryStore)"

lemma started_empty_reach0: "mf_reach (NewMultiForecaster [] NewMemoryStore) started_empty"
  unfolding started_empty_def by (rule r_into_rtranclp, rule Start[OF _ orders(1)]) (simp add: NewMultiForecaster_def)

lemma started_empty_reach: "mf_reach (NewMultiForecaster [] NewMemoryStore) (mf_Upsert f started_empty)"
  using started_empty_reach0 Upsert by (meson rtranclp.rtrancl_into_rtrancl)

lemma started_empty_fields:
  "mfStarted (mf_Upsert f started_empty)" "\<not> mfBaseDone (mf_Upsert f started_empty)"
  "mfTasks (mf_Upsert f started_empty) = [\<lparr>taskForecaster = f, taskCancelled = False, taskPc = Waiting\<rparr>]"
  by (simp_all add: started_empty_def mf_Upsert_def mf_Start_def NewMultiForecaster_def launch_def range_over_def forwards_def)

text \<open>The second reconciliation of an unchanged policy cancels the loop of the first.\<close>

theorem reconcile_restarts_loop_witness:
  "\<exists>f r k mf reg. Reconcile clusterAPI web_env ''a'' ''web'' (web_cluster, mf_Upsert f started_empty, empty_registry) = (r, k, mf, reg) \<and>
     taskCancelled (mfTasks mf ! 0) \<and> \<not> taskCancelled (mfTasks mf ! 1) \<and> length (mfTasks mf) = 2 \<and>
     wf_currentReplicas (taskForecaster (mfTasks mf ! 1)) = 1"
proof -
  let ?wc = "(loop_workload ''byom'')\<lparr>wName := ''a-web''\<rparr>"
  obtain f reg1 where f: "buildWorkloadForecaster (oCv web_env) (oParse web_env) ?wc empty_registry = Ok (f, reg1)"
    using loop_built[of "''a-web''"] by (auto simp: web_env_def)
  obtain r k mf reg where R:
    "Reconcile clusterAPI web_env ''a'' ''web'' (web_cluster, mf_Upsert f started_empty, empty_registry) = (r, k, mf, reg)"
    by (metis prod_cases4)
  have t: "toWorkloadConfig (oCv web_env) web_policy web_source = Ok ?wc" using web_translated by (simp add: web_env_def)
  have n: "wf_name f = ''a-web''" using buildWorkloadForecaster_Ok(1)[OF f] by simp
  have u: "Fin 1 \<le> wUpMaxFactorPerStep ?wc" "wUpMaxFactorPerStep ?wc \<le> Fin max_factor" "wMaxReplicas ?wc \<le> max_count"
    "capMinReplicas (specCapacity (fpSpec web_policy)) = 1"
    by (simp_all add: loop_workload_def web_policy_def web_spec_def)
  note c = reconcile_restarts_loop[OF started_empty_reach started_empty_fields(1,2) web_found t f R u(1-3)]
  then have l: "length (mfTasks mf) = 2" "taskCancelled (mfTasks mf ! 0)" "wf_currentReplicas f = 1"
    "last (mfTasks mf) = \<lparr>taskForecaster = f, taskCancelled = False, taskPc = Waiting\<rparr>"
    by (simp_all add: started_empty_fields n u(4))
  have "mfTasks mf ! 1 = last (mfTasks mf)" using l(1) by (subst last_conv_nth) auto
  then show ?thesis using R l by (intro exI[of _ f] exI[of _ r] exI[of _ k] exI[of _ mf] exI[of _ reg]) simp
qed

theorem ready_condition_truthful_witness:
  "\<exists>d k mf reg p c. Reconcile clusterAPI web_env ''a'' ''web'' (web_cluster, started_empty, empty_registry) = (Ok d, k, mf, reg) \<and>
     kGetPolicy clusterAPI (''a'', ''web'') k = Ok p \<and> readyOf p = Some c \<and> condObservedGeneration c = 7"
proof -
  let ?wc = "(loop_workload ''byom'')\<lparr>wName := ''a-web''\<rparr>"
  have "fpGeneration web_policy = 7" by (simp add: web_policy_def)
  obtain f reg1 where f: "buildWorkloadForecaster (oCv web_env) (oParse web_env) ?wc empty_registry = Ok (f, reg1)"
    using loop_built[of "''a-web''"] by (auto simp: web_env_def)
  have t: "toWorkloadConfig (oCv web_env) web_policy web_source = Ok ?wc" using web_translated by (simp add: web_env_def)
  obtain d k mf reg where R: "Reconcile clusterAPI web_env ''a'' ''web'' (web_cluster, started_empty, empty_registry) = (Ok d, k, mf, reg)"
  proof -
    obtain k1 where so: "reconcileScaledObject clusterAPI (oScalerAddress web_env) web_policy ''a-web'' web_cluster = (Ok (fpName web_policy), k1)"
      using clusterAPI_total(1) by blast
    obtain k2 where up: "updateReadyStatus clusterAPI (\<lambda>w. mem_GetLatest None w (mfStore (mf_Upsert f started_empty))) web_policy ''a-web''
        (fpName web_policy) k1 = (Ok (), k2)"
      using clusterAPI_total(2) by blast
    show thesis by (rule that) (simp add: Reconcile_def manager_Upsert_def f t web_found so up)
  qed
  from ready_condition_truthful[OF clusterAPI_laws web_found(1) R started_empty_reach0] \<open>fpGeneration web_policy = 7\<close> R show ?thesis by auto
qed

text \<open>The policy \<open>b-c\<close> of \<open>a\<close> is deleted while \<open>c\<close> of \<open>a-b\<close> runs.\<close>

theorem colliding_policy_stopped_witness:
  "\<exists>f r k mf reg. Reconcile clusterAPI web_env ''a'' ''b-c'' (web_cluster, mf_Upsert f started_empty, empty_registry) = (r, k, mf, reg) \<and>
     wf_name f = workloadKey ''a-b'' ''c'' \<and> mf_entry mf (workloadKey ''a-b'' ''c'') = None \<and> taskCancelled (mfTasks mf ! 0)"
proof -
  let ?f = "loop_forecaster\<lparr>wf_name := ''a-b-c''\<rparr>"
  obtain r k mf reg where R:
    "Reconcile clusterAPI web_env ''a'' (''b'' @ ''-'' @ ''c'') (web_cluster, mf_Upsert ?f started_empty, empty_registry) = (r, k, mf, reg)"
    by (metis prod_cases4)
  have d: "kGetPolicy clusterAPI (''a'', ''b'' @ ''-'' @ ''c'') web_cluster = Err NotFound" by code_simp
  have n: "workloadKey (''a'' @ ''-'' @ ''b'') ''c'' = ''a-b-c''" "workloadKey ''a-b'' ''c'' = ''a-b-c''" by code_simp+
  have inv: "mf_inv started_empty" by (rule mf_reach_inv[OF started_empty_reach0 New_inv])
  have m: "mf_entry (mf_Upsert ?f started_empty) (workloadKey (''a'' @ ''-'' @ ''b'') ''c'') = Some ?f"
    unfolding n mgr.entry_upsert[OF inv] by simp
  note c = colliding_policy_stopped[OF started_empty_reach d m R, unfolded n]
  have "mf = mf_Remove ''a-b-c'' (mf_Upsert ?f started_empty)"
    using R d by (simp add: Reconcile_def manager_Remove_def workloadKey_def)
  then have "length (mfTasks mf) = 1" "taskName (mfTasks mf ! 0) = ''a-b-c''"
    using m[unfolded n mf_entry_def] cancelEntry_nth(1)[of 0 "mf_Upsert ?f started_empty" "''a-b-c''"]
    by (simp_all add: n mf_Remove_def mf_Remove_delete_def Remove_cancelEntry started_empty_fields)
  then have "taskCancelled (mfTasks mf ! 0)" using c by (metis nth_mem zero_less_one)
  moreover have "Reconcile clusterAPI web_env ''a'' ''b-c'' (web_cluster, mf_Upsert ?f started_empty, empty_registry) = (r, k, mf, reg)"
    using R by simp
  moreover have "wf_name ?f = workloadKey ''a-b'' ''c''" unfolding n by simp
  moreover have "mf_entry mf ''a-b-c'' = None" using c by simp
  ultimately show ?thesis unfolding n by blast
qed

end
