(* ===== verification/Mcp.thy ===== *)
theory Mcp
  imports Controller
begin

text \<open>
  The MCP server of \<open>src/cmd/mcp-server\<close>: its configuration and logger, the tools of \<open>server.go\<close> over
  the forecaster's client, and the operator-aware tools of \<open>policies.go\<close> over the Kubernetes client;
  also the routes and the logger of the scaler, which are of the same kind. The MCP library is only
  the transport: a tool is a function of its string arguments to a text or an error.
\<close>

section \<open>Printing\<close>

definition nl :: string where "nl = [CHR 0x0A]"

text \<open>\<open>%.2f\<close>: the exact value rounded to two decimals, ties to even.\<close>

definition fmt_f2 :: "float64 \<Rightarrow> string" where
  "fmt_f2 x = (case x of
      NaN \<Rightarrow> ''NaN'' | PInf \<Rightarrow> ''+Inf'' | NInf \<Rightarrow> ''-Inf''
    | Fin r \<Rightarrow> (let t = rne (\<bar>r\<bar> * 100)
               in (if r < 0 then ''-'' else []) @ utoa (t div 100) @ ''.'' @ pad2 (t mod 100)))"

text \<open>\<open>Duration.Round\<close>, which saturates, and \<open>Duration.String\<close>.\<close>

definition duration_Round :: "Duration \<Rightarrow> Duration \<Rightarrow> Duration" where
  "duration_Round d m =
     (if m \<le> 0 then d
      else let r = d smod m in
        if d < 0
        then (let r = - r in if 2 * r < m then d + r else if minDuration \<le> d - m + r then d - m + r else minDuration)
        else if 2 * r < m then d - r
        else if d + m - r \<le> maxDuration then d + m - r else maxDuration)"

definition fmtFrac :: "nat \<Rightarrow> int \<Rightarrow> string" where
  "fmtFrac prec v = (if v mod 10 ^ prec = 0 then [] else ''.'' @ stripZeros (fixedDigits prec (v mod 10 ^ prec)))"

definition duration_String :: "Duration \<Rightarrow> string" where
  "duration_String d =
     (let u = \<bar>d\<bar>; secs = u div 10 ^ 9; mins = secs div 60; hours = mins div 60
      in (if d < 0 then ''-'' else []) @
         (if u = 0 then ''0s''
          else if u < 10 ^ 3 then utoa u @ ''ns''
          else if u < 10 ^ 6 then utoa (u div 10 ^ 3) @ fmtFrac 3 u @ [CHR 0xC2, CHR 0xB5, CHR ''s'']
          else if u < 10 ^ 9 then utoa (u div 10 ^ 6) @ fmtFrac 6 u @ ''ms''
          else (if hours > 0 then utoa hours @ ''h'' else []) @ (if mins > 0 then utoa (mins mod 60) @ ''m'' else []) @
               utoa (secs mod 60) @ fmtFrac 9 u @ ''s''))"

text \<open>\<open>%q\<close>; bytes beyond ASCII are taken to be printable text, which is kept.\<close>

definition hexDigit :: "int \<Rightarrow> char" where
  "hexDigit n = (if n < 10 then dig n else char_of (n + 87))"

definition quoteByte :: "char \<Rightarrow> string" where
  "quoteByte c =
     (if c = CHR 0x22 then [CHR 0x5C, c]
      else if c = CHR 0x5C then [c, c]
      else if c = CHR 0x07 then [CHR 0x5C, CHR ''a'']
      else if c = CHR 0x08 then [CHR 0x5C, CHR ''b'']
      else if c = CHR 0x0C then [CHR 0x5C, CHR ''f'']
      else if c = CHR 0x0A then [CHR 0x5C, CHR ''n'']
      else if c = CHR 0x0D then [CHR 0x5C, CHR ''r'']
      else if c = CHR 0x09 then [CHR 0x5C, CHR ''t'']
      else if c = CHR 0x0B then [CHR 0x5C, CHR ''v'']
      else if byte c < 32 \<or> byte c = 127 then [CHR 0x5C, CHR ''x'', hexDigit (byte c div 16), hexDigit (byte c mod 16)]
      else [c])"

definition go_quote :: "string \<Rightarrow> string" where
  "go_quote s = [CHR 0x22] @ concat (map quoteByte s) @ [CHR 0x22]"

fun join :: "string \<Rightarrow> string list \<Rightarrow> string" where
  "join sep [] = []"
| "join sep [s] = s"
| "join sep (s # t # rest) = s @ sep @ join sep (t # rest)"

definition rule_line :: string where
  "rule_line = concat (replicate 36 [CHR 0xE2, CHR 0x94, CHR 0x81]) @ nl @ nl"

definition arrow :: string where
  "arrow = '' '' @ [CHR 0xE2, CHR 0x86, CHR 0x92] @ '' ''"

section \<open>Configuration, loggers and the scaler's routes\<close>

record McpConfig =
  mcForecasterURL :: string
  mcStaleAfter :: Duration
  mcTransport :: string
  mcListen :: string
  mcBaseURL :: string
  mcLogFormat :: string
  mcLogLevel :: string

definition mcp_ParseFlags ::
  "(float64 \<Rightarrow> int) \<Rightarrow> (string \<Rightarrow> string option) \<Rightarrow> string list \<Rightarrow> (exit, McpConfig) outcome" where
  "mcp_ParseFlags cv given environ =
     (if \<not> flagsOk (durationx_Parse cv) given [''stale-after''] then Err (Exit 2)
      else let str = (\<lambda>name key d. flagValue okString given name (getEnv environ key d));
               conf = \<lparr>mcForecasterURL = str ''forecaster-url'' ''FORECASTER_URL'' ''http://localhost:8081'',
                       mcStaleAfter = flagValue (durationx_Parse cv) given ''stale-after''
                                        (getEnvDuration cv environ ''STALE_AFTER'' (5 * Minute)),
                       mcTransport = str ''transport'' ''MCP_TRANSPORT'' ''stdio'',
                       mcListen = str ''listen'' ''MCP_LISTEN'' '':8083'',
                       mcBaseURL = str ''base-url'' ''MCP_BASE_URL'' [],
                       mcLogFormat = str ''log-format'' ''LOG_FORMAT'' ''text'',
                       mcLogLevel = str ''log-level'' ''LOG_LEVEL'' ''info''\<rparr>
           in if mcForecasterURL conf = [] then Err (Exit 1)
              else if mcTransport conf = ''sse'' \<and> mcBaseURL conf = [] then Err (Exit 1)
              else Ok conf)"

definition mcp_logger_New :: "McpConfig \<Rightarrow> log_level \<times> bool" where
  "mcp_logger_New conf =
     ((if mcLogLevel conf = ''debug'' then LevelDebug else if mcLogLevel conf = ''warn'' then LevelWarn
       else if mcLogLevel conf = ''error'' then LevelError else LevelInfo), mcLogFormat conf = ''json'')"

definition scaler_logger_New :: "ScalerConfig \<Rightarrow> log_level \<times> bool" where
  "scaler_logger_New conf =
     ((if scLogLevel conf = ''debug'' then LevelDebug else if scLogLevel conf = ''info'' then LevelInfo
       else if scLogLevel conf = ''warn'' then LevelWarn else if scLogLevel conf = ''error'' then LevelError
       else LevelInfo), scLogFormat conf = ''json'')"

definition scaler_SetupRoutes :: "handler \<Rightarrow> string \<Rightarrow> handler" where
  "scaler_SetupRoutes promHandler path =
     (if path = ''/healthz'' then HealthHandler
      else if path = ''/metrics'' then promHandler
      else (\<lambda>w. (False, write_chunk (TextChunk ''404 page not found'') (WriteHeader StatusNotFound w))))"

section \<open>Tools over the forecaster\<close>

datatype mcp_error =
    ListFailed client_error | MissingParam string | ForecastFailed client_error
  | PoliciesFailed api_error | PolicyFailed string string api_error

datatype tool_result = ToolText string | ToolError mcp_error | ToolPanic

definition mcp_ListWorkloads :: "(client_error, string list) outcome \<Rightarrow> tool_result" where
  "mcp_ListWorkloads listing =
     (case listing of
        Err e \<Rightarrow> ToolError (ListFailed e)
      | Panic \<Rightarrow> ToolPanic
      | Ok workloads \<Rightarrow>
          if workloads = [] then ToolText ''No workloads are currently tracked.''
          else ToolText (''Tracked workloads:'' @ nl @ ''- '' @ join (nl @ ''- '') workloads))"

definition formatFloats :: "float64 list \<Rightarrow> string" where
  "formatFloats vs = (if vs = [] then ''(none)'' else join '', '' (map fmt_f2 vs))"

definition formatInts :: "int list \<Rightarrow> string" where
  "formatInts vs = (if vs = [] then ''(none)'' else join '', '' (map itoa vs))"

definition snapshotAge :: "Time \<Rightarrow> Snapshot \<Rightarrow> Duration" where
  "snapshotAge now snap = duration_Round (time_Sub now (GeneratedAt snap)) Second"

definition forecast_text :: "Snapshot \<Rightarrow> Duration \<Rightarrow> bool \<Rightarrow> string" where
  "forecast_text snap age stale =
     ''Workload:        '' @ Workload snap @ nl @
     ''Metric:          '' @ Metric snap @ nl @
     ''Generated:       '' @ format_rfc3339 (GeneratedAt snap) @ '' ('' @ duration_String age @ '', '' @
       (if stale then ''STALE ('' @ duration_String age @ '' old)'' else ''fresh'') @ '')'' @ nl @
     ''Step:            '' @ itoa (StepSeconds snap) @ ''s'' @ nl @
     ''Horizon:         '' @ itoa (HorizonSeconds snap) @ ''s ('' @ itoa (int (length (Values snap))) @ '' steps)'' @ nl @
     nl @ ''Forecast values (metric):'' @ nl @ ''  '' @ formatFloats (Values snap) @ nl @
     nl @ ''Desired replicas:'' @ nl @ ''  '' @ formatInts (DesiredReplicas snap) @ nl"

definition mcp_GetForecast ::
  "(string \<Rightarrow> (client_error, SnapshotResult) outcome) \<Rightarrow> Duration \<Rightarrow> Time \<Rightarrow> (string \<Rightarrow> string option) \<Rightarrow> tool_result" where
  "mcp_GetForecast getSnapshot staleAfter now args =
     (case args ''workload'' of
        None \<Rightarrow> ToolError (MissingParam ''workload'')
      | Some workload \<Rightarrow>
          (case getSnapshot workload of
             Err e \<Rightarrow> ToolError (ForecastFailed e)
           | Panic \<Rightarrow> ToolPanic
           | Ok res \<Rightarrow>
               (let snap = resSnapshot res; age = snapshotAge now snap
                in ToolText (forecast_text snap age (Stale res \<or> age > staleAfter)))))"

text \<open>The loops of \<open>maxReplicas\<close> and \<open>minReplicasVal\<close> keep the value and the index of the best so far.\<close>

fun bestFrom :: "(int \<Rightarrow> int \<Rightarrow> bool) \<Rightarrow> int \<times> nat \<Rightarrow> nat \<Rightarrow> int list \<Rightarrow> int \<times> nat" where
  "bestFrom better b i [] = b"
| "bestFrom better b i (v # vs) = bestFrom better (if better v (fst b) then (v, i) else b) (i + 1) vs"

definition maxReplicas :: "int list \<Rightarrow> int \<times> nat" where
  "maxReplicas replicas = bestFrom (\<lambda>v m. v > m) (0, 0) 0 replicas"

definition minReplicasVal :: "int list \<Rightarrow> int \<times> nat" where
  "minReplicasVal replicas = (if replicas = [] then (0, 0) else bestFrom (\<lambda>v m. v < m) (hd replicas, 0) 0 replicas)"

definition analyzeTrend :: "int list \<Rightarrow> string" where
  "analyzeTrend replicas =
     (if length replicas < 2 then ''stable (insufficient data)''
      else let first = hd replicas; end = last replicas; mid = replicas ! (length replicas div 2)
           in if end > first \<and> mid \<ge> first
              then ''scaling up ('' @ itoa first @ arrow @ itoa end @ '' replicas over horizon)''
              else if end < first \<and> mid \<le> first
              then ''scaling down ('' @ itoa first @ arrow @ itoa end @ '' replicas over horizon)''
              else if mid > first \<and> end \<le> first
              then ''spike then scale down ('' @ itoa first @ arrow @ itoa mid @ arrow @ itoa end @ '' replicas)''
              else if mid < first \<and> end \<ge> first
              then ''dip then scale up ('' @ itoa first @ arrow @ itoa mid @ arrow @ itoa end @ '' replicas)''
              else ''stable around '' @ itoa first @ '' replicas'')"

definition decision_text :: "Snapshot \<Rightarrow> Duration \<Rightarrow> bool \<Rightarrow> int \<Rightarrow> int \<Rightarrow> Duration \<Rightarrow> int \<Rightarrow> string \<Rightarrow> string" where
  "decision_text snap age stale current peak peakTime least trend =
     ''Scaling decision for workload '' @ go_quote (Workload snap) @ nl @ rule_line @
     (if stale
      then ''WARNING: Forecast is stale ('' @ duration_String age @ '' old). The scaler may be using outdated data.'' @ nl @ nl
      else ''Forecast age: '' @ duration_String age @ '' (fresh)'' @ nl @ nl) @
     ''Current recommendation: '' @ itoa current @ '' replicas'' @ nl @
     ''Peak over horizon:      '' @ itoa peak @ '' replicas (at T+'' @ duration_String peakTime @ '')'' @ nl @
     ''Floor over horizon:     '' @ itoa least @ '' replicas'' @ nl @ nl @
     ''Trend: '' @ trend @ nl @ nl @
     ''Current '' @ Metric snap @ '': '' @ fmt_f2 (case Values snap of [] \<Rightarrow> 0 | v # _ \<Rightarrow> v) @ nl @
     ''Forecast horizon: '' @ itoa (HorizonSeconds snap sdiv 60) @ '' minutes ahead'' @ nl"

definition mcp_ExplainDecision ::
  "(string \<Rightarrow> (client_error, SnapshotResult) outcome) \<Rightarrow> Duration \<Rightarrow> Time \<Rightarrow> (string \<Rightarrow> string option) \<Rightarrow> tool_result" where
  "mcp_ExplainDecision getSnapshot staleAfter now args =
     (case args ''workload'' of
        None \<Rightarrow> ToolError (MissingParam ''workload'')
      | Some workload \<Rightarrow>
          (case getSnapshot workload of
             Err e \<Rightarrow> ToolError (ForecastFailed e)
           | Panic \<Rightarrow> ToolPanic
           | Ok res \<Rightarrow>
               (let snap = resSnapshot res; age = snapshotAge now snap; replicas = DesiredReplicas snap;
                    current = (case replicas of [] \<Rightarrow> 0 | r # _ \<Rightarrow> r);
                    (peak, peakStep) = maxReplicas replicas;
                    (least, _) = minReplicasVal replicas;
                    peakTime = wrap64 (wrap64 (int peakStep * StepSeconds snap) * Second)
                in ToolText (decision_text snap age (Stale res \<or> age > staleAfter) current peak peakTime least (analyzeTrend replicas)))))"

section \<open>Tools over the policies\<close>

text \<open>The reader: an empty namespace lists them all, which is also what the client's option does.\<close>

definition reader_List :: "'k KubeAPI \<Rightarrow> 'k \<Rightarrow> string \<Rightarrow> (api_error, ForecastPolicy list) outcome" where
  "reader_List api k namespace = kListPolicies api namespace k"

definition reader_Get :: "'k KubeAPI \<Rightarrow> 'k \<Rightarrow> string \<Rightarrow> string \<Rightarrow> (api_error, ForecastPolicy) outcome" where
  "reader_Get api k namespace name = kGetPolicy api (namespace, name) k"

text \<open>\<open>FindStatusCondition\<close> of the API machinery is the parameter \<open>findCondition\<close>.\<close>

definition readyState :: "(Condition list \<Rightarrow> string \<Rightarrow> Condition option) \<Rightarrow> ForecastPolicy \<Rightarrow> string \<times> string" where
  "readyState findCondition policy =
     (case findCondition (statusConditions (fpStatus policy)) ''Ready'' of
        None \<Rightarrow> (''Unknown'', ''no status reported yet'')
      | Some cond \<Rightarrow> (condStatus cond, condReason cond))"

definition policyModelType :: "ForecastPolicy \<Rightarrow> string" where
  "policyModelType policy =
     (if modelType (specModel (fpSpec policy)) = [] then ''baseline'' else modelType (specModel (fpSpec policy)))"

definition lastForecast :: "Time \<Rightarrow> ForecastPolicy \<Rightarrow> string" where
  "lastForecast now policy =
     (case statusLastForecastTime (fpStatus policy) of
        None \<Rightarrow> ''never''
      | Some t \<Rightarrow> format_rfc3339 t @ '' ('' @ duration_String (duration_Round (time_Sub now t) Second) @ '' ago)'')"

fun string_less :: "string \<Rightarrow> string \<Rightarrow> bool" where
  "string_less _ [] = False"
| "string_less [] (_ # _) = True"
| "string_less (a # s) (b # t) = (byte a < byte b \<or> a = b \<and> string_less s t)"

definition policy_less :: "ForecastPolicy \<Rightarrow> ForecastPolicy \<Rightarrow> bool" where
  "policy_less p q =
     (if fpNamespace p \<noteq> fpNamespace q then string_less (fpNamespace p) (fpNamespace q) else string_less (fpName p) (fpName q))"

text \<open>\<open>sort.Slice\<close>; the names of listed policies are distinct, so the order it gives is the only one.\<close>

fun insert_policy :: "ForecastPolicy \<Rightarrow> ForecastPolicy list \<Rightarrow> ForecastPolicy list" where
  "insert_policy p [] = [p]"
| "insert_policy p (q # qs) = (if policy_less q p then q # insert_policy p qs else p # q # qs)"

definition sort_policies :: "ForecastPolicy list \<Rightarrow> ForecastPolicy list" where
  "sort_policies ps = foldr insert_policy ps []"

definition policy_line :: "(Condition list \<Rightarrow> string \<Rightarrow> Condition option) \<Rightarrow> Time \<Rightarrow> ForecastPolicy \<Rightarrow> string" where
  "policy_line findCondition now policy =
     (case readyState findCondition policy of (ready, reason) \<Rightarrow>
        nl @ ''- '' @ fpNamespace policy @ ''/'' @ fpName policy @ nl @
        ''    target:   '' @ targetName (specScaleTargetRef (fpSpec policy)) @ nl @
        ''    model:    '' @ policyModelType policy @ nl @
        ''    ready:    '' @ ready @ '' ('' @ reason @ '')'' @ nl @
        ''    replicas: current '' @ itoa (statusCurrentReplicas (fpStatus policy)) @ '', desired '' @
          itoa (statusDesiredReplicas (fpStatus policy)) @ nl @
        ''    forecast: '' @ lastForecast now policy @ nl)"

definition mcp_ListForecastPolicies ::
  "(Condition list \<Rightarrow> string \<Rightarrow> Condition option) \<Rightarrow> (string \<Rightarrow> (api_error, ForecastPolicy list) outcome) \<Rightarrow> Time \<Rightarrow>
   (string \<Rightarrow> string option) \<Rightarrow> tool_result" where
  "mcp_ListForecastPolicies findCondition listing now args =
     (case listing (case args ''namespace'' of None \<Rightarrow> [] | Some ns \<Rightarrow> ns) of
        Err e \<Rightarrow> ToolError (PoliciesFailed e)
      | Panic \<Rightarrow> ToolPanic
      | Ok policies \<Rightarrow>
          if policies = [] then ToolText ''No ForecastPolicy resources found.''
          else ToolText (''ForecastPolicies ('' @ itoa (int (length policies)) @ ''):'' @ nl @
                 concat (map (policy_line findCondition now) (sort_policies policies))))"

definition policy_text :: "(Condition list \<Rightarrow> string \<Rightarrow> Condition option) \<Rightarrow> Time \<Rightarrow> ForecastPolicy \<Rightarrow> string" where
  "policy_text findCondition now policy =
     (let spec = fpSpec policy; st = fpStatus policy; (ready, reason) = readyState findCondition policy
      in ''ForecastPolicy '' @ fpNamespace policy @ ''/'' @ fpName policy @ nl @ rule_line @
         ''Spec:'' @ nl @
         ''  scaleTarget:  '' @ targetKind (specScaleTargetRef spec) @ ''/'' @ targetName (specScaleTargetRef spec) @ nl @
         ''  metric:       '' @ specMetric spec @ nl @
         ''  dataSource:   '' @ specDataSourceRef spec @ nl @
         ''  model:        '' @ policyModelType policy @ nl @
         ''  replicas:     min '' @ itoa (capMinReplicas (specCapacity spec)) @ '', max '' @ itoa (capMaxReplicas (specCapacity spec)) @ nl @
         ''  targetPerPod: '' @ fmt_f2 (capTargetPerPod (specCapacity spec)) @ nl @ nl @
         ''Status:'' @ nl @
         ''  ready:           '' @ ready @ '' ('' @ reason @ '')'' @ nl @
         ''  currentReplicas: '' @ itoa (statusCurrentReplicas st) @ nl @
         ''  desiredReplicas: '' @ itoa (statusDesiredReplicas st) @ nl @
         ''  lastForecast:    '' @ lastForecast now policy @ nl @
         (if statusScaledObjectName st \<noteq> [] then ''  scaledObject:    '' @ statusScaledObjectName st @ nl else []) @
         (if statusConditions st \<noteq> []
          then nl @ ''Conditions:'' @ nl @
               concat (map (\<lambda>c. ''  - '' @ condType c @ ''='' @ condStatus c @ '': '' @ condReason c @ '' '' @
                 [CHR 0xE2, CHR 0x80, CHR 0x94] @ '' '' @ condMessage c @ nl) (statusConditions st))
          else []))"

definition mcp_GetForecastPolicy ::
  "(Condition list \<Rightarrow> string \<Rightarrow> Condition option) \<Rightarrow> (string \<Rightarrow> string \<Rightarrow> (api_error, ForecastPolicy) outcome) \<Rightarrow> Time \<Rightarrow>
   (string \<Rightarrow> string option) \<Rightarrow> tool_result" where
  "mcp_GetForecastPolicy findCondition get now args =
     (case args ''name'' of
        None \<Rightarrow> ToolError (MissingParam ''name'')
      | Some name \<Rightarrow>
          (let namespace = (case args ''namespace'' of None \<Rightarrow> ''default'' | Some ns \<Rightarrow> ns)
           in case get namespace name of
                Err e \<Rightarrow> ToolError (PolicyFailed namespace name e)
              | Panic \<Rightarrow> ToolPanic
              | Ok policy \<Rightarrow> ToolText (policy_text findCondition now policy)))"

text \<open>\<open>buildMCPServer\<close>: the tools it registers, the last two only with access to a cluster.\<close>

definition buildMCPServer ::
  "(client_error, string list) outcome \<Rightarrow> (string \<Rightarrow> (client_error, SnapshotResult) outcome) \<Rightarrow>
   (Condition list \<Rightarrow> string \<Rightarrow> Condition option) \<Rightarrow> ('k KubeAPI \<times> 'k) option \<Rightarrow> Duration \<Rightarrow> Time \<Rightarrow>
   (string \<times> ((string \<Rightarrow> string option) \<Rightarrow> tool_result)) list" where
  "buildMCPServer listing getSnapshot findCondition reader staleAfter now =
     [(''list_workloads'', \<lambda>_. mcp_ListWorkloads listing), (''get_forecast'', mcp_GetForecast getSnapshot staleAfter now),
      (''explain_decision'', mcp_ExplainDecision getSnapshot staleAfter now)] @
     (case reader of
        None \<Rightarrow> []
      | Some (api, k) \<Rightarrow>
          [(''list_forecast_policies'', mcp_ListForecastPolicies findCondition (reader_List api k) now),
           (''get_forecast_policy'', mcp_GetForecastPolicy findCondition (reader_Get api k) now)])"

section \<open>What the explanation says\<close>

text \<open>The loops find the first best element; \<open>g\<close> is the identity for the maximum and the negation for the minimum.\<close>

lemma bestFrom_first:
  fixes g :: "int \<Rightarrow> int"
  shows "bestFrom (\<lambda>v m. g v > g m) b i vs = b \<and> (\<forall>v\<in>set vs. g v \<le> g (fst b)) \<or>
    (\<exists>j<length vs. bestFrom (\<lambda>v m. g v > g m) b i vs = (vs ! j, i + j) \<and> g (fst b) < g (vs ! j) \<and>
       (\<forall>v\<in>set vs. g v \<le> g (vs ! j)) \<and> (\<forall>l<j. g (vs ! l) < g (vs ! j)))"
proof (induction vs arbitrary: b i)
  case (Cons v vs)
  let ?b = "if g v > g (fst b) then (v, i) else b"
  from Cons.IH[of ?b "i + 1"] show ?case
  proof (elim disjE exE conjE)
    assume r: "bestFrom (\<lambda>v m. g v > g m) ?b (i + 1) vs = ?b" "\<forall>v\<in>set vs. g v \<le> g (fst ?b)"
    show ?thesis
    proof (cases "g v > g (fst b)")
      case True
      then show ?thesis using r by (intro disjI2 exI[of _ 0]) auto
    next
      case False
      then show ?thesis using r by auto
    qed
  next
    fix j
    assume r: "j < length vs" "bestFrom (\<lambda>v m. g v > g m) ?b (i + 1) vs = (vs ! j, i + 1 + j)" "g (fst ?b) < g (vs ! j)"
      "\<forall>v\<in>set vs. g v \<le> g (vs ! j)" "\<forall>l<j. g (vs ! l) < g (vs ! j)"
    have "g v < g (vs ! j)" "g (fst b) < g (vs ! j)" using r(3) by (auto split: if_splits)
    then show ?thesis using r by (intro disjI2 exI[of _ "Suc j"]) (auto simp: nth_Cons split: nat.splits)
  qed
qed simp

lemma first_index:
  assumes "j < length ds" "ds ! j = (m :: int)" "\<forall>l<j. ds ! l \<noteq> m"
  shows "(LEAST j. j < length ds \<and> ds ! j = m) = j"
  using assms by (intro Least_equality) (auto simp: not_less[symmetric])

lemma maxReplicas_Max:
  assumes "ds \<noteq> []" "\<forall>d\<in>set ds. 0 \<le> d"
  shows "maxReplicas ds = (Max (set ds), LEAST j. j < length ds \<and> ds ! j = Max (set ds))"
  using bestFrom_first[of "\<lambda>v. v" "(0, 0)" 0 ds]
proof (elim disjE exE conjE)
  assume r: "bestFrom (\<lambda>v m. v > m) (0, 0) 0 ds = (0, 0)" "\<forall>v\<in>set ds. v \<le> fst (0, 0)"
  then have z: "\<forall>v\<in>set ds. v = 0" using assms(2) by force
  then have m: "Max (set ds) = 0" using assms(1) by (intro Max_eqI) (auto simp: neq_Nil_conv)
  have "ds ! 0 = 0" using z assms(1) by simp
  then show ?thesis using r(1) m first_index[of 0 ds 0] assms(1) by (simp add: maxReplicas_def)
next
  fix j
  assume r: "j < length ds" "bestFrom (\<lambda>v m. v > m) (0, 0) 0 ds = (ds ! j, 0 + j)" "\<forall>v\<in>set ds. v \<le> ds ! j" "\<forall>l<j. ds ! l < ds ! j"
  have m: "Max (set ds) = ds ! j" using r(1,3) by (intro Max_eqI) auto
  have "\<forall>l<j. ds ! l \<noteq> ds ! j" using r(4) by fastforce
  from first_index[OF r(1) refl this] show ?thesis using r(2) unfolding maxReplicas_def m by simp
qed

lemma minReplicasVal_Min:
  assumes "ds \<noteq> []"
  shows "fst (minReplicasVal ds) = Min (set ds)"
proof -
  have "(\<lambda>v m. - v > - m) = (\<lambda>v m. v < (m :: int))" by (intro ext) auto
  with bestFrom_first[of uminus "(hd ds, 0)" 0 ds] have "fst (bestFrom (\<lambda>v m. v < m) (hd ds, 0) 0 ds) \<in> set ds \<and>
      (\<forall>v\<in>set ds. fst (bestFrom (\<lambda>v m. v < m) (hd ds, 0) 0 ds) \<le> v)"
    using assms by auto
  then show ?thesis using assms by (simp add: minReplicasVal_def) (metis List.finite_set Min_eqI)
qed

lemma analyzeTrend_stable:
  "take 13 (analyzeTrend ds) = ''stable around'' \<longleftrightarrow> 2 \<le> length ds \<and> ds ! (length ds div 2) = hd ds \<and> last ds = hd ds"
  by (auto simp: analyzeTrend_def Let_def)

text \<open>
  C24: the explanation of a decision says what the plan says. For a snapshot with a plan of counts that
  are not negative, the text gives the first count, the greatest count with the first step at which it
  is planned, and the least count. Its trend, though, looks at three steps only: it says \<open>stable\<close>
  exactly when the middle and the last count equal the first, whatever is planned in between.
\<close>

theorem mcp_explains_plan:
  assumes "args ''workload'' = Some workload" "getSnapshot workload = Ok res" "snap = resSnapshot res" "ds = DesiredReplicas snap"
    "ds \<noteq> []" "\<forall>d\<in>set ds. 0 \<le> d"
  shows "mcp_ExplainDecision getSnapshot staleAfter now args =
      ToolText (decision_text snap (snapshotAge now snap) (Stale res \<or> snapshotAge now snap > staleAfter) (hd ds) (Max (set ds))
        (wrap64 (wrap64 (int (LEAST j. j < length ds \<and> ds ! j = Max (set ds)) * StepSeconds snap) * Second)) (Min (set ds))
        (analyzeTrend ds)) \<and>
    (take 13 (analyzeTrend ds) = ''stable around'' \<longleftrightarrow> 2 \<le> length ds \<and> ds ! (length ds div 2) = hd ds \<and> last ds = hd ds)"
proof -
  have c: "(case ds of [] \<Rightarrow> 0 | r # _ \<Rightarrow> r) = hd ds" using assms(5) by (cases ds) auto
  obtain k where k: "minReplicasVal ds = (Min (set ds), k)" using minReplicasVal_Min[OF assms(5)] by (metis prod.collapse)
  have "mcp_ExplainDecision getSnapshot staleAfter now args =
      ToolText (decision_text snap (snapshotAge now snap) (Stale res \<or> snapshotAge now snap > staleAfter) (hd ds) (Max (set ds))
        (wrap64 (wrap64 (int (LEAST j. j < length ds \<and> ds ! j = Max (set ds)) * StepSeconds snap) * Second)) (Min (set ds))
        (analyzeTrend ds))"
    unfolding mcp_ExplainDecision_def assms(1) option.case assms(2) outcome.case Let_def assms(3)[symmetric] assms(4)[symmetric]
      c maxReplicas_Max[OF assms(5,6)] k prod.case by (rule refl)
  then show ?thesis using analyzeTrend_stable by blast
qed

theorem mcp_explains_plan_witness:
  "\<exists>text. mcp_ExplainDecision (\<lambda>_. Ok \<lparr>resSnapshot = loop_snapshot\<lparr>DesiredReplicas := [2, 9, 2, 9, 2]\<rparr>, Stale = False\<rparr>) Minute sample_time
     (\<lambda>_. Some ''web'') = ToolText text \<and> take 13 (analyzeTrend [2, 9, 2, 9, 2]) = ''stable around''"
proof -
  let ?res = "\<lparr>resSnapshot = loop_snapshot\<lparr>DesiredReplicas := [2, 9, 2, 9, 2]\<rparr>, Stale = False\<rparr>"
  have d: "[2, 9, 2, 9, 2] = DesiredReplicas (resSnapshot ?res)" "[2, 9, 2, 9, 2] \<noteq> ([] :: int list)" "\<forall>d\<in>set [2, 9, 2, 9, 2 :: int]. 0 \<le> d"
    by simp_all
  note c = mcp_explains_plan[of "\<lambda>_. Some ''web''" "''web''" "\<lambda>_. Ok ?res" _ _ _ Minute sample_time, OF refl refl refl d]
  have "take 13 (analyzeTrend [2, 9, 2, 9, 2]) = ''stable around''" using conjunct2[OF c] by simp
  then show ?thesis using c by blast
qed

text \<open>Listing the policies only orders them.\<close>

lemma mset_sort_policies: "mset (sort_policies ps) = mset ps"
proof -
  have "mset (insert_policy p qs) = add_mset p (mset qs)" for p qs by (induction qs) auto
  then show ?thesis by (induction ps) (simp_all add: sort_policies_def)
qed

end
