(* ===== verification/Backtest.thy ===== *)
theory Backtest
  imports Forecaster
begin

text \<open>
  The offline evaluation of \<open>src/pkg/backtest\<close> (\<open>series.go\<close>, \<open>metrics.go\<close>, \<open>backtest.go\<close>) and the model
  factory of its command, \<open>src/cmd/backtest/main.go\<close>: reading a series from CSV, the walk-forward
  loop over it, and the report. The models, the feature builder and the planner are those of the
  forecast loop.
\<close>

section \<open>The CSV reader\<close>

text \<open>
  \<open>encoding/csv\<close> as \<open>LoadCSV\<close> configures it: commas, quotes, records of any number of fields, blank
  lines skipped, an error for a bare or an unterminated quote. \<open>csv_newlines\<close> is the reader's treatment
  of carriage returns.
\<close>

fun csv_newlines :: "string \<Rightarrow> string" where
  "csv_newlines [] = []"
| "csv_newlines [c] = (if c = CHR 0x0D then [] else [c])"
| "csv_newlines (c # d # s) = (if c = CHR 0x0D \<and> d = CHR 0x0A then d # csv_newlines s else c # csv_newlines (d # s))"

datatype csv_state = RecordStart | FieldStart | Plain | Quoted | QuoteSeen

definition csv_end :: "string \<Rightarrow> string list \<Rightarrow> string list" where
  "csv_end field fs = rev (rev field # fs)"

fun csv_scan :: "csv_state \<Rightarrow> string \<Rightarrow> string list \<Rightarrow> string list list \<Rightarrow> string \<Rightarrow> string list list option" where
  "csv_scan st field fs recs [] =
     (if st = RecordStart then Some (rev recs)
      else if st = Quoted then None
      else Some (rev (csv_end field fs # recs)))"
| "csv_scan st field fs recs (c # s) =
     (if st = Quoted
      then (if c = CHR 0x22 then csv_scan QuoteSeen field fs recs s else csv_scan Quoted (c # field) fs recs s)
      else if c = CHR 0x0A
      then (if st = RecordStart then csv_scan RecordStart [] [] recs s
            else csv_scan RecordStart [] [] (csv_end field fs # recs) s)
      else if c = CHR '','' then csv_scan FieldStart [] (rev field # fs) recs s
      else if c = CHR 0x22
      then (if st = Plain then None
            else if st = QuoteSeen then csv_scan Quoted (c # field) fs recs s
            else csv_scan Quoted [] fs recs s)
      else if st = QuoteSeen then None
      else csv_scan Plain (c # field) fs recs s)"

definition csv_ReadAll :: "string \<Rightarrow> string list list option" where
  "csv_ReadAll s = csv_scan RecordStart [] [] [] (csv_newlines s)"

section \<open>Series\<close>

record Series =
  sTimes :: "Time list"
  sValues :: "float64 list"

definition series_Len :: "Series \<Rightarrow> int" where
  "series_Len s = int (length (sValues s))"

datatype csv_error = ReadCSV | EmptyCSV | RowColumns nat nat | RowTime nat | RowValue nat | NoDataRows | OpenInput

definition parseTime :: "string \<Rightarrow> Time option" where
  "parseTime s =
     (case parse_rfc3339 s of
        Some t \<Rightarrow> Some t
      | None \<Rightarrow> (case parseInt64 s of Ok unix \<Rightarrow> Some (unix_utc unix 0) | _ \<Rightarrow> None))"

text \<open>The rows from number \<open>i\<close> on.\<close>

fun loadRows :: "nat \<Rightarrow> string list list \<Rightarrow> Series \<Rightarrow> (csv_error, Series) outcome" where
  "loadRows i [] s = Ok s"
| "loadRows i (record # recs) s =
     (if length record < 2 then Err (RowColumns (i + 1) (length record))
      else case parseTime (record ! 0) of
        None \<Rightarrow> Err (RowTime (i + 1))
      | Some ts \<Rightarrow>
          (case parseFloat (record ! 1) of
             Ok v \<Rightarrow> loadRows (i + 1) recs (s\<lparr>sTimes := sTimes s @ [ts], sValues := sValues s @ [v]\<rparr>)
           | _ \<Rightarrow> Err (RowValue (i + 1))))"

definition isHeader :: "string list \<Rightarrow> bool" where
  "isHeader record \<longleftrightarrow> 2 \<le> length record \<and> (case parseFloat (record ! 1) of Ok _ \<Rightarrow> False | _ \<Rightarrow> True)"

definition LoadCSV :: "string \<Rightarrow> (csv_error, Series) outcome" where
  "LoadCSV input =
     (case csv_ReadAll input of
        None \<Rightarrow> Err ReadCSV
      | Some [] \<Rightarrow> Err EmptyCSV
      | Some (first # recs) \<Rightarrow>
          bind_outcome (if isHeader first then loadRows 1 recs \<lparr>sTimes = [], sValues = []\<rparr>
                        else loadRows 0 (first # recs) \<lparr>sTimes = [], sValues = []\<rparr>)
            (\<lambda>s. if series_Len s = 0 then Err NoDataRows else Ok s))"

text \<open>\<open>loadSeries\<close>: the file system and the standard input are parameters.\<close>

definition loadSeries :: "(string \<Rightarrow> string option) \<Rightarrow> string \<Rightarrow> string \<Rightarrow> (csv_error, Series) outcome" where
  "loadSeries open_file stdin path =
     (if path = [] then LoadCSV stdin
      else case open_file path of None \<Rightarrow> Err OpenInput | Some text \<Rightarrow> LoadCSV text)"

section \<open>Metrics\<close>

text \<open>The functions index the second slice by the positions of the first.\<close>

definition paired :: "'a list \<Rightarrow> 'b list \<Rightarrow> (unit, ('a \<times> 'b) list) outcome" where
  "paired xs ys = (if length ys < length xs then Panic else Ok (zip xs ys))"

definition MAE :: "float64 list \<Rightarrow> float64 list \<Rightarrow> (unit, float64) outcome" where
  "MAE predicted actual =
     (if predicted = [] then Ok 0
      else bind_outcome (paired predicted actual) (\<lambda>ps.
        Ok (foldl (\<lambda>sum (p, a). sum + fabs (p - a)) 0 ps / i2f (int (length predicted)))))"

definition RMSE :: "float64 list \<Rightarrow> float64 list \<Rightarrow> (unit, float64) outcome" where
  "RMSE predicted actual =
     (if predicted = [] then Ok 0
      else bind_outcome (paired predicted actual) (\<lambda>ps.
        Ok (fsqrt (foldl (\<lambda>sum (p, a). sum + (p - a) * (p - a)) 0 ps / i2f (int (length predicted))))))"

definition MAPE :: "float64 list \<Rightarrow> float64 list \<Rightarrow> (unit, float64) outcome" where
  "MAPE predicted actual =
     bind_outcome (paired predicted actual) (\<lambda>ps.
       let used = filter (\<lambda>(p, a). \<not> feq a 0) ps;
           sum = foldl (\<lambda>sum (p, a). sum + fabs ((p - a) / a)) 0 used;
           count = int (length used)
       in Ok (if count = 0 then 0 else sum / i2f count * flit 100))"

definition UnderProvisionedRate :: "int list \<Rightarrow> int list \<Rightarrow> (unit, float64) outcome" where
  "UnderProvisionedRate planned needed =
     (if planned = [] then Ok 0
      else bind_outcome (paired planned needed) (\<lambda>ps.
        Ok (i2f (int (length (filter (\<lambda>(p, n). p < n) ps))) / i2f (int (length planned)))))"

definition MeanOverProvision :: "int list \<Rightarrow> int list \<Rightarrow> (unit, float64) outcome" where
  "MeanOverProvision planned needed =
     bind_outcome (paired planned needed) (\<lambda>ps.
       let used = filter (\<lambda>(p, n). \<not> n \<le> 0) ps;
           sum = foldl (\<lambda>sum (p, n). let over = i2f (wrap64 (p - n)) / i2f n in if over > 0 then sum + over else sum) 0 used;
           count = int (length used)
       in Ok (if count = 0 then 0 else sum / i2f count))"

section \<open>The walk-forward loop\<close>

record BacktestConfig =
  btWindow :: Duration
  btHorizon :: Duration
  btStep :: Duration
  btStride :: Duration
  btNewModel :: "(unit, Model) outcome option"
  btPolicy :: Policy

record Report =
  rModel :: string
  rWindows :: int
  rSkipped :: int
  rPoints :: int
  rMAE :: float64
  rRMSE :: float64
  rMAPE :: float64
  rUnderProvisionedRate :: float64
  rMeanOverProvision :: float64

datatype bt_error = NoModel | StepNotPos | HorizonBelowStep | WindowBelowStep | SeriesTooShort int int | NoWindows int

text \<open>The variables of \<open>Run\<close> that the loop changes.\<close>

record bt_acc =
  accPredicted :: "float64 list"
  accActual :: "float64 list"
  accPlanned :: "int list"
  accNeeded :: "int list"
  accPrev :: int
  accWindows :: int
  accSkipped :: int

fun model_Name :: "Model \<Rightarrow> string" where
  "model_Name (MBaseline m) = ''baseline''"
| "model_Name (MARIMA m) = arima_Name m"
| "model_Name (MSARIMA m) = sarima_Name m"
| "model_Name (MBYOM m) = byom_Name m"

definition neededReplicas :: "(float64 \<Rightarrow> int) \<Rightarrow> float64 \<Rightarrow> Policy \<Rightarrow> int" where
  "neededReplicas cv v p =
     (let required = (if TargetPerPod p > 0 then f2i cv (fceil (v / TargetPerPod p)) else 0)
      in if required < MinReplicas p then MinReplicas p else required)"

text \<open>Rows \<open>from\<close> to \<open>to\<close>, exclusive; an index outside the series panics, as does a negative capacity.\<close>

definition historyDataFrame :: "Series \<Rightarrow> int \<Rightarrow> int \<Rightarrow> (unit, DataFrame) outcome" where
  "historyDataFrame s from to =
     (if wrap64 (to - from) < 0 then Panic
      else if to \<le> from then Ok []
      else if from < 0 \<or> to > int (length (sTimes s)) \<or> to > int (length (sValues s)) then Panic
      else Ok (map (\<lambda>i. [(''ts'', ATime (sTimes s ! i)), (''value'', AFloat (sValues s ! i))]) [nat from ..< nat to]))"

text \<open>The model of a window after training, whose error is dropped, and its forecast.\<close>

definition windowForecast :: "TickEnv \<Rightarrow> (unit, Model) outcome \<Rightarrow> FeatureFrame \<Rightarrow> (model_error, Forecast) outcome" where
  "windowForecast e newModel frame =
     (case newModel of
        Ok model \<Rightarrow>
          (case model_Train e frame model of
             Ok m \<Rightarrow> model_Predict e m frame
           | Err _ \<Rightarrow> model_Predict e model frame
           | Panic \<Rightarrow> Panic)
      | _ \<Rightarrow> Panic)"

definition bt_skip :: "bt_acc \<Rightarrow> bt_acc" where
  "bt_skip acc = acc\<lparr>accSkipped := accSkipped acc + 1\<rparr>"

definition bt_record :: "(float64 \<Rightarrow> int) \<Rightarrow> Policy \<Rightarrow> Forecast \<Rightarrow> float64 list \<Rightarrow> int list \<Rightarrow> bt_acc \<Rightarrow> bt_acc" where
  "bt_record cv p f future replicas acc =
     (let count = min (length (fValues f)) (length future); planned = take count replicas
      in acc\<lparr>accPredicted := accPredicted acc @ take count (fValues f),
             accActual := accActual acc @ take count future,
             accPlanned := accPlanned acc @ planned,
             accNeeded := accNeeded acc @ map (\<lambda>v. neededReplicas cv v p) (take (length planned) future),
             accPrev := (if replicas \<noteq> [] then hd replicas else accPrev acc),
             accWindows := accWindows acc + 1\<rparr>)"

text \<open>The body of the loop at position \<open>i\<close>.\<close>

definition bt_window ::
  "(int \<Rightarrow> TickEnv) \<Rightarrow> Series \<Rightarrow> int \<Rightarrow> int \<Rightarrow> int \<Rightarrow> (unit, Model) outcome \<Rightarrow> Policy \<Rightarrow> int \<Rightarrow> bt_acc \<Rightarrow> (unit, bt_acc) outcome" where
  "bt_window env s windowSteps horizonSteps stepSec newModel p i acc =
     (case historyDataFrame s (wrap64 (i - windowSteps)) i of
        Ok df \<Rightarrow>
          (case BuildFeatures (tLoc (env i)) (tCv (env i)) df of
             Ok frame \<Rightarrow>
               (case windowForecast (env i) newModel frame of
                  Ok f \<Rightarrow>
                    (if fValues f = [] then Ok (bt_skip acc)
                     else if i < 0 \<or> wrap64 (i + horizonSteps) < i \<or> wrap64 (i + horizonSteps) > series_Len s then Panic
                     else let future = take (nat horizonSteps) (drop (nat i) (sValues s));
                              replicas = ToReplicas (tCv (env i)) (accPrev acc) (fValues f) stepSec p (fQuantiles f)
                          in Ok (bt_record (tCv (env i)) p f future replicas acc))
                | Err _ \<Rightarrow> Ok (bt_skip acc)
                | Panic \<Rightarrow> Panic)
           | Err _ \<Rightarrow> Ok (bt_skip acc)
           | Panic \<Rightarrow> Panic)
      | _ \<Rightarrow> Panic)"

text \<open>The loop, with machine arithmetic on the index: \<open>None\<close> is not returning.\<close>

partial_function (option) bt_loop ::
  "(int \<Rightarrow> bt_acc \<Rightarrow> (unit, bt_acc) outcome) \<Rightarrow> int \<Rightarrow> int \<Rightarrow> int \<Rightarrow> int \<Rightarrow> bt_acc \<Rightarrow> (unit, bt_acc) outcome option" where
  [code]: "bt_loop body horizonSteps strideSteps len i acc =
     (if wrap64 (i + horizonSteps) \<le> len
      then (case body i acc of
              Ok acc \<Rightarrow> bt_loop body horizonSteps strideSteps len (wrap64 (i + strideSteps)) acc
            | r \<Rightarrow> Some r)
      else Some (Ok acc))"

definition bt_start :: "Policy \<Rightarrow> bt_acc" where
  "bt_start p =
     \<lparr>accPredicted = [], accActual = [], accPlanned = [], accNeeded = [], accPrev = MinReplicas p, accWindows = 0, accSkipped = 0\<rparr>"

definition bt_report :: "string \<Rightarrow> bt_acc \<Rightarrow> (bt_error, Report) outcome" where
  "bt_report name acc =
     (if accWindows acc = 0 then Err (NoWindows (accSkipped acc))
      else case (MAE (accPredicted acc) (accActual acc), RMSE (accPredicted acc) (accActual acc),
                 MAPE (accPredicted acc) (accActual acc), UnderProvisionedRate (accPlanned acc) (accNeeded acc),
                 MeanOverProvision (accPlanned acc) (accNeeded acc)) of
        (Ok a, Ok b, Ok c, Ok d, Ok e) \<Rightarrow>
          Ok \<lparr>rModel = name, rWindows = accWindows acc, rSkipped = accSkipped acc,
              rPoints = int (length (accPredicted acc)), rMAE = a, rRMSE = b, rMAPE = c,
              rUnderProvisionedRate = d, rMeanOverProvision = e\<rparr>
      | _ \<Rightarrow> Panic)"

definition strideSteps :: "BacktestConfig \<Rightarrow> int" where
  "strideSteps conf = (let n = btStride conf sdiv btStep conf in if n < 1 then 1 else n)"

definition bt_Run :: "(int \<Rightarrow> TickEnv) \<Rightarrow> Series \<Rightarrow> BacktestConfig \<Rightarrow> (bt_error, Report) outcome option" where
  "bt_Run env s conf =
     (case btNewModel conf of
        None \<Rightarrow> Some (Err NoModel)
      | Some newModel \<Rightarrow>
          if btStep conf \<le> 0 then Some (Err StepNotPos)
          else if btHorizon conf < btStep conf then Some (Err HorizonBelowStep)
          else if btWindow conf < btStep conf then Some (Err WindowBelowStep)
          else let stepSec = intSeconds (tCv (env 0)) (btStep conf);
                   windowSteps = btWindow conf sdiv btStep conf;
                   horizonSteps = btHorizon conf sdiv btStep conf
               in if series_Len s < wrap64 (windowSteps + horizonSteps)
                  then Some (Err (SeriesTooShort (wrap64 (windowSteps + horizonSteps)) (series_Len s)))
                  else case newModel of
                    Ok m \<Rightarrow>
                      map_option (\<lambda>r. case r of Ok acc \<Rightarrow> bt_report (model_Name m) acc | _ \<Rightarrow> Panic)
                        (bt_loop (bt_window env s windowSteps horizonSteps stepSec newModel (btPolicy conf))
                           horizonSteps (strideSteps conf) (series_Len s) windowSteps (bt_start (btPolicy conf)))
                  | _ \<Rightarrow> Some Panic)"

section \<open>The command's models\<close>

record modelParams =
  pArimaP :: int
  pArimaD :: int
  pArimaQ :: int
  pSarimaP :: int
  pSarimaD :: int
  pSarimaQ :: int
  pSarimaSP :: int
  pSarimaSD :: int
  pSarimaSQ :: int
  pSarimaS :: int
  pByomURL :: string

definition built :: "('a \<Rightarrow> Model) \<Rightarrow> ('e, 'a) outcome \<Rightarrow> (unit, Model) outcome" where
  "built f r = (case r of Ok m \<Rightarrow> Ok (f m) | _ \<Rightarrow> Panic)"

definition modelFactory :: "string \<Rightarrow> string \<Rightarrow> int \<Rightarrow> int \<Rightarrow> modelParams \<Rightarrow> (string, (unit, Model) outcome) outcome" where
  "modelFactory name metric stepSec horizonSec p =
     (if name = ''baseline'' then Ok (Ok (MBaseline (NewBaselineModel metric stepSec horizonSec)))
      else if name = ''arima''
      then Ok (built MARIMA (NewARIMAModel metric stepSec horizonSec (pArimaP p) (pArimaD p) (pArimaQ p)))
      else if name = ''sarima''
      then Ok (built MSARIMA (NewSARIMAModel metric stepSec horizonSec (pSarimaP p) (pSarimaD p) (pSarimaQ p)
                                (pSarimaSP p) (pSarimaSD p) (pSarimaSQ p) (pSarimaS p)))
      else if name = ''byom'' then Ok (Ok (MBYOM (NewBYOMModel (pByomURL p) metric stepSec horizonSec)))
      else Err name)"

section \<open>The loop visits the windows in order\<close>

fun bt_windows :: "(int \<Rightarrow> bt_acc \<Rightarrow> (unit, bt_acc) outcome) \<Rightarrow> int list \<Rightarrow> bt_acc \<Rightarrow> (unit, bt_acc) outcome" where
  "bt_windows body [] acc = Ok acc"
| "bt_windows body (i # is) acc = bind_outcome (body i acc) (bt_windows body is)"

definition bt_count :: "int \<Rightarrow> int \<Rightarrow> int \<Rightarrow> int \<Rightarrow> nat" where
  "bt_count h st len i = (if i + h \<le> len then Suc (nat ((len - h - i) div st)) else 0)"

lemma bt_count_step:
  assumes "0 < st" "i + h \<le> len"
  shows "bt_count h st len i = Suc (bt_count h st len (i + st))"
proof (cases "i + st + h \<le> len")
  case True
  have "(len - h - i) div st = (len - h - (i + st)) div st + 1"
    using assms(1) div_add_self2[of st "len - h - (i + st)"] by (simp add: algebra_simps)
  moreover have "0 \<le> (len - h - (i + st)) div st" using True assms(1) by (intro pos_imp_zdiv_nonneg_iff[THEN iffD2]) auto
  ultimately show ?thesis using assms True by (simp add: bt_count_def nat_add_distrib)
next
  case False
  then have "(len - h - i) div st = 0" using assms by (intro div_pos_pos_trivial) auto
  then show ?thesis using assms False by (simp add: bt_count_def)
qed

definition bt_positions :: "int \<Rightarrow> int \<Rightarrow> int \<Rightarrow> int \<Rightarrow> int list" where
  "bt_positions h st len i = map (\<lambda>k. i + int k * st) [0 ..< bt_count h st len i]"

lemma bt_positions_step:
  assumes "0 < st" "i + h \<le> len"
  shows "bt_positions h st len i = i # bt_positions h st len (i + st)"
  unfolding bt_positions_def bt_count_step[OF assms]
  by (simp add: upt_conv_Cons map_Suc_upt[symmetric] algebra_simps del: upt_Suc)

lemma bt_positions_stop: "\<not> i + h \<le> len \<Longrightarrow> bt_positions h st len i = []"
  by (simp add: bt_positions_def bt_count_def)

lemma bt_positions_range:
  assumes "0 < st" "0 \<le> i" "j \<in> set (bt_positions h st len i)"
  shows "i \<le> j" "j + h \<le> len"
proof -
  have "\<exists>k. k < bt_count h st len i \<and> j = i + int k * st"
    using assms(3) by (simp add: bt_positions_def image_iff Bex_def)
  then obtain k where k: "j = i + int k * st" "k < bt_count h st len i" by blast
  then have "i + h \<le> len" by (simp add: bt_count_def split: if_splits)
  moreover from this have "0 \<le> (len - h - i) div st" using assms(1) by (intro pos_imp_zdiv_nonneg_iff[THEN iffD2]) auto
  ultimately have le: "i + h \<le> len" "int k \<le> (len - h - i) div st" using k(2) by (auto simp: bt_count_def)
  then have "int k * st \<le> (len - h - i) div st * st" using assms(1) by (intro mult_right_mono) auto
  also have "\<dots> \<le> len - h - i" using assms(1) by (metis minus_mod_eq_div_mult diff_le_eq le_add_same_cancel1 pos_mod_sign)
  finally show "i \<le> j" "j + h \<le> len" using k(1) assms(1) by auto
qed

text \<open>Without overflow the loop returns, and is the fold of its body over these positions.\<close>

lemma bt_loop_windows:
  assumes "0 < st" "0 \<le> h" "0 \<le> len" "len + h + st \<le> 2 ^ 62" "0 \<le> i" "i \<le> len + st"
  shows "bt_loop body h st len i acc = Some (bt_windows body (bt_positions h st len i) acc)"
  using assms(5,6)
proof (induction "nat (len + st - i)" arbitrary: i acc rule: less_induct)
  case less
  have w: "wrap64 (i + h) = i + h" using less.prems assms by (intro wrap64_id int64I) auto
  show ?case
  proof (cases "i + h \<le> len")
    case True
    have v: "wrap64 (i + st) = i + st" using True less.prems assms by (intro wrap64_id int64I) auto
    have IH: "bt_loop body h st len (i + st) acc = Some (bt_windows body (bt_positions h st len (i + st)) acc)" for acc
      using True less.prems assms by (intro less.hyps) auto
    show ?thesis unfolding bt_positions_step[OF assms(1) True]
      by (subst bt_loop.simps) (cases "body i acc"; simp add: w v True IH)
  next
    case False
    then show ?thesis by (subst bt_loop.simps) (simp add: w bt_positions_stop)
  qed
qed

section \<open>One window\<close>

lemma historyDataFrame_ok:
  assumes "length (sTimes s) = length (sValues s)" "0 < w" "w \<le> i" "i \<le> series_Len s" "series_Len s \<le> 2 ^ 62"
  shows "historyDataFrame s (wrap64 (i - w)) i =
     Ok (map (\<lambda>k. [(''ts'', ATime (sTimes s ! k)), (''value'', AFloat (sValues s ! k))]) [nat (i - w) ..< nat i])"
proof -
  have "wrap64 (i - w) = i - w" "wrap64 w = w" using assms by (intro wrap64_id int64I; simp)+
  then show ?thesis using assms by (simp add: historyDataFrame_def series_Len_def)
qed

text \<open>The forecast of the window before position \<open>i\<close>, with the ways it can be missing.\<close>

definition windowResult :: "(int \<Rightarrow> TickEnv) \<Rightarrow> Series \<Rightarrow> int \<Rightarrow> (unit, Model) outcome \<Rightarrow> int \<Rightarrow> (unit, Forecast option) outcome" where
  "windowResult env s w newModel i =
     (case historyDataFrame s (wrap64 (i - w)) i of
        Ok df \<Rightarrow>
          (case BuildFeatures (tLoc (env i)) (tCv (env i)) df of
             Ok frame \<Rightarrow>
               (case windowForecast (env i) newModel frame of
                  Ok f \<Rightarrow> Ok (if fValues f = [] then None else Some f)
                | Err _ \<Rightarrow> Ok None
                | Panic \<Rightarrow> Panic)
           | Err _ \<Rightarrow> Ok None
           | Panic \<Rightarrow> Panic)
      | _ \<Rightarrow> Panic)"

lemma bt_window_result:
  assumes "0 \<le> h" "0 \<le> i" "i + h \<le> series_Len s" "series_Len s \<le> 2 ^ 62"
  shows "bt_window env s w h stepSec newModel p i acc =
     bind_outcome (windowResult env s w newModel i) (\<lambda>r. Ok (case r of
        None \<Rightarrow> bt_skip acc
      | Some f \<Rightarrow> bt_record (tCv (env i)) p f (take (nat h) (drop (nat i) (sValues s)))
          (ToReplicas (tCv (env i)) (accPrev acc) (fValues f) stepSec p (fQuantiles f)) acc))"
proof -
  have "wrap64 (i + h) = i + h" using assms by (intro wrap64_id int64I) auto
  then show ?thesis using assms by (auto simp: bt_window_def windowResult_def Let_def split: outcome.splits)
qed

lemma windowResult_Some: "windowResult env s w newModel i = Ok (Some f) \<Longrightarrow> fValues f \<noteq> []"
  by (auto simp: windowResult_def split: outcome.splits if_splits)

lemma windowResult_total:
  assumes "\<forall>frame. windowForecast (env i) newModel frame \<noteq> Panic" "length (sTimes s) = length (sValues s)" "0 < w" "w \<le> i"
    "i \<le> series_Len s" "series_Len s \<le> 2 ^ 62"
  shows "\<exists>r. windowResult env s w newModel i = Ok r"
  unfolding windowResult_def historyDataFrame_ok[OF assms(2-6)]
  using assms(1) by (auto simp: BuildFeatures_def Let_def split: outcome.splits)

text \<open>What the accumulators satisfy after any number of windows.\<close>

definition acc_inv :: "int \<Rightarrow> bt_acc \<Rightarrow> bool" where
  "acc_inv h acc \<longleftrightarrow> length (accActual acc) = length (accPredicted acc) \<and> length (accPlanned acc) = length (accPredicted acc) \<and>
     length (accNeeded acc) = length (accPredicted acc) \<and> 0 \<le> accWindows acc \<and>
     accWindows acc \<le> int (length (accPredicted acc)) \<and> int (length (accPredicted acc)) \<le> accWindows acc * h"

lemma acc_inv_start: "acc_inv h (bt_start p)"
  by (simp add: acc_inv_def bt_start_def)

lemma acc_inv_skip: "acc_inv h acc \<Longrightarrow> acc_inv h (bt_skip acc)"
  by (simp add: acc_inv_def bt_skip_def)

lemma acc_inv_record:
  assumes "acc_inv h acc" "fValues f \<noteq> []" "int (length future) = h" "0 < h"
  shows "acc_inv h (bt_record cv p f future (ToReplicas cv' prev (fValues f) stepSec p' qs) acc)"
proof -
  let ?c = "min (length (fValues f)) (length future)"
  have "1 \<le> ?c" using assms(2-4) by (cases "fValues f"; cases future) auto
  moreover have "int ?c \<le> h" using assms(3) by simp
  ultimately show ?thesis using assms(1)
    by (auto simp: acc_inv_def bt_record_def Let_def ToReplicas_plan(2) algebra_simps)
qed

lemma bt_windows_covers:
  assumes "\<forall>i frame. windowForecast (env i) newModel frame \<noteq> Panic" "length (sTimes s) = length (sValues s)" "0 < w" "0 < h"
    "series_Len s \<le> 2 ^ 62" "\<forall>i\<in>set is. w \<le> i \<and> i + h \<le> series_Len s" "acc_inv h acc"
  shows "\<exists>acc'. bt_windows (bt_window env s w h stepSec newModel p) is acc = Ok acc' \<and> acc_inv h acc' \<and>
     accWindows acc' + accSkipped acc' = accWindows acc + accSkipped acc + int (length is)"
  using assms(6,7)
proof (induction "is" arbitrary: acc)
  case (Cons i "is")
  have i: "w \<le> i" "i + h \<le> series_Len s" using Cons.prems(1) by auto
  obtain r where r: "windowResult env s w newModel i = Ok r"
    using windowResult_total[of env i newModel s w] assms i by auto
  let ?f = "take (nat h) (drop (nat i) (sValues s))"
  have l: "int (length ?f) = h" using i assms(3,4) by (simp add: series_Len_def)
  define acc1 where "acc1 = (case r of None \<Rightarrow> bt_skip acc
      | Some f \<Rightarrow> bt_record (tCv (env i)) p f ?f (ToReplicas (tCv (env i)) (accPrev acc) (fValues f) stepSec p (fQuantiles f)) acc)"
  have b: "bt_window env s w h stepSec newModel p i acc = Ok acc1"
    unfolding acc1_def using bt_window_result[of h i s env w stepSec newModel p acc] r i assms(3-5) by simp
  have inv: "acc_inv h acc1"
    unfolding acc1_def using Cons.prems(2) acc_inv_skip acc_inv_record[OF _ _ l assms(4)] windowResult_Some[of env s w newModel i] r
    by (cases r) auto
  have c: "accWindows acc1 + accSkipped acc1 = accWindows acc + accSkipped acc + 1"
    unfolding acc1_def by (cases r) (simp_all add: bt_skip_def bt_record_def Let_def)
  have "\<forall>i\<in>set is. w \<le> i \<and> i + h \<le> series_Len s" using Cons.prems(1) by simp
  from Cons.IH[OF this inv] show ?case using b c by auto
qed simp

section \<open>The report\<close>

lemma rate_bounds:
  assumes "0 \<le> k" "k \<le> n" "0 < n" "n \<le> 2 ^ 53"
  shows "Fin 0 \<le> i2f k / i2f n" "i2f k / i2f n \<le> Fin 1"
proof -
  have e: "i2f k = Fin (of_int k)" "i2f n = Fin (of_int n)" using assms by (intro i2f_small; simp)+
  have q: "i2f k / i2f n = rnd (of_int k / of_int n)" using assms(3) unfolding e by (simp add: divide_float64_def)
  have "rnd 0 \<le> rnd (of_int k / of_int n :: rat)" "rnd (of_int k / of_int n :: rat) \<le> rnd (of_int 1)"
    using assms by (intro rnd_mono; simp)+
  then show "Fin 0 \<le> i2f k / i2f n" "i2f k / i2f n \<le> Fin 1" unfolding q using rnd_of_int[of 1] by simp_all
qed

lemma UnderProvisionedRate_bounds:
  assumes "length needed = length planned" "int (length planned) \<le> 2 ^ 53"
  shows "\<exists>r. UnderProvisionedRate planned needed = Ok r \<and> Fin 0 \<le> r \<and> r \<le> Fin 1"
proof (cases "planned = []")
  case False
  have "length (filter (\<lambda>(p, n). p < n) (zip planned needed)) \<le> length planned"
    using length_filter_le[of "\<lambda>(p, n). p < n" "zip planned needed"] assms(1) by simp
  then show ?thesis using False assms
      rate_bounds[of "int (length (filter (\<lambda>(p, n). p < n) (zip planned needed)))" "int (length planned)"]
    by (simp add: UnderProvisionedRate_def paired_def)
qed (simp add: UnderProvisionedRate_def)

lemma bt_report_ok:
  assumes "acc_inv h acc" "accWindows acc \<noteq> 0"
  shows "\<exists>rep. bt_report name acc = Ok rep \<and> rWindows rep = accWindows acc \<and> rSkipped rep = accSkipped acc \<and>
     rPoints rep = int (length (accPredicted acc)) \<and> \<not> rRMSE rep < Fin 0 \<and>
     (rPoints rep \<le> 2 ^ 53 \<longrightarrow> Fin 0 \<le> rUnderProvisionedRate rep \<and> rUnderProvisionedRate rep \<le> Fin 1)"
proof -
  have l: "length (accActual acc) = length (accPredicted acc)" "length (accNeeded acc) = length (accPlanned acc)"
    "length (accPlanned acc) = length (accPredicted acc)" "accPredicted acc \<noteq> []" "accPlanned acc \<noteq> []"
    using assms by (auto simp: acc_inv_def)
  then show ?thesis using assms(2) UnderProvisionedRate_bounds[OF l(2)]
    by (auto simp: bt_report_def MAE_def RMSE_def MAPE_def UnderProvisionedRate_def MeanOverProvision_def paired_def Let_def fsqrt_not_neg)
qed

section \<open>Properties of the evaluation\<close>

text \<open>
  C14: the walk-forward loop returns and covers the series. With a valid configuration, a series of at
  least one window and one horizon, and models that do not panic, the evaluation visits exactly the
  positions \<open>window, window + stride, ...\<close> that leave a whole horizon, in this order: its result is the report
  of the variables after exactly these windows. Each is either evaluated or
  counted as skipped, and when every one is skipped that is the error reported. A report has at least
  one and at most a horizon of points per window, a rate of under-provisioned steps between zero and
  one and an RMSE that is not negative.
\<close>

theorem backtest_covers_series:
  assumes "btNewModel conf = Some (Ok m)" "0 < btStep conf" "btStep conf \<le> btHorizon conf" "btStep conf \<le> btWindow conf"
    "w = btWindow conf div btStep conf" "h = btHorizon conf div btStep conf" "w + h \<le> series_Len s"
    "length (sTimes s) = length (sValues s)" "series_Len s + h + strideSteps conf \<le> 2 ^ 62"
    "\<forall>i frame. windowForecast (env i) (Ok m) frame \<noteq> Panic" "n = (series_Len s - h - w) div strideSteps conf + 1"
  shows "(\<exists>acc. bt_windows (bt_window env s w h (intSeconds (tCv (env 0)) (btStep conf)) (Ok m) (btPolicy conf))
          (map (\<lambda>k. w + int k * strideSteps conf) [0 ..< nat n]) (bt_start (btPolicy conf)) = Ok acc \<and>
        bt_Run env s conf = Some (bt_report (model_Name m) acc)) \<and>
     (bt_Run env s conf = Some (Err (NoWindows n)) \<or>
     (\<exists>rep. bt_Run env s conf = Some (Ok rep) \<and> rWindows rep + rSkipped rep = n \<and> 1 \<le> rWindows rep \<and>
        rWindows rep \<le> rPoints rep \<and> rPoints rep \<le> rWindows rep * h \<and> \<not> rRMSE rep < Fin 0 \<and>
        (rPoints rep \<le> 2 ^ 53 \<longrightarrow> Fin 0 \<le> rUnderProvisionedRate rep \<and> rUnderProvisionedRate rep \<le> Fin 1)))"
    (is "_ \<and> (_ \<or> ?good)")
proof (intro conjI)
  let ?st = "strideSteps conf" and ?p = "btPolicy conf"
  let ?body = "bt_window env s w h (intSeconds (tCv (env 0)) (btStep conf)) (Ok m) ?p"
  have st: "0 < ?st" by (simp add: strideSteps_def Let_def)
  have wh: "0 < w" "0 < h" using assms(2-6) by (simp_all add: pos_imp_zdiv_pos_iff)
  have d: "btWindow conf sdiv btStep conf = w" "btHorizon conf sdiv btStep conf = h"
    using assms(2-6) by (simp_all add: sdiv_nonneg)
  have wrap: "wrap64 (w + h) = w + h" using wh assms(7,9) st by (intro wrap64_id int64I) auto
  let ?is = "bt_positions h ?st (series_Len s) w"
  have loop: "bt_loop ?body h ?st (series_Len s) w (bt_start ?p) = Some (bt_windows ?body ?is (bt_start ?p))"
    using st wh assms(7,9) by (intro bt_loop_windows) (auto simp: series_Len_def)
  have len: "series_Len s \<le> 2 ^ 62" using wh st assms(9) by simp
  have pos: "\<forall>i\<in>set ?is. w \<le> i \<and> i + h \<le> series_Len s" using bt_positions_range[OF st order_less_imp_le[OF wh(1)]] by blast
  obtain acc where acc: "bt_windows ?body ?is (bt_start ?p) = Ok acc" "acc_inv h acc"
    "accWindows acc + accSkipped acc = int (length ?is)"
    using bt_windows_covers[OF assms(10,8) wh len pos acc_inv_start[of h ?p], of "intSeconds (tCv (env 0)) (btStep conf)" ?p]
    unfolding bt_start_def by (simp, blast)
  have "0 \<le> (series_Len s - h - w) div ?st" using st assms(7) by (intro pos_imp_zdiv_nonneg_iff[THEN iffD2]) auto
  then have n: "int (length ?is) = n" using assms(7,11) by (simp add: bt_positions_def bt_count_def)
  have run: "bt_Run env s conf = Some (bt_report (model_Name m) acc)"
    using assms(1-4,7) loop acc(1) by (simp add: bt_Run_def Let_def d wrap)
  have positions: "?is = map (\<lambda>k. w + int k * ?st) [0 ..< nat n]" using n by (auto simp: bt_positions_def)
  show "\<exists>acc. bt_windows ?body (map (\<lambda>k. w + int k * ?st) [0 ..< nat n]) (bt_start ?p) = Ok acc \<and>
      bt_Run env s conf = Some (bt_report (model_Name m) acc)"
    using acc(1) run unfolding positions by blast
  show "bt_Run env s conf = Some (Err (NoWindows n)) \<or> ?good"
  proof (cases "accWindows acc = 0")
    case True
    then show ?thesis using run acc(3) n by (simp add: bt_report_def)
  next
    case False
    then show ?thesis using run acc(2,3) n bt_report_ok[OF acc(2) False, of "model_Name m"] by (auto simp: acc_inv_def)
  qed
qed

text \<open>The part of the accumulators that the planner and the report of forecasts see.\<close>

definition acc_decisions :: "bt_acc \<Rightarrow> float64 list \<times> int list \<times> int \<times> int \<times> int" where
  "acc_decisions acc = (accPredicted acc, accPlanned acc, accPrev acc, accWindows acc, accSkipped acc)"

lemma historyDataFrame_cong:
  assumes "\<forall>k<nat to. sTimes s ! k = sTimes s' ! k \<and> sValues s ! k = sValues s' ! k"
    "length (sTimes s) = length (sTimes s')" "length (sValues s) = length (sValues s')"
  shows "historyDataFrame s from to = historyDataFrame s' from to"
  using assms by (auto simp: historyDataFrame_def)

text \<open>
  C13: the evaluation does not look ahead. Of two series of the same length that agree on their first
  \<open>n\<close> points, the windows that end at or before \<open>n\<close> give the same forecasts, the same planned replica
  counts and the same skipped windows, whatever the points after \<open>n\<close> are; they can change only the
  actual values that the forecasts are compared with.
\<close>

theorem backtest_no_lookahead:
  assumes "\<forall>k<nat n. sTimes s ! k = sTimes s' ! k \<and> sValues s ! k = sValues s' ! k"
    "length (sTimes s) = length (sTimes s')" "length (sValues s) = length (sValues s')"
    "\<forall>i\<in>set is. 0 \<le> i \<and> i \<le> n \<and> i + h \<le> series_Len s" "series_Len s \<le> 2 ^ 62" "0 \<le> h"
    "acc_decisions acc = acc_decisions acc'"
    "bt_windows (bt_window env s w h stepSec newModel p) is acc = Ok r"
  shows "\<exists>r'. bt_windows (bt_window env s' w h stepSec newModel p) is acc' = Ok r' \<and> acc_decisions r = acc_decisions r'"
  using assms(4,7,8)
proof (induction "is" arbitrary: acc acc')
  case (Cons i "is")
  have i: "0 \<le> i" "i \<le> n" "i + h \<le> series_Len s" "i + h \<le> series_Len s'" "series_Len s' \<le> 2 ^ 62"
    using Cons.prems(1) assms(3,5) by (auto simp: series_Len_def)
  have "historyDataFrame s (wrap64 (i - w)) i = historyDataFrame s' (wrap64 (i - w)) i"
    using i(1,2) assms(1-3) by (intro historyDataFrame_cong) auto
  then have same: "windowResult env s w newModel i = windowResult env s' w newModel i" by (simp add: windowResult_def)
  note b = bt_window_result[OF assms(6) i(1,3) assms(5)] and b' = bt_window_result[OF assms(6) i(1,4,5)]
  obtain f where f: "windowResult env s w newModel i = Ok f" using Cons.prems(3) by (auto simp: b outcome_simps)
  let ?rec = "\<lambda>s acc. case f of None \<Rightarrow> bt_skip acc
      | Some f \<Rightarrow> bt_record (tCv (env i)) p f (take (nat h) (drop (nat i) (sValues s)))
          (ToReplicas (tCv (env i)) (accPrev acc) (fValues f) stepSec p (fQuantiles f)) acc"
  have "acc_decisions (?rec s acc) = acc_decisions (?rec s' acc')"
    using Cons.prems(2) assms(3) by (cases f) (simp_all add: acc_decisions_def bt_skip_def bt_record_def Let_def)
  from Cons.IH[OF _ this] show ?case using Cons.prems(1,3) f same by (simp add: b b')
qed simp

section \<open>A concrete evaluation\<close>

definition bt_series :: Series where
  "bt_series = \<lparr>sTimes = map (\<lambda>k. unix_utc (1700000000 + 60 * k) 0) [0, 1, 2, 3, 4], sValues = map i2f [100, 120, 140, 160, 180]\<rparr>"

definition bt_model :: Model where
  "bt_model = MBaseline (NewBaselineModel ''rps'' 60 120)"

definition bt_config :: BacktestConfig where
  "bt_config =
     \<lparr>btWindow = 2 * Minute, btHorizon = 2 * Minute, btStep = Minute, btStride = 0, btNewModel = Some (Ok bt_model),
      btPolicy = sample_policy\<rparr>"

lemma bt_no_panic: "windowForecast e (Ok bt_model) frame \<noteq> Panic"
proof -
  have "bstepSec (baseline_Train cv ord h m) = bstepSec m" for cv ord h m
    by (simp add: baseline_Train_def Let_def split: prod.split option.split)
  then show ?thesis
    by (auto simp: windowForecast_def bt_model_def NewBaselineModel_def baseline_Predict_def Let_def split: if_splits)
qed

lemma bt_config_facts:
  "btNewModel bt_config = Some (Ok bt_model)" "0 < btStep bt_config" "btStep bt_config \<le> btHorizon bt_config"
  "btStep bt_config \<le> btWindow bt_config" "btWindow bt_config div btStep bt_config = 2"
  "btHorizon bt_config div btStep bt_config = 2" "strideSteps bt_config = 1" "series_Len bt_series = 5"
  "length (sTimes bt_series) = length (sValues bt_series)"
  by code_simp+

theorem backtest_covers_series_witness:
  "\<exists>rep. bt_Run (\<lambda>_. loop_env []) bt_series bt_config = Some (Ok rep) \<and> rWindows rep = 2 \<and> rSkipped rep = 0 \<and> rPoints rep \<le> rWindows rep * 2"
proof -
  note c = bt_config_facts
  have "case bt_Run (\<lambda>_. loop_env []) bt_series bt_config of Some (Ok rep) \<Rightarrow> rWindows rep = 2 | _ \<Rightarrow> False" by code_simp
  then obtain rep where rep: "bt_Run (\<lambda>_. loop_env []) bt_series bt_config = Some (Ok rep)" "rWindows rep = 2"
    by (auto split: option.splits outcome.splits)
  have "rWindows rep + rSkipped rep = 2" "rPoints rep \<le> rWindows rep * 2"
    using backtest_covers_series[OF c(1-4) c(5,6)[symmetric] _ c(9), of "\<lambda>_. loop_env []" 2] bt_no_panic rep(1) by (simp_all add: c)
  then show ?thesis using rep by auto
qed

theorem backtest_no_lookahead_witness:
  "\<exists>r r'. bt_windows (bt_window (\<lambda>_. loop_env []) bt_series 2 2 60 (Ok bt_model) sample_policy) [2] (bt_start sample_policy) = Ok r \<and>
     bt_windows (bt_window (\<lambda>_. loop_env []) (bt_series\<lparr>sValues := map i2f [100, 120, 999, 0, 7]\<rparr>) 2 2 60 (Ok bt_model) sample_policy)
       [2] (bt_start sample_policy) = Ok r' \<and> acc_decisions r = acc_decisions r' \<and> accPredicted r \<noteq> [] \<and> accActual r \<noteq> accActual r'"
proof -
  let ?s' = "bt_series\<lparr>sValues := map i2f [100, 120, 999, 0, 7]\<rparr>"
  let ?b = "\<lambda>s. bt_windows (bt_window (\<lambda>_. loop_env []) s 2 2 60 (Ok bt_model) sample_policy) [2] (bt_start sample_policy)"
  have "case ?b bt_series of Ok r \<Rightarrow> accPredicted r \<noteq> [] \<and> accActual r = map i2f [140, 160] | _ \<Rightarrow> False"
    "case ?b ?s' of Ok r \<Rightarrow> accActual r = map i2f [999, 0] | _ \<Rightarrow> False" by code_simp+
  then obtain r where r: "?b bt_series = Ok r" "accPredicted r \<noteq> []" "accActual r = map i2f [140, 160]"
    and b: "\<And>r'. ?b ?s' = Ok r' \<Longrightarrow> accActual r' = map i2f [999, 0]"
    by (auto split: outcome.splits)
  have k: "\<forall>k<nat 2. sTimes bt_series ! k = sTimes ?s' ! k \<and> sValues bt_series ! k = sValues ?s' ! k"
    by (auto simp: bt_series_def less_Suc_eq numeral_2_eq_2)
  have l: "length (sTimes bt_series) = length (sTimes ?s')" "length (sValues bt_series) = length (sValues ?s')"
    by (simp_all add: bt_series_def)
  have h: "\<forall>i\<in>set [2]. 0 \<le> i \<and> i \<le> 2 \<and> i + 2 \<le> series_Len bt_series" "series_Len bt_series \<le> 2 ^ 62" "(0::int) \<le> 2"
    by (simp_all add: bt_config_facts)
  obtain r' where r': "?b ?s' = Ok r'" "acc_decisions r = acc_decisions r'"
    using backtest_no_lookahead[OF k l h refl r(1)] by blast
  have "accActual r \<noteq> accActual r'" using r(3) b[OF r'(1)] by simp
  then show ?thesis using r r' by blast
qed

end
