(* ===== verification/Scaler.thy ===== *)
theory Scaler
  imports Router
begin

text \<open>
  The KEDA external scaler, \<open>src/cmd/scaler/scaler.go\<close>, with the metrics of
  \<open>src/cmd/scaler/metrics/metrics.go\<close>. The forecaster is the parameter \<open>fetch\<close>, from URLs to replies.
  A call returns its result together with the metric updates it makes, in order; the elapsed times that
  the duration histograms record are not kept.
\<close>

section \<open>State and metrics\<close>

datatype metric_event =
    GRPCRequest string string
  | GRPCDuration string
  | ForecastFetch
  | ForecastFetchError
  | DesiredReplicasReturned int
  | ForecastAgeSeen Duration

record Scaler =
  forecasterURL :: string
  leadTime :: Duration
  withMetrics :: bool

record ScaledObjectRef =
  refName :: string
  refNamespace :: string
  ScalerMetadata :: "(string \<times> string) list"

datatype scaler_error =
    ForecastRequest
  | ForecastFetchFailed
  | ForecastStatus int
  | ForecastDecode
  | NotImplemented

text \<open>Without a metrics object nothing is recorded.\<close>

definition recorded :: "Scaler \<Rightarrow> metric_event list \<Rightarrow> metric_event list" where
  "recorded s es = (if withMetrics s then es else [])"

definition NewScaler ::
  "TLSEnv \<Rightarrow> string \<Rightarrow> Duration \<Rightarrow> TLSFiles \<Rightarrow> bool \<Rightarrow> (tls_error, Scaler) outcome" where
  "NewScaler env url lead tlsCfg metrics =
     bind_outcome (NewClient env tlsCfg (10 * Second)) (\<lambda>client.
       Ok \<lparr>forecasterURL = url, leadTime = lead, withMetrics = metrics\<rparr>)"

definition metadata :: "ScaledObjectRef \<Rightarrow> string \<Rightarrow> string" where
  "metadata ref k = (case map_of (ScalerMetadata ref) k of Some v \<Rightarrow> v | None \<Rightarrow> [])"

definition getWorkload :: "ScaledObjectRef \<Rightarrow> string" where
  "getWorkload ref = (if metadata ref ''workload'' \<noteq> [] then metadata ref ''workload'' else refName ref)"

definition getMetricName :: "ScaledObjectRef \<Rightarrow> string \<Rightarrow> string" where
  "getMetricName ref workload =
     (if metadata ref ''metricName'' \<noteq> [] then metadata ref ''metricName''
      else ''kedastral-'' @ workload @ ''-desired-replicas'')"

section \<open>Fetching and selecting\<close>

definition forecastURL :: "Scaler \<Rightarrow> string \<Rightarrow> string" where
  "forecastURL s workload = forecasterURL s @ ''/forecast/current?workload='' @ workload"

definition getForecast ::
  "(string \<Rightarrow> json option http_reply) \<Rightarrow> Scaler \<Rightarrow> string \<Rightarrow> (scaler_error, Snapshot) outcome \<times> metric_event list" where
  "getForecast fetch s workload =
     (case fetch (forecastURL s workload) of
        RequestInvalid \<Rightarrow> (Err ForecastRequest, recorded s [ForecastFetchError, ForecastFetch])
      | NoResponse \<Rightarrow> (Err ForecastFetchFailed, recorded s [ForecastFetchError, ForecastFetch])
      | Response status body \<Rightarrow>
          if status \<noteq> StatusOK then (Err (ForecastStatus status), recorded s [ForecastFetchError, ForecastFetch])
          else case Option.bind body unmarshal_snapshot of
                 None \<Rightarrow> (Err ForecastDecode, recorded s [ForecastFetchError, ForecastFetch])
               | Some snapshot \<Rightarrow> (Ok snapshot, recorded s [ForecastFetch]))"

text \<open>The largest count of the window; a step of zero seconds divides by zero.\<close>

definition selectReplicasAtLeadTime :: "Scaler \<Rightarrow> Snapshot \<Rightarrow> (scaler_error, int) outcome" where
  "selectReplicasAtLeadTime s snapshot =
     (if DesiredReplicas snapshot = [] then Ok 1
      else let stepDuration = wrap64 (StepSeconds snapshot * Second)
           in if stepDuration = 0 then Panic
              else let leadSteps = wrap64 (leadTime s sdiv stepDuration);
                       leadSteps = (if leadSteps \<ge> int (length (DesiredReplicas snapshot))
                                    then int (length (DesiredReplicas snapshot)) - 1 else leadSteps);
                       leadSteps = (if leadSteps < 0 then 0 else leadSteps)
                   in Ok (foldl (\<lambda>maxReplicas r. if r > maxReplicas then r else maxReplicas)
                            (hd (DesiredReplicas snapshot))
                            (take (nat leadSteps) (tl (DesiredReplicas snapshot)))))"

section \<open>The gRPC methods\<close>

definition IsActive ::
  "(string \<Rightarrow> json option http_reply) \<Rightarrow> Time \<Rightarrow> Scaler \<Rightarrow> ScaledObjectRef \<Rightarrow> bool \<times> metric_event list" where
  "IsActive fetch now s ref =
     (case getForecast fetch s (getWorkload ref) of (r, es) \<Rightarrow>
        (case r of
           Ok snapshot \<Rightarrow>
             let age = time_Sub now (GeneratedAt snapshot); staleThreshold = wrap64 (leadTime s * 2)
             in if age > staleThreshold
                then (False, es @ recorded s [GRPCRequest ''IsActive'' ''inactive_stale'', GRPCDuration ''IsActive''])
                else (True, es @ recorded s [GRPCRequest ''IsActive'' ''active'', ForecastAgeSeen age, GRPCDuration ''IsActive''])
         | _ \<Rightarrow> (False, es @ recorded s [GRPCRequest ''IsActive'' ''inactive_error'', GRPCDuration ''IsActive''])))"

definition StreamIsActive :: "Scaler \<Rightarrow> ScaledObjectRef \<Rightarrow> (scaler_error, unit) outcome \<times> metric_event list" where
  "StreamIsActive s ref = (Err NotImplemented, recorded s [GRPCRequest ''StreamIsActive'' ''not_implemented''])"

definition GetMetricSpec :: "Scaler \<Rightarrow> ScaledObjectRef \<Rightarrow> (string \<times> float64) list \<times> metric_event list" where
  "GetMetricSpec s ref =
     ([(getMetricName ref (getWorkload ref), 1)],
      recorded s [GRPCRequest ''GetMetricSpec'' ''success'', GRPCDuration ''GetMetricSpec''])"

definition GetMetrics ::
  "(string \<Rightarrow> json option http_reply) \<Rightarrow> Time \<Rightarrow> Scaler \<Rightarrow> ScaledObjectRef \<Rightarrow> string \<Rightarrow>
   (scaler_error, (string \<times> float64) list) outcome \<times> metric_event list" where
  "GetMetrics fetch now s ref metricName =
     (case getForecast fetch s (getWorkload ref) of (r, es) \<Rightarrow>
        (case r of
           Err e \<Rightarrow> (Err e, es @ recorded s [GRPCRequest ''GetMetrics'' ''error'', GRPCDuration ''GetMetrics''])
         | Panic \<Rightarrow> (Panic, es)
         | Ok snapshot \<Rightarrow>
             (case selectReplicasAtLeadTime s snapshot of
                Ok n \<Rightarrow>
                  (Ok [(metricName, i2f n)],
                   es @ recorded s [GRPCRequest ''GetMetrics'' ''success'', DesiredReplicasReturned n,
                                    ForecastAgeSeen (time_Sub now (GeneratedAt snapshot)), GRPCDuration ''GetMetrics''])
              | _ \<Rightarrow> (Panic, es @ recorded s [GRPCDuration ''GetMetrics'']))))"

section \<open>The selected count is the maximum of the window\<close>

lemma foldl_max_Max: "foldl (\<lambda>m r. if r > m then r else m) (a :: int) xs = Max (insert a (set xs))"
proof (induction xs arbitrary: a)
  case (Cons x xs)
  have "foldl (\<lambda>m r. if r > m then r else m) a (x # xs) = Max (insert (max a x) (set xs))"
    using Cons[of "if x > a then x else a"] by (simp add: max_def not_less)
  also have "\<dots> = Max (insert a (set (x # xs)))"
    by (cases "xs = []") (simp_all add: Max_insert max.assoc)
  finally show ?case .
qed simp

text \<open>The number of steps that the lead time covers.\<close>

definition window_len :: "Scaler \<Rightarrow> Snapshot \<Rightarrow> nat" where
  "window_len s snapshot = nat (leadTime s div (StepSeconds snapshot * Second)) + 1"

definition sane_step :: "Snapshot \<Rightarrow> bool" where
  "sane_step snapshot \<longleftrightarrow> 0 < StepSeconds snapshot \<and> StepSeconds snapshot < 2 ^ 31"

lemma selectReplicas_Max:
  assumes "DesiredReplicas snapshot \<noteq> []" "sane_step snapshot" "0 \<le> leadTime s" "int64 (leadTime s)"
  shows "selectReplicasAtLeadTime s snapshot = Ok (Max (set (take (window_len s snapshot) (DesiredReplicas snapshot))))"
proof -
  obtain d ds where ds: "DesiredReplicas snapshot = d # ds" using assms(1) by (cases "DesiredReplicas snapshot") auto
  have step: "0 < StepSeconds snapshot * Second" "wrap64 (StepSeconds snapshot * Second) = StepSeconds snapshot * Second"
    using assms(2) by (auto simp: sane_step_def int64_def intro!: wrap64_id)
  let ?q = "leadTime s div (StepSeconds snapshot * Second)"
  have q: "0 \<le> ?q" using assms(3) step(1) by (simp add: pos_imp_zdiv_nonneg_iff)
  have "?q \<le> leadTime s" using zdiv_mono2[of "leadTime s" 1 "StepSeconds snapshot * Second"] assms(3) step(1) by simp
  then have w: "wrap64 (leadTime s sdiv (StepSeconds snapshot * Second)) = ?q"
    unfolding sdiv_nonneg[OF assms(3) step(1)] using int64_nonneg_le[OF assms(4) q] by simp
  have "take (nat (if ?q \<ge> int (length (d # ds)) then int (length (d # ds)) - 1 else ?q)) ds = take (nat ?q) ds"
    using q by auto
  moreover have "\<not> (if ?q \<ge> int (length (d # ds)) then int (length (d # ds)) - 1 else ?q) < 0" using q by auto
  ultimately show ?thesis
    unfolding selectReplicasAtLeadTime_def Let_def step(2) w ds
    using step(1) by (simp add: foldl_max_Max window_len_def del: length_Cons)
qed

text \<open>
  The scaler asks for the peak of the lead time. For a snapshot with counts and a positive step, the
  selected count is the maximum of the counts from now to the lead time ahead (all of them when the lead
  time exceeds the horizon): it is one of those counts, and no smaller than any of them.
\<close>

lemma scaler_selects_peak:
  assumes "DesiredReplicas snapshot \<noteq> []" "sane_step snapshot" "0 \<le> leadTime s" "int64 (leadTime s)"
  shows "\<exists>n. selectReplicasAtLeadTime s snapshot = Ok n \<and>
           n \<in> set (take (window_len s snapshot) (DesiredReplicas snapshot)) \<and>
           (\<forall>r \<in> set (take (window_len s snapshot) (DesiredReplicas snapshot)). r \<le> n)"
proof -
  have "take (window_len s snapshot) (DesiredReplicas snapshot) \<noteq> []" using assms(1) by (simp add: window_len_def)
  then show ?thesis using selectReplicas_Max[OF assms] by auto
qed

text \<open>
  A snapshot with a step of zero seconds crashes the scaler. Such a snapshot is what a forecaster
  with a step below one second stores; the division by the step duration panics inside the gRPC method.
\<close>

lemma scaler_zero_step_panics:
  assumes "getForecast fetch s (getWorkload ref) = (Ok snapshot, es)" "DesiredReplicas snapshot \<noteq> []" "StepSeconds snapshot = 0"
  shows "fst (GetMetrics fetch now s ref metricName) = Panic"
  using assms by (simp add: GetMetrics_def selectReplicasAtLeadTime_def wrap64_def)

section \<open>The scaler against the forecaster's API\<close>

text \<open>The forecaster as the scaler reaches it: the workload is the rest of the URL.\<close>

definition forecaster_at ::
  "string \<Rightarrow> (string \<Rightarrow> (store_error, Snapshot option) outcome) \<Rightarrow> Duration \<Rightarrow> Time \<Rightarrow> string \<Rightarrow> json option http_reply" where
  "forecaster_at base get staleAfter now url =
     (let p = base @ ''/forecast/current?workload=''
      in if take (length p) url = p then fst (router_peer get staleAfter now (drop (length p) url))
         else Response StatusNotFound None)"

lemma forecaster_at_forecastURL:
  "forecaster_at (forecasterURL s) get staleAfter now (forecastURL s workload) = fst (router_peer get staleAfter now workload)"
proof -
  define p where "p = forecasterURL s @ ''/forecast/current?workload=''"
  have "forecastURL s workload = p @ workload" by (simp add: forecastURL_def p_def)
  then show ?thesis unfolding forecaster_at_def Let_def p_def[symmetric] by simp
qed

lemma snapshot_names:
  "eqFold ''desiredReplicas'' ''DesiredReplicas''" "eqFold ''generatedAt'' ''GeneratedAt''" "eqFold ''horizonSeconds'' ''HorizonSeconds''"
  "eqFold ''metric'' ''Metric''" "eqFold ''stepSeconds'' ''StepSeconds''" "eqFold ''values'' ''Values''" "eqFold ''workload'' ''Workload''"
  "\<not> eqFold ''desiredReplicas'' ''Workload''" "\<not> eqFold ''desiredReplicas'' ''Metric''" "\<not> eqFold ''desiredReplicas'' ''GeneratedAt''"
  "\<not> eqFold ''desiredReplicas'' ''StepSeconds''" "\<not> eqFold ''desiredReplicas'' ''HorizonSeconds''" "\<not> eqFold ''desiredReplicas'' ''Values''"
  "\<not> eqFold ''generatedAt'' ''Workload''" "\<not> eqFold ''generatedAt'' ''Metric''"
  "\<not> eqFold ''horizonSeconds'' ''Workload''" "\<not> eqFold ''horizonSeconds'' ''Metric''" "\<not> eqFold ''horizonSeconds'' ''GeneratedAt''"
  "\<not> eqFold ''horizonSeconds'' ''StepSeconds''" "\<not> eqFold ''metric'' ''Workload''"
  "\<not> eqFold ''stepSeconds'' ''Workload''" "\<not> eqFold ''stepSeconds'' ''Metric''" "\<not> eqFold ''stepSeconds'' ''GeneratedAt''"
  "\<not> eqFold ''values'' ''Workload''" "\<not> eqFold ''values'' ''Metric''" "\<not> eqFold ''values'' ''GeneratedAt''"
  "\<not> eqFold ''values'' ''StepSeconds''" "\<not> eqFold ''values'' ''HorizonSeconds''"
  by code_simp+

lemma unmarshal_served:
  assumes "servable s"
  shows "Option.bind (snapshotBody s) unmarshal_snapshot = Some (served s)"
proof -
  have i: "list_all int64 (DesiredReplicas s)" "int64 (StepSeconds s)" "int64 (HorizonSeconds s)"
    and t: "unmarshal_time (format_rfc3339 (GeneratedAt s)) = Some (trunc_sec (GeneratedAt s))"
    using assms unmarshal_format_rfc3339 by (simp_all add: servable_def)
  show ?thesis unfolding snapshotBody_servable[OF assms]
    by (simp add: unmarshal_snapshot_def dec_object_def snapshot_field_def snapshot_names t i zero_snapshot_def served_def
        del: dec_list.simps)
qed

lemma getForecast_stored:
  assumes "workloadNameMatch workload" "get workload = Ok (Some x)" "servable x"
  shows "getForecast (forecaster_at (forecasterURL s) get staleAfter now) s workload = (Ok (served x), recorded s [ForecastFetch])"
  using unmarshal_served[OF assms(3)]
  by (simp add: getForecast_def forecaster_at_forecastURL router_peer_found[of workload get, OF assms(1,2)])

text \<open>What the two methods make of a stored snapshot.\<close>

lemma GetMetrics_stored:
  assumes "workloadNameMatch (getWorkload ref)" "get (getWorkload ref) = Ok (Some x)" "servable x"
    "DesiredReplicas x \<noteq> []" "sane_step x" "0 \<le> leadTime s" "int64 (leadTime s)"
  shows "fst (GetMetrics (forecaster_at (forecasterURL s) get staleAfter now) now s ref name) =
     Ok [(name, i2f (Max (set (take (window_len s x) (DesiredReplicas x)))))]"
proof -
  have x: "DesiredReplicas (served x) = DesiredReplicas x" "sane_step (served x)" "window_len s (served x) = window_len s x"
    using assms(5) by (simp_all add: served_def sane_step_def window_len_def)
  have S: "selectReplicasAtLeadTime s (served x) = Ok (Max (set (take (window_len s x) (DesiredReplicas x))))"
    using selectReplicas_Max[of "served x" s] assms(4,6,7) x by simp
  show ?thesis
    unfolding GetMetrics_def getForecast_stored[of "getWorkload ref" get, OF assms(1-3)] prod.case outcome.case S by simp
qed

lemma IsActive_stored:
  assumes "workloadNameMatch (getWorkload ref)" "get (getWorkload ref) = Ok (Some x)" "servable x"
  shows "fst (IsActive (forecaster_at (forecasterURL s) get staleAfter now) now s ref) =
     (time_Sub now (trunc_sec (GeneratedAt x)) \<le> wrap64 (leadTime s * 2))"
  unfolding IsActive_def getForecast_stored[of "getWorkload ref" get, OF assms] prod.case outcome.case Let_def
  by (simp add: served_def not_less)

text \<open>
  C8: KEDA gets the peak of the stored plan. When the forecaster's store holds a snapshot of the
  workload with finite values, a positive step and counts, the scaler answers \<open>GetMetrics\<close> with exactly
  the maximum of the stored counts over the lead time, and \<open>IsActive\<close> with true exactly when the snapshot,
  its time of generation cut to seconds, is not older than twice the lead time.
\<close>

theorem scaler_reports_stored_plan:
  assumes "workloadNameMatch (getWorkload ref)" "get (getWorkload ref) = Ok (Some x)" "servable x"
    "DesiredReplicas x \<noteq> []" "sane_step x" "0 \<le> leadTime s" "leadTime s < 2 ^ 62"
  shows "fst (GetMetrics (forecaster_at (forecasterURL s) get staleAfter now) now s ref name) =
           Ok [(name, i2f (Max (set (take (window_len s x) (DesiredReplicas x)))))] \<and>
         fst (IsActive (forecaster_at (forecasterURL s) get staleAfter now) now s ref) =
           (time_Sub now (trunc_sec (GeneratedAt x)) \<le> 2 * leadTime s)"
proof -
  have lead: "int64 (leadTime s)" "wrap64 (leadTime s * 2) = 2 * leadTime s"
    using assms(6,7) by (auto simp: int64_def intro!: wrap64_id)
  show ?thesis using GetMetrics_stored[where get = get, OF assms(1-6) lead(1)] IsActive_stored[where get = get, OF assms(1-3), of s] lead(2)
    by simp
qed

text \<open>
  C36: a forecast that is not a number blinds the scaler. When the stored snapshot has a value that is
  NaN or infinite, the forecaster answers 200 without a body, \<open>GetMetrics\<close> returns a decoding error and the
  workload is reported inactive, whatever counts were planned.
\<close>

theorem nonfinite_forecast_blinds_scaler:
  assumes "workloadNameMatch (getWorkload ref)" "get (getWorkload ref) = Ok (Some x)" "\<not> list_all finite64 (Values x)"
  shows "fst (GetMetrics (forecaster_at (forecasterURL s) get staleAfter now) now s ref name) = Err ForecastDecode \<and>
         \<not> fst (IsActive (forecaster_at (forecasterURL s) get staleAfter now) now s ref)"
proof -
  have "enc_floats (Values x) = None" using assms(3) enc_floats_Some_iff by (cases "enc_floats (Values x)") auto
  then have b: "snapshotBody x = None" by (simp add: snapshotBody_def)
  have F: "getForecast (forecaster_at (forecasterURL s) get staleAfter now) s (getWorkload ref) =
      (Err ForecastDecode, recorded s [ForecastFetchError, ForecastFetch])"
    by (simp add: getForecast_def forecaster_at_forecastURL router_peer_found[of "getWorkload ref" get, OF assms(1,2)] b)
  show ?thesis unfolding GetMetrics_def IsActive_def F prod.case outcome.case by simp
qed

section \<open>Concrete runs\<close>

definition sample_scaler :: Scaler where
  "sample_scaler = \<lparr>forecasterURL = ''http://f:8081'', leadTime = 120 * Second, withMetrics = True\<rparr>"

definition sample_ref :: ScaledObjectRef where
  "sample_ref = \<lparr>refName = ''web'', refNamespace = ''default'', ScalerMetadata = []\<rparr>"

definition peak_snapshot :: Snapshot where
  "peak_snapshot = sample_snapshot\<lparr>StepSeconds := 60, DesiredReplicas := [2, 3, 7, 4, 9]\<rparr>"

lemma sample_workload: "workloadNameMatch (getWorkload sample_ref)" "getWorkload sample_ref = ''web''"
  by code_simp+

lemma peak_facts: "DesiredReplicas peak_snapshot \<noteq> []" "sane_step peak_snapshot" "servable peak_snapshot"
  "0 \<le> leadTime sample_scaler" "leadTime sample_scaler < 2 ^ 62" "int64 (leadTime sample_scaler)"
  "take (window_len sample_scaler peak_snapshot) (DesiredReplicas peak_snapshot) = [2, 3, 7]"
  by code_simp+

theorem scaler_reports_stored_plan_witness:
  "fst (GetMetrics (forecaster_at (forecasterURL sample_scaler) (\<lambda>_. Ok (Some peak_snapshot)) 0 sample_time)
     sample_time sample_scaler sample_ref ''m'') = Ok [(''m'', Fin 7)]"
  using scaler_reports_stored_plan[of sample_ref "\<lambda>_. Ok (Some peak_snapshot)" peak_snapshot sample_scaler 0 sample_time "''m''"]
    peak_facts sample_workload(1) by simp

theorem nonfinite_forecast_blinds_scaler_witness:
  "fst (GetMetrics (forecaster_at (forecasterURL sample_scaler) (\<lambda>_. Ok (Some (peak_snapshot\<lparr>Values := [NaN]\<rparr>))) 0 sample_time)
     sample_time sample_scaler sample_ref ''m'') = Err ForecastDecode"
  using nonfinite_forecast_blinds_scaler[of sample_ref "\<lambda>_. Ok (Some (peak_snapshot\<lparr>Values := [NaN]\<rparr>))"
      "peak_snapshot\<lparr>Values := [NaN]\<rparr>" sample_scaler 0 sample_time "''m''"] sample_workload(1) by simp

end
