(* ===== verification/Startup.thy ===== *)
theory Startup
  imports Mcp Backtest Scaler
begin

text \<open>
  The programs around the components. The HTTP server of \<open>src/pkg/httpx/server.go\<close>, started and stopped;
  the forecaster's \<open>main\<close> of \<open>src/cmd/forecaster/main.go\<close> as a start-up function followed by a step
  relation, in which the server's goroutine, the operator's goroutine, the workload goroutines and the
  main goroutine interleave until the process exits; the scaler's \<open>main\<close> of \<open>src/cmd/scaler/main.go\<close>;
  and the backtest command of \<open>src/cmd/backtest/main.go\<close> from its flags to its output.
\<close>

section \<open>The HTTP server\<close>

record Server =
  srvAddr :: string
  srvReadHeaderTimeout :: Duration
  srvReadTimeout :: Duration
  srvWriteTimeout :: Duration
  srvIdleTimeout :: Duration
  srvTLSConfig :: "TLSConfig option"

definition NewServer :: "string \<Rightarrow> Server" where
  "NewServer addr =
     \<lparr>srvAddr = addr, srvReadHeaderTimeout = 10 * Second, srvReadTimeout = 30 * Second,
      srvWriteTimeout = 30 * Second, srvIdleTimeout = 60 * Second, srvTLSConfig = None\<rparr>"

definition SetTLSConfig :: "TLSConfig \<Rightarrow> Server \<Rightarrow> Server" where
  "SetTLSConfig config s = s\<lparr>srvTLSConfig := Some config\<rparr>"

text \<open>
  What \<open>net/http\<close> returns: \<open>ListenAndServe\<close> blocks and returns \<open>ErrServerClosed\<close> after a call of
  \<open>Shutdown\<close> and another error when it cannot listen or accept; \<open>Shutdown\<close> returns no error, or that of
  its context or of a listener.
\<close>

datatype serve_error = ErrServerClosed | ServeFailed string

datatype server_error = ServerFailed serve_error | ShutdownFailed string

definition server_Start :: "serve_error option \<Rightarrow> (server_error, unit) outcome" where
  "server_Start err =
     (case err of
        None \<Rightarrow> Ok ()
      | Some e \<Rightarrow> if e \<noteq> ErrServerClosed then Err (ServerFailed e) else Ok ())"

definition server_StartTLS :: "serve_error option \<Rightarrow> (server_error, unit) outcome" where
  "server_StartTLS err =
     (case err of
        None \<Rightarrow> Ok ()
      | Some e \<Rightarrow> if e \<noteq> ErrServerClosed then Err (ServerFailed e) else Ok ())"

definition server_Stop :: "string option \<Rightarrow> (server_error, unit) outcome" where
  "server_Stop err = (case err of Some e \<Rightarrow> Err (ShutdownFailed e) | None \<Rightarrow> Ok ())"

section \<open>The forecaster's main\<close>

text \<open>
  Up to the start of the server, for the memory store: the manager, the age of a stale snapshot and
  the configured server, or the exit code.
\<close>

definition forecaster_init ::
  "TLSEnv \<Rightarrow> (float64 \<Rightarrow> int) \<Rightarrow> (string \<Rightarrow> json option) \<Rightarrow> Config \<Rightarrow>
   (exit, MultiForecaster \<times> Duration \<times> Server) outcome" where
  "forecaster_init env cv parse conf =
     bind_outcome (wrap_err (\<lambda>_. Exit 1) (tls_Validate env (cTLS conf))) (\<lambda>_.
     bind_outcome (forecaster_setup cv parse conf) (\<lambda>(mf, staleAfter).
       let httpServer = NewServer (cListen conf)
       in if Enabled (cTLS conf)
          then bind_outcome (wrap_err (\<lambda>_. Exit 1)
                 (NewServerTLSConfig env (CertFile (cTLS conf)) (KeyFile (cTLS conf)) (CAFile (cTLS conf)))) (\<lambda>tlsConfig.
                 Ok (mf, staleAfter, SetTLSConfig tlsConfig httpServer))
          else Ok (mf, staleAfter, httpServer)))"

text \<open>
  From there on. The main goroutine waits in its \<open>select\<close>, then stops the server, then has exited with a
  code. The channels \<open>sigCh\<close> and \<open>serverErr\<close> are read once, so their fields keep what was sent.
\<close>

datatype main_pc = Selecting | Stopping | Exited int

record process =
  prMf :: MultiForecaster
  prTLS :: bool
  prServing :: bool
  prServerErr :: "(server_error, unit) outcome option"
  prSignal :: bool
  prOperator :: bool
  prPc :: main_pc

definition forecaster_process :: "Config \<Rightarrow> MultiForecaster \<Rightarrow> process" where
  "forecaster_process conf mf =
     \<lparr>prMf = mf, prTLS = Enabled (cTLS conf), prServing = True, prServerErr = None, prSignal = False,
      prOperator = cOperator conf, prPc = Selecting\<rparr>"

text \<open>\<open>cancel()\<close> of the context that \<open>Start\<close> was given.\<close>

definition baseCancel :: "MultiForecaster \<Rightarrow> MultiForecaster" where
  "baseCancel mf = mf\<lparr>mfBaseDone := True, mfTasks := map (\<lambda>t. t\<lparr>taskCancelled := True\<rparr>) (mfTasks mf)\<rparr>"

definition operatorFailed :: "process \<Rightarrow> process" where
  "operatorFailed p = p\<lparr>prOperator := False, prMf := baseCancel (prMf p)\<rparr>"

definition serverReturned :: "serve_error option \<Rightarrow> process \<Rightarrow> process" where
  "serverReturned err p =
     p\<lparr>prServing := False, prServerErr := Some (if prTLS p then server_StartTLS err else server_Start err)\<rparr>"

definition shutdown :: "process \<Rightarrow> process" where
  "shutdown p = p\<lparr>prMf := baseCancel (prMf p), prPc := Stopping\<rparr>"

definition stopServer :: "string option \<Rightarrow> process \<Rightarrow> process" where
  "stopServer err p = p\<lparr>prPc := Exited (case server_Stop err of Ok _ \<Rightarrow> 0 | _ \<Rightarrow> 1)\<rparr>"

text \<open>
  The manager is changed by its goroutines and, while the operator runs, by the reconciler. The operator
  returns an error at any time, and no error once the context is cancelled. Before \<open>Shutdown\<close>, the
  server returns only by failing.
\<close>

inductive proc_step :: "process \<Rightarrow> process \<Rightarrow> bool" where
  Managed: "prPc p \<in> {Selecting, Stopping} \<Longrightarrow> mf_step (prMf p) mf' \<Longrightarrow> mfBaseDone mf' = mfBaseDone (prMf p) \<Longrightarrow>
    prOperator p \<or> mfRunning mf' = mfRunning (prMf p) \<Longrightarrow> proc_step p (p\<lparr>prMf := mf'\<rparr>)"
| OperatorFails: "prPc p \<in> {Selecting, Stopping} \<Longrightarrow> prOperator p \<Longrightarrow> proc_step p (operatorFailed p)"
| OperatorReturns: "prPc p \<in> {Selecting, Stopping} \<Longrightarrow> prOperator p \<Longrightarrow> mfBaseDone (prMf p) \<Longrightarrow> proc_step p (p\<lparr>prOperator := False\<rparr>)"
| ServerFails: "prPc p \<in> {Selecting, Stopping} \<Longrightarrow> prServing p \<Longrightarrow> proc_step p (serverReturned (Some (ServeFailed m)) p)"
| ServerCloses: "prPc p = Stopping \<Longrightarrow> prServing p \<Longrightarrow> proc_step p (serverReturned (Some ErrServerClosed) p)"
| Signalled: "prPc p \<in> {Selecting, Stopping} \<Longrightarrow> proc_step p (p\<lparr>prSignal := True\<rparr>)"
| SelectSignal: "prPc p = Selecting \<Longrightarrow> prSignal p \<Longrightarrow> proc_step p (shutdown p)"
| SelectServer: "prPc p = Selecting \<Longrightarrow> prServerErr p \<noteq> None \<Longrightarrow> proc_step p (shutdown p)"
| StopServer: "prPc p = Stopping \<Longrightarrow> proc_step p (stopServer err p)"

inductive_cases proc_stepE: "proc_step p p'"

abbreviation proc_reach :: "process \<Rightarrow> process \<Rightarrow> bool" where
  "proc_reach \<equiv> proc_step\<^sup>*\<^sup>*"

section \<open>The scaler's main\<close>

text \<open>Up to the start of the two servers; whether the address can be listened on is the environment's.\<close>

definition scaler_init :: "TLSEnv \<Rightarrow> (string \<Rightarrow> bool) \<Rightarrow> ScalerConfig \<Rightarrow> (exit, Scaler) outcome" where
  "scaler_init env canListen conf =
     bind_outcome (wrap_err (\<lambda>_. Exit 1) (tls_Validate env (scTLS conf))) (\<lambda>_.
     bind_outcome (wrap_err (\<lambda>_. Exit 1)
       (NewScaler env (scForecasterURL conf) (scLeadTime conf) (scTLS conf) True)) (\<lambda>scaler.
       if canListen (scListen conf) then Ok scaler else Err (Exit 1)))"

text \<open>
  From there on, what happens to the process: the gRPC server or the HTTP server returns, or a signal
  arrives, after which the HTTP server's \<open>Shutdown\<close> returns the given error.
\<close>

datatype scaler_event = GrpcReturned "string option" | HttpReturned "serve_error option" | Interrupted "string option"

fun scaler_run :: "scaler_event list \<Rightarrow> exit option" where
  "scaler_run [] = None"
| "scaler_run (GrpcReturned err # es) = (if err \<noteq> None then Some (Exit 1) else scaler_run es)"
| "scaler_run (HttpReturned err # es) = (case server_Start err of Err _ \<Rightarrow> scaler_run es | _ \<Rightarrow> scaler_run es)"
| "scaler_run (Interrupted err # es) = (case server_Stop err of Err _ \<Rightarrow> Some (Exit 0) | _ \<Rightarrow> Some (Exit 0))"

section \<open>The backtest command\<close>

definition fmt_f4 :: "float64 \<Rightarrow> string" where
  "fmt_f4 x = (case x of
      NaN \<Rightarrow> ''NaN'' | PInf \<Rightarrow> ''+Inf'' | NInf \<Rightarrow> ''-Inf''
    | Fin r \<Rightarrow> (let t = rne (\<bar>r\<bar> * 10000)
               in (if r < 0 then ''-'' else []) @ utoa (t div 10000) @ ''.'' @ fixedDigits 4 (t mod 10000)))"

definition printText :: "Report \<Rightarrow> string" where
  "printText r =
     ''Backtest report'' @ nl @
     ''  model:                  '' @ rModel r @ nl @
     ''  windows evaluated:      '' @ itoa (rWindows r) @ '' (skipped '' @ itoa (rSkipped r) @ '')'' @ nl @
     ''  forecast points:        '' @ itoa (rPoints r) @ nl @
     ''  forecast accuracy:'' @ nl @
     ''    MAE:                  '' @ fmt_f4 (rMAE r) @ nl @
     ''    RMSE:                 '' @ fmt_f4 (rRMSE r) @ nl @
     ''    MAPE:                 '' @ fmt_f2 (rMAPE r) @ ''%'' @ nl @
     ''  capacity outcome:'' @ nl @
     ''    under-provisioned:    '' @ fmt_f2 (rUnderProvisionedRate r * Fin 100) @ ''% of steps'' @ nl @
     ''    mean over-provision:  '' @ fmt_f2 (rMeanOverProvision r * Fin 100) @ ''%'' @ nl"

text \<open>\<open>encoder.Encode\<close> of the report, which fails on a figure that is not finite.\<close>

definition report_json :: "Report \<Rightarrow> json option" where
  "report_json r = do {
     mae \<leftarrow> enc_float (rMAE r);
     rmse \<leftarrow> enc_float (rRMSE r);
     mape \<leftarrow> enc_float (rMAPE r);
     under \<leftarrow> enc_float (rUnderProvisionedRate r);
     over \<leftarrow> enc_float (rMeanOverProvision r);
     Some (JObj [(''model'', JStr (rModel r)), (''windows'', JInt (rWindows r)), (''skipped'', JInt (rSkipped r)),
       (''points'', JInt (rPoints r)), (''mae'', mae), (''rmse'', rmse), (''mape'', mape),
       (''underProvisionedRate'', under), (''meanOverProvision'', over)])
   }"

datatype bt_output = PrintedText string | PrintedJson json

definition backtest_flagsOk :: "(float64 \<Rightarrow> int) \<Rightarrow> (string \<Rightarrow> string option) \<Rightarrow> bool" where
  "backtest_flagsOk cv given \<longleftrightarrow>
     flagsOk (durationx_Parse cv) given [''horizon'', ''step'', ''window'', ''stride''] \<and>
     flagsOk parseInt0 given
       [''arima-p'', ''arima-d'', ''arima-q'', ''sarima-p'', ''sarima-d'', ''sarima-q'', ''sarima-sp'', ''sarima-sd'',
        ''sarima-sq'', ''sarima-s'', ''min'', ''max'', ''down-max-percent''] \<and>
     flagsOk parseFloat given [''target-per-pod'', ''headroom'', ''up-max-factor'']"

definition backtest_params :: "(string \<Rightarrow> string option) \<Rightarrow> modelParams" where
  "backtest_params given =
     (let int = flagValue parseInt0 given
      in \<lparr>pArimaP = int ''arima-p'' 0, pArimaD = int ''arima-d'' 0, pArimaQ = int ''arima-q'' 0,
          pSarimaP = int ''sarima-p'' 0, pSarimaD = int ''sarima-d'' 0, pSarimaQ = int ''sarima-q'' 0,
          pSarimaSP = int ''sarima-sp'' 1, pSarimaSD = int ''sarima-sd'' 1, pSarimaSQ = int ''sarima-sq'' 1,
          pSarimaS = int ''sarima-s'' 24, pByomURL = flagValue okString given ''byom-url'' []\<rparr>)"

definition backtest_policy :: "(string \<Rightarrow> string option) \<Rightarrow> float64 \<Rightarrow> Policy" where
  "backtest_policy given quantile =
     \<lparr>TargetPerPod = flagValue parseFloat given ''target-per-pod'' (flit 100),
      Headroom = flagValue parseFloat given ''headroom'' (flit (12 / 10)), QuantileLevel = quantile,
      MinReplicas = flagValue parseInt0 given ''min'' 1, MaxReplicas = flagValue parseInt0 given ''max'' 100,
      UpMaxFactorPerStep = flagValue parseFloat given ''up-max-factor'' (flit 2),
      DownMaxPercentPerStep = flagValue parseInt0 given ''down-max-percent'' 50,
      PrewarmWindowSteps = 0, RoundingMode = []\<rparr>"

text \<open>
  \<open>main\<close>: the output, or the exit code, 2 for a flag that does not convert and 1 for every call of
  \<open>fail\<close>. It is None when the walk-forward loop does not return.
\<close>

definition backtest_main ::
  "(int \<Rightarrow> TickEnv) \<Rightarrow> (string \<Rightarrow> string option) \<Rightarrow> string \<Rightarrow> (string \<Rightarrow> string option) \<Rightarrow> (exit, bt_output) outcome option" where
  "backtest_main env open_file stdin given =
     (let cv = tCv (env 0);
          str = flagValue okString given;
          dur = flagValue (durationx_Parse cv) given;
          horizon = dur ''horizon'' (30 * Minute);
          step = dur ''step'' Minute
      in if \<not> backtest_flagsOk cv given then Some (Err (Exit 2))
         else if str ''model'' ''baseline'' = ''byom'' \<and> str ''byom-url'' [] = [] then Some (Err (Exit 1))
         else case ParseQuantileLevel (str ''quantile-level'' ''0'') of
           Panic \<Rightarrow> Some Panic
         | Err _ \<Rightarrow> Some (Err (Exit 1))
         | Ok quantile \<Rightarrow>
           (case modelFactory (str ''model'' ''baseline'') (str ''metric'' ''value'') (intSeconds cv step)
                   (intSeconds cv horizon) (backtest_params given) of
              Panic \<Rightarrow> Some Panic
            | Err _ \<Rightarrow> Some (Err (Exit 1))
            | Ok newModel \<Rightarrow>
              (case loadSeries open_file stdin (str ''input'' []) of
                 Panic \<Rightarrow> Some Panic
               | Err _ \<Rightarrow> Some (Err (Exit 1))
               | Ok series \<Rightarrow>
                 map_option (\<lambda>r. case r of
                     Panic \<Rightarrow> Panic
                   | Err _ \<Rightarrow> Err (Exit 1)
                   | Ok report \<Rightarrow>
                       if str ''output'' ''text'' = ''json''
                       then (case report_json report of None \<Rightarrow> Err (Exit 1) | Some j \<Rightarrow> Ok (PrintedJson j))
                       else Ok (PrintedText (printText report)))
                   (bt_Run env series
                      \<lparr>btWindow = dur ''window'' (6 * Hour), btHorizon = horizon, btStep = step, btStride = dur ''stride'' 0,
                       btNewModel = Some newModel, btPolicy = backtest_policy given quantile\<rparr>))))"

section \<open>Exit codes\<close>

text \<open>The scaler's process does not depend on its HTTP server, and fails only with its gRPC server.\<close>

lemma scaler_run_http: "scaler_run (filter (\<lambda>e. \<forall>err. e \<noteq> HttpReturned err) es) = scaler_run es"
  by (induction es rule: scaler_run.induct) (auto split: outcome.split)

lemma scaler_run_fails: "scaler_run es = Some (Exit 1) \<Longrightarrow> \<exists>m. GrpcReturned (Some m) \<in> set es"
  by (induction es rule: scaler_run.induct) (auto split: outcome.splits if_splits)

text \<open>A report is encoded exactly when its figures are finite; otherwise the command fails.\<close>

lemma report_json_iff:
  "report_json r \<noteq> None \<longleftrightarrow>
     list_all finite64 [rMAE r, rRMSE r, rMAPE r, rUnderProvisionedRate r, rMeanOverProvision r]"
  by (auto simp: report_json_def enc_float_def split: Option.bind_splits)

section \<open>The invariant of the process\<close>

definition idle_tasks :: "MultiForecaster \<Rightarrow> bool" where
  "idle_tasks mf \<longleftrightarrow> (\<forall>t\<in>set (mfTasks mf). \<forall>x. taskPc t \<noteq> Putting x)"

definition proc_inv :: "process \<Rightarrow> bool" where
  "proc_inv p \<longleftrightarrow> mf_inv (prMf p) \<and> mfStarted (prMf p) \<and>
     (prPc p \<noteq> Selecting \<longrightarrow> mfBaseDone (prMf p) \<and> (prSignal p \<or> prServerErr p \<noteq> None))"

lemma baseCancel_fields [simp]:
  "mfBaseDone (baseCancel mf)" "mfStore (baseCancel mf) = mfStore mf" "mfStarted (baseCancel mf) = mfStarted mf"
  "idle_tasks (baseCancel mf) = idle_tasks mf"
  by (auto simp: baseCancel_def idle_tasks_def)

lemma baseCancel_inv: "mf_inv mf \<Longrightarrow> mf_inv (baseCancel mf)"
  unfolding baseCancel_def by (rule mf_step_inv[OF BaseCancel])

lemma mf_step_started: "mf_step mf mf' \<Longrightarrow> mfStarted mf \<Longrightarrow> mfStarted mf'"
  by (induction rule: mf_step.induct)
    (auto simp: mf_Upsert_def Let_def launch_def mf_Remove_locked_def mf_Remove_delete_def setTask_def split: option.split)

lemma proc_step_inv: "proc_step p p' \<Longrightarrow> proc_inv p \<Longrightarrow> proc_inv p'"
  by (induction rule: proc_step.induct)
    (auto simp: proc_inv_def operatorFailed_def serverReturned_def shutdown_def stopServer_def
       intro: mf_step_inv mf_step_started baseCancel_inv)

lemma proc_reach_inv: "proc_reach p p' \<Longrightarrow> proc_inv p \<Longrightarrow> proc_inv p'"
  by (induction rule: rtranclp_induct) (auto intro: proc_step_inv)

text \<open>Every way to set the manager up starts it.\<close>

lemma addWorkloads_reach:
  "addWorkloads cv parse wcs reg mf = Ok mf' \<Longrightarrow> mf_reach mf mf' \<and> mfStarted mf' = mfStarted mf"
proof (induction wcs arbitrary: reg mf)
  case (Cons wc wcs)
  then obtain f reg' where "addWorkloads cv parse wcs reg' (mf_Upsert f mf) = Ok mf'"
    by (auto split: outcome.splits)
  note IH = Cons.IH[OF this]
  have "mfStarted (mf_Upsert f mf) = mfStarted mf"
    by (simp add: mf_Upsert_def Let_def launch_def split: option.split)
  then show ?case using IH Upsert[of mf f] by (auto intro: converse_rtranclp_into_rtranclp)
qed simp

lemma Start_reach:
  assumes "mf_reach mf mf'" "mf_inv mf" "\<not> mfStarted mf'"
  shows "mf_inv (mf_Start forwards mf')"
  by (rule Start_inv[OF mf_reach_inv[OF assms(1,2)] assms(3) orders(1)])

lemma launches_started: "mfStarted (launches mf l) = mfStarted mf"
proof (induction l arbitrary: mf)
  case (Cons e l)
  have "mfStarted (launches mf (e # l)) = mfStarted (launches (launch (fst e) (snd e) mf) l)" by (simp add: case_prod_beta)
  also have "\<dots> = mfStarted (launch (fst e) (snd e) mf)" by (rule Cons.IH)
  finally show ?case by (simp add: launch_def)
qed simp

lemma Start_started [simp]: "mfStarted (mf_Start order mf)"
  unfolding mf_Start_def Let_def launches_started by simp

lemma forecaster_setup_inv:
  assumes "forecaster_setup cv parse conf = Ok (mf, staleAfter)"
  shows "mf_inv mf" "mfStarted mf"
proof -
  let ?new = "NewMultiForecaster [] NewMemoryStore"
  have n: "\<not> mfStarted ?new" by (simp add: NewMultiForecaster_def)
  from assms consider "mf = mf_Start forwards ?new"
    | wcs mf0 where "addWorkloads cv parse wcs empty_registry ?new = Ok mf0" "mf = mf_Start forwards mf0"
    by (auto simp: forecaster_setup_def Let_def outcome_simps neq_Nil_conv split: if_splits outcome.splits list.splits)
  then have "mf_inv mf \<and> mfStarted mf"
  proof cases
    case 1
    then show ?thesis using Start_reach[OF rtranclp.rtrancl_refl New_inv n] by simp
  next
    case 2
    note a = addWorkloads_reach[OF 2(1)]
    then show ?thesis using Start_reach[OF conjunct1[OF a] New_inv] n 2(2) by simp
  qed
  then show "mf_inv mf" "mfStarted mf" by simp_all
qed

lemma forecaster_init_setup:
  "forecaster_init env cv parse conf = Ok (mf, staleAfter, server) \<Longrightarrow> forecaster_setup cv parse conf = Ok (mf, staleAfter)"
  by (auto simp: forecaster_init_def Let_def outcome_simps split: if_splits)

lemma process_starts_inv: "forecaster_init env cv parse conf = Ok (mf, staleAfter, server) \<Longrightarrow> proc_inv (forecaster_process conf mf)"
  using forecaster_setup_inv[OF forecaster_init_setup] by (simp add: proc_inv_def forecaster_process_def)

section \<open>After the context is cancelled\<close>

lemma cancelled_tasks: "mf_inv mf \<Longrightarrow> mfBaseDone mf \<Longrightarrow> t \<in> set (mfTasks mf) \<Longrightarrow> taskCancelled t"
  by (simp add: mf_inv_def mf_wf_def)

text \<open>The snapshots only go: no tick passes the context check any more.\<close>

definition plans_kept :: "MemoryStore \<Rightarrow> MemoryStore \<Rightarrow> bool" where
  "plans_kept s s' \<longleftrightarrow> (\<forall>w y. mem_GetLatest None w s' = Ok (Some y) \<longrightarrow> mem_GetLatest None w s = Ok (Some y))"

lemma idle_cancelTask [simp]: "idle_tasks mf \<Longrightarrow> idle_tasks (cancelTask c mf)"
  unfolding idle_tasks_def all_set_conv_all_nth by (simp add: cancelTask_nth)

lemma idle_setTask: "idle_tasks mf \<Longrightarrow> \<forall>x. taskPc t \<noteq> Putting x \<Longrightarrow> idle_tasks (setTask i t mf)"
  using set_update_subset_insert[of "mfTasks mf" i t] by (auto simp: idle_tasks_def setTask_def)

lemma idle_Upsert: "idle_tasks mf \<Longrightarrow> idle_tasks (mf_Upsert f mf)"
proof -
  assume "idle_tasks mf"
  then have "idle_tasks (case map_of (mfRunning mf) (wf_name f) of Some existing \<Rightarrow> cancelTask (mgCancel existing) mf | None \<Rightarrow> mf)"
    by (simp split: option.split)
  then show ?thesis by (auto simp: mf_Upsert_def Let_def launch_def idle_tasks_def)
qed

lemma idle_step:
  assumes "mf_step mf mf'" "mf_inv mf" "mfStarted mf" "mfBaseDone mf" "idle_tasks mf"
  shows "idle_tasks mf' \<and> plans_kept (mfStore mf) (mfStore mf')"
  using assms
proof (induction rule: mf_step.induct)
  case (Upsert mf f)
  have "mfStore (mf_Upsert f mf) = mfStore mf"
    by (simp add: mf_Upsert_def Let_def launch_def split: option.split)
  then show ?case using Upsert idle_Upsert by (simp add: plans_kept_def)
next
  case (RemoveLocked mf name)
  then show ?case using idle_cancelTask[OF RemoveLocked(4)]
    by (auto simp: mf_Remove_locked_def plans_kept_def idle_tasks_def split: option.split)
next
  case (RemoveDelete name mf)
  then show ?case
    by (auto simp: mf_Remove_delete_def plans_kept_def idle_tasks_def mem_GetLatest_def mem_Delete_def delete_conv' split: if_splits)
next
  case (BaseCancel mf)
  then show ?case by (auto simp: plans_kept_def idle_tasks_def)
next
  case (TickPut i mf t e r f x)
  have "taskCancelled t" using cancelled_tasks[OF TickPut(6,8) nth_mem[OF TickPut(1)]] TickPut(2) by simp
  then show ?case using TickPut(4) by simp
next
  case (TickWrite i mf t x)
  have "taskPc t \<noteq> Putting x" using TickWrite(7) nth_mem[OF TickWrite(1)] TickWrite(2) unfolding idle_tasks_def by blast
  then show ?case using TickWrite(3) by simp
next
  case (Start mf order)
  then show ?case by simp
next
  case (TickNone i mf t e r f)
  then have "idle_tasks (setTask i (t\<lparr>taskForecaster := f\<rparr>) mf)" by (intro idle_setTask) simp_all
  then show ?case by (simp add: plans_kept_def setTask_def)
next
  case (Return i mf t)
  then have "idle_tasks (setTask i (t\<lparr>taskPc := Ended\<rparr>) mf)" by (intro idle_setTask) simp_all
  then show ?case by (simp add: plans_kept_def setTask_def)
next
  case (Recover i mf t)
  then have "idle_tasks (setTask i (t\<lparr>taskPc := Ended\<rparr>) mf)" by (intro idle_setTask) simp_all
  then show ?case by (simp add: plans_kept_def setTask_def)
qed

lemma proc_idle_step:
  assumes "proc_step p p'" "proc_inv p" "mfBaseDone (prMf p)" "idle_tasks (prMf p)"
  shows "mfBaseDone (prMf p') \<and> idle_tasks (prMf p') \<and> plans_kept (mfStore (prMf p)) (mfStore (prMf p'))"
  using assms
proof (induction rule: proc_step.induct)
  case (Managed p mf')
  then show ?case using idle_step[OF Managed(2)] by (simp add: proc_inv_def)
qed (auto simp: operatorFailed_def serverReturned_def shutdown_def stopServer_def plans_kept_def)

lemma proc_idle_reach:
  assumes "proc_reach p p'" "proc_inv p" "mfBaseDone (prMf p)" "idle_tasks (prMf p)"
  shows "mfBaseDone (prMf p') \<and> idle_tasks (prMf p') \<and> plans_kept (mfStore (prMf p)) (mfStore (prMf p'))"
  using assms
proof (induction rule: rtranclp_induct)
  case (step y z)
  then show ?case using proc_idle_step[OF step(2) proc_reach_inv[OF step(1,4)]] by (auto simp: plans_kept_def)
qed (simp add: plans_kept_def)

section \<open>Shutting down\<close>

text \<open>Once the main goroutine has left its \<open>select\<close>, no workload goroutine has a live context.\<close>

lemma shutdown_cancels_loops:
  assumes "forecaster_init env cv parse conf = Ok (mf, staleAfter, server)" "proc_reach (forecaster_process conf mf) p"
    "prPc p \<noteq> Selecting"
  shows "\<forall>t\<in>set (mfTasks (prMf p)). taskCancelled t"
  using proc_reach_inv[OF assms(2) process_starts_inv[OF assms(1)]] assms(3) cancelled_tasks by (auto simp: proc_inv_def)

text \<open>A server that cannot listen ends the process with the exit code of success.\<close>

lemma server_failure_exits_zero:
  assumes "prPc p = Selecting" "prServing p"
  shows "\<exists>p'. proc_reach p p' \<and> prPc p' = Exited 0 \<and> prServerErr p' = Some (Err (ServerFailed (ServeFailed m)))"
proof -
  let ?p1 = "serverReturned (Some (ServeFailed m)) p"
  have s: "proc_step p ?p1" using assms by (intro ServerFails) auto
  have "proc_step ?p1 (shutdown ?p1)" using assms by (intro SelectServer) (simp_all add: serverReturned_def)
  moreover have "proc_step (shutdown ?p1) (stopServer None (shutdown ?p1))" by (intro StopServer) (simp add: shutdown_def)
  ultimately have "proc_reach p (stopServer None (shutdown ?p1))" using s
    by (meson rtranclp.rtrancl_into_rtrancl rtranclp.rtrancl_refl)
  moreover have "prPc (stopServer None (shutdown ?p1)) = Exited 0"
    "prServerErr (stopServer None (shutdown ?p1)) = Some (Err (ServerFailed (ServeFailed m)))"
    by (simp_all add: stopServer_def server_Stop_def shutdown_def serverReturned_def server_Start_def server_StartTLS_def)
  ultimately show ?thesis by blast
qed

text \<open>
  C40: a failed operator leaves the forecaster serving old plans. When \<open>runOperator\<close> returns an error, its
  goroutine cancels the root context, which \<open>main\<close> does not wait for: from then on, as long as no signal
  arrives and the HTTP server does not fail, the process keeps running, no workload goroutine has a live
  context, and, when no write was in flight, every snapshot the store holds is one it held at the failure.
\<close>

theorem operator_failure_strands_process:
  assumes "forecaster_init env cv parse conf = Ok (mf, staleAfter, server)" "proc_reach (forecaster_process conf mf) p"
    "prPc p = Selecting" "prOperator p" "\<forall>t\<in>set (mfTasks (prMf p)). \<forall>x. taskPc t \<noteq> Putting x"
  shows "proc_step p (operatorFailed p) \<and>
    (\<forall>q. proc_reach (operatorFailed p) q \<longrightarrow>
       (\<forall>t\<in>set (mfTasks (prMf q)). taskCancelled t) \<and>
       (\<not> prSignal q \<and> prServerErr q = None \<longrightarrow> prPc q = Selecting) \<and>
       (\<forall>w y. mem_GetLatest None w (mfStore (prMf q)) = Ok (Some y) \<longrightarrow>
          mem_GetLatest None w (mfStore (prMf p)) = Ok (Some y)))"
proof (intro conjI allI impI)
  show s: "proc_step p (operatorFailed p)" using assms(3,4) by (intro OperatorFails) auto
  fix q
  assume q: "proc_reach (operatorFailed p) q"
  have inv: "proc_inv (operatorFailed p)"
    by (rule proc_step_inv[OF s proc_reach_inv[OF assms(2) process_starts_inv[OF assms(1)]]])
  have iq: "proc_inv q" by (rule proc_reach_inv[OF q inv])
  have "mfBaseDone (prMf q) \<and> idle_tasks (prMf q) \<and> plans_kept (mfStore (prMf (operatorFailed p))) (mfStore (prMf q))"
    by (rule proc_idle_reach[OF q inv]) (use assms(5) in \<open>simp_all add: operatorFailed_def\<close>, simp add: idle_tasks_def)
  then have d: "mfBaseDone (prMf q)" "plans_kept (mfStore (prMf p)) (mfStore (prMf q))" by (simp_all add: operatorFailed_def)
  show "\<forall>t\<in>set (mfTasks (prMf q)). taskCancelled t" using iq d(1) cancelled_tasks by (auto simp: proc_inv_def)
  show "prPc q = Selecting" if "\<not> prSignal q \<and> prServerErr q = None" using iq that by (auto simp: proc_inv_def)
  show "mem_GetLatest None w (mfStore (prMf p)) = Ok (Some y)" if "mem_GetLatest None w (mfStore (prMf q)) = Ok (Some y)" for w y
    using d(2) that by (simp add: plans_kept_def)
qed

text \<open>An operator that has started one workload, and then fails.\<close>

definition operator_conf :: Config where
  "operator_conf = (parseConfig amd64_cv sample_flags sample_environ)
     \<lparr>cOperator := True, cTLS := \<lparr>Enabled = False, CertFile = [], KeyFile = [], CAFile = []\<rparr>\<rparr>"

definition no_files :: TLSEnv where
  "no_files = \<lparr>fsStat = (\<lambda>_. False), fsRead = (\<lambda>_. None), pemHasCerts = (\<lambda>_. False), keyPairOK = (\<lambda>_ _. False)\<rparr>"

definition operator_process :: process where
  "operator_process = (forecaster_process operator_conf started_empty)\<lparr>prMf := mf_Upsert loop_forecaster started_empty\<rparr>"

theorem operator_failure_strands_process_witness:
  "\<not> taskCancelled (mfTasks (prMf operator_process) ! 0) \<and> proc_step operator_process (operatorFailed operator_process) \<and>
   taskCancelled (mfTasks (prMf (operatorFailed operator_process)) ! 0) \<and> prPc (operatorFailed operator_process) = Selecting"
proof -
  have i: "forecaster_init no_files amd64_cv (\<lambda>_. None) operator_conf =
      Ok (started_empty, wrap64 (2 * cInterval operator_conf), NewServer (cListen operator_conf))"
    by (simp add: forecaster_init_def tls_Validate_def forecaster_setup_def started_empty_def operator_conf_def Let_def)
  have f: "prPc operator_process = Selecting" "prOperator operator_process" "\<not> prSignal operator_process"
    "prServerErr operator_process = None" "prMf operator_process = mf_Upsert loop_forecaster started_empty"
    by (simp_all add: operator_process_def forecaster_process_def operator_conf_def)
  have b: "\<not> mfBaseDone started_empty"
    by (simp add: started_empty_def mf_Start_def NewMultiForecaster_def range_over_def forwards_def)
  have "proc_step (forecaster_process operator_conf started_empty) operator_process"
    unfolding operator_process_def
    by (rule Managed) (use b started_empty_fields(2) Upsert in \<open>simp_all add: forecaster_process_def operator_conf_def\<close>)
  then have r: "proc_reach (forecaster_process operator_conf started_empty) operator_process" by (rule r_into_rtranclp)
  have w: "\<forall>t\<in>set (mfTasks (prMf operator_process)). \<forall>x. taskPc t \<noteq> Putting x"
    by (simp add: f started_empty_fields)
  note strands = operator_failure_strands_process[OF i r f(1,2) w]
  then have s: "proc_step operator_process (operatorFailed operator_process)" by (rule conjunct1)
  have "(\<forall>t\<in>set (mfTasks (prMf (operatorFailed operator_process))). taskCancelled t) \<and>
      prPc (operatorFailed operator_process) = Selecting"
    using strands f(3,4) by (auto simp: operatorFailed_def)
  moreover have "length (mfTasks (prMf (operatorFailed operator_process))) = 1"
    by (simp add: operatorFailed_def baseCancel_def f started_empty_fields)
  ultimately show ?thesis using s by (simp add: f started_empty_fields)
qed

end
