(* ===== verification/Spec2Isabelle.thy ===== *)
theory Spec2Isabelle
  imports Startup
begin

text \<open>
  A verification development for Kedastral, the predictive autoscaler for Kubernetes under \<open>src/\<close>.

  \<^bold>\<open>The program.\<close> The forecaster (\<open>src/cmd/forecaster\<close>) runs one loop per workload. Each tick collects
  metric rows through an adapter, builds a feature frame, trains a model, predicts the load over a
  horizon, turns the prediction into replica counts with the capacity planner, and puts a snapshot into
  a store. An HTTP API serves the latest snapshot of each workload. The scaler (\<open>src/cmd/scaler\<close>) answers
  KEDA's gRPC calls from that API. In operator mode a controller creates, replaces and removes the loops
  from \<open>ForecastPolicy\<close> resources and writes a \<open>ScaledObject\<close> for KEDA. The MCP server
  (\<open>src/cmd/mcp-server\<close>) explains the plans, and the backtest command (\<open>src/cmd/backtest\<close>) evaluates models
  and planner on recorded series.

  \<^bold>\<open>Language and libraries.\<close>
  \<^item> \<open>Prelude\<close>: the outcome of a call (\<open>Ok\<close>, \<open>Err\<close>, \<open>Panic\<close>), 64-bit \<open>int\<close> arithmetic with \<open>wrap64\<close>,
    \<open>sdiv\<close>, \<open>smod\<close>, Go maps, and shared lemmas in the collections the component proofs use.
  \<^item> \<open>Float64\<close>: binary64 on rationals, each operation exact and then rounded to 53 bits.
  \<^item> \<open>Strconv\<close>, \<open>Gotime\<close>, \<open>Json\<close>, \<open>Http\<close>: what the program uses of those packages. The conversion of a
    float to an \<open>int\<close>, implementation-defined in Go out of range, is the parameter \<open>cv\<close>; \<open>amd64_cv\<close> is
    the one of that architecture.

  \<^bold>\<open>Components.\<close>
  \<^item> \<open>Capacity\<close> (\<open>pkg/capacity/planner.go\<close>): \<open>ToReplicas\<close> and its helpers. Counts lie within the policy's
    bounds for every input. Within the numeric range given below they are monotone in the forecast,
    respect the rate limits, cover the prewarm window and reach a sustained demand in logarithmically
    many steps. Beyond it, on amd64, a forecast of \<open>2^63\<close> pods or more is planned like no load.
  \<^item> \<open>Parsing\<close> (\<open>pkg/capacity/quantile.go\<close>, \<open>pkg/durationx\<close>) and \<open>Config\<close> (both \<open>config.go\<close>): parsers, flags
    with environment fallbacks, and validation, which establishes \<open>valid_workload\<close> and is idempotent.
  \<^item> \<open>Storage\<close> (\<open>pkg/storage\<close>): the interface \<open>Store\<close> as the locale \<open>snapshot_store\<close>, the memory store that
    interprets it, its cleanup goroutine as the step relation \<open>mem_step\<close>, and the Redis store over a
    client parameter, with its round trip and its failure on quantiles.
  \<^item> \<open>Models\<close> (locale \<open>forecasting_model\<close>), \<open>Baseline\<close>, \<open>Arima\<close>, \<open>Sarima\<close>, \<open>Byom\<close> (\<open>pkg/models\<close>): each model
    interprets the locale. The trend is the least-squares slope and the Levinson-Durbin coefficients
    solve the Yule-Walker equations, in exact arithmetic; trained models return forecasts of the
    configured length and within bounds; the inputs that panic are characterised.
  \<^item> \<open>Adapters\<close> (\<open>pkg/adapters\<close>) and \<open>Features\<close> (\<open>pkg/features\<close>): the frame of a range query is the sum of
    its samples per second, whatever order Go iterates a map in.
  \<^item> \<open>Httpx\<close> (\<open>pkg/httpx\<close>, \<open>pkg/tls\<close>), \<open>Router\<close> (\<open>router.go\<close>, \<open>pkg/client\<close>), \<open>Scaler\<close> (\<open>scaler.go\<close>): the
    client and the scaler read back what the API serves; the scaler reports the maximum of the stored
    plan over its lead time.
  \<^item> \<open>Forecaster\<close> (\<open>forecaster.go\<close>, \<open>build.go\<close>, the factories, the metrics): \<open>tick\<close> and \<open>wf_Run\<close>. A failed
    tick leaves the store alone; every published plan is within the workload's bounds; a panic ends the
    loop.
  \<^item> \<open>Multi\<close> (\<open>MultiForecaster\<close>, \<open>operator.go\<close>): goroutines as tasks of the step relation \<open>mf_step\<close>, with an
    invariant by rule induction (one live loop per workload) and the locale \<open>forecaster_manager\<close> that
    the controller relies on, interpreted on \<open>mf_Upsert\<close> and \<open>mf_Remove\<close>.
  \<^item> \<open>Controller\<close> (\<open>pkg/api/v1alpha1\<close>, \<open>controller/\<close>): \<open>Reconcile\<close> over the parameter \<open>KubeAPI\<close>, whose laws
    \<open>kube_laws\<close> say what a read returns after a write; a concrete cluster satisfies them. A true Ready
    condition means that the loop is registered and the ScaledObject written.
  \<^item> \<open>Backtest\<close> (\<open>pkg/backtest\<close>): the walk-forward evaluation returns, visits every window once and does not
    look ahead. \<open>Mcp\<close> (\<open>cmd/mcp-server\<close>): every tool with the text it answers.
  \<^item> \<open>Startup\<close> (the \<open>main\<close> functions and the HTTP server): start-up with its exit codes, and the forecaster's
    process as the step relation \<open>proc_step\<close>, up to its shutdown.
  \<^item> this theory: the composition. A ready policy reaches KEDA as a count within the policy's bounds.

  \<^bold>\<open>Bounds and termination.\<close> All loops but one are structural or have a termination proof. The backtest's
  loop has a wrapping index and may run forever, so \<open>bt_loop\<close> is a partial function; it is proved to
  return when the series, horizon and stride together stay below \<open>2^62\<close>, which any series in memory
  does. The planner's properties other than its bounds are stated for counts up to \<open>2^53\<close>, where a
  count is an exact float, scale-up factors from 1, below which the limit forces scaling down, to \<open>2^9\<close>, so
  that their product stays an \<open>int\<close>, and, for monotonicity and coverage, needs up to \<open>2^62\<close> pods, so that
  their conversion is in range. \<open>mono_needs_factor\<close> and \<open>mono_needs_range\<close> show the plans beyond. The
  manager is started once, as \<open>main\<close> does.

  \<^bold>\<open>Not modelled.\<close>
  \<^item> Code generated by protoc and controller-gen: the messages are the records of \<open>Scaler\<close> and
    \<open>Controller\<close>, and a deep copy is the value itself.
  \<^item> The example applications and their load generators.
  \<^item> Wiring of libraries: \<open>SetupWithManager\<close>, \<open>runOperator\<close>, \<open>newPolicyReader\<close>, the scheme registration, the
    registration of metrics, flags and gRPC services, and the MCP server's \<open>main\<close>. They pass modelled
    functions to code that is not in the repository.
  \<^item> The manager and \<open>main\<close> over the Redis store; a single loop is generic in its store.
  \<^item> Log output, elapsed times and histogram buckets, which no code reads back.
  \<^item> Data races within a model: a loop owns its model, so training and prediction do not overlap.
\<close>

section \<open>From a policy to the replica count KEDA gets\<close>

lemma trigger_workload:
  assumes "scaledObjectFields addr policy key x = x" "key \<noteq> []" "ScalerMetadata ref = snd (hd (soTriggers x))"
  shows "getWorkload ref = key"
proof -
  have "soTriggers x = [(''external'', [(''scalerAddress'', addr), (''workload'', key)])]"
    using arg_cong[OF assms(1), of soTriggers] by (simp add: scaledObjectFields_def Let_def)
  then show ?thesis using assms(2,3) by (simp add: getWorkload_def metadata_def)
qed

text \<open>
  C1: the parts of the system compose. When the controller has recorded a policy as ready, the forecaster
  it registered under the policy's key has run any number of ticks and its snapshot can be served, then
  the scaler, asked with the trigger metadata of the policy's ScaledObject, finds that snapshot through
  the forecaster's API and reports one of its planned counts to KEDA; that count lies between the
  policy's minimum and its maximum (100 when the policy has none).
\<close>

theorem policy_reaches_keda:
  assumes "kube_laws api getObject" "kGetPolicy api (ns, name) k = Ok policy" "mf_reach (NewMultiForecaster ws st) mf"
    "Reconcile api env ns name (k, mf, reg) = (Ok d, k', mf', reg')"
    "kGetPolicy api (ns, name) k' = Ok p" "readyOf p = Some c" "condStatus c = ''True''"
    "mf_entry mf' (workloadKey ns name) = Some f" "getObject (ns, name) k' = Some x"
    "wf_Run mem_Put es (f, NewMemoryStore) = (z, f', s)" "mem_GetLatest None (workloadKey ns name) s = Ok (Some y)"
    "servable y" "Values y \<noteq> []" "sane_step y" "0 \<le> leadTime sc" "int64 (leadTime sc)"
    "ScalerMetadata ref = snd (hd (soTriggers x))"
  shows "\<exists>v\<in>set (DesiredReplicas y).
     fst (GetMetrics (forecaster_at (forecasterURL sc) (\<lambda>w. mem_GetLatest None w s) staleAfter now) now sc ref metricName) =
       Ok [(metricName, i2f v)] \<and>
     capMinReplicas (specCapacity (fpSpec policy)) \<le> v \<and>
     v \<le> (let m = capMaxReplicas (specCapacity (fpSpec policy)) in if m = 0 then 100 else m)"
proof -
  have n: "fpNamespace policy = ns" "fpName policy = name" using kube_lawsD(1)[OF assms(1,2)] by simp_all
  from Reconcile_completes[OF assms(2,4)] show ?thesis
  proof (elim disjE exE conjE)
    fix reason message k1
    assume "rec_fail api policy reason message k1 = (Ok d, k')"
    from kube_fail(2)[OF assms(1) this] show ?thesis using n assms(5-7) by (auto simp: readyCondition_def)
  next
    fix ds wc g so k1
    assume wc: "toWorkloadConfig (oCv env) policy ds = Ok wc" and b: "buildWorkloadForecaster (oCv env) (oParse env) wc reg = Ok (g, reg')"
      and mf: "mf' = mf_Upsert g mf"
      and so: "reconcileScaledObject api (oScalerAddress env) policy (wName wc) k = (Ok so, k1)"
      and u: "updateReadyStatus api (\<lambda>w. mem_GetLatest None w (mfStore mf')) policy (wName wc) so k1 = (Ok (), k')"
    note w = toWorkloadConfig_Ok[OF wc, unfolded n]
    have "wf_name g = workloadKey ns name" using buildWorkloadForecaster_Ok(1)[OF b] w(2) by simp
    then have g: "g = f" using mgr.entry_upsert[OF mf_reach_inv[OF assms(3) New_inv], of g] assms(8) mf by simp
    have obj: "scaledObjectFields (oScalerAddress env) policy (workloadKey ns name) x = x"
      using kube_scaledObject(2)[OF assms(1) so] kube_ready(2)[OF assms(1) u] assms(9) unfolding n w(2) by auto
    have key: "getWorkload ref = workloadKey ns name"
      by (rule trigger_workload[OF obj _ assms(17)]) (simp add: workloadKey_def)
    note r = run_stored_plan[OF w(1) b[unfolded g] assms(10), unfolded w(2), OF assms(11)]
    have ds: "DesiredReplicas y \<noteq> []" using r(1) assms(13) by auto
    let ?v = "Max (set (take (window_len sc y) (DesiredReplicas y)))"
    have "?v \<in> set (take (window_len sc y) (DesiredReplicas y))" using ds by (intro Max_in) (auto simp: window_len_def)
    then have v: "?v \<in> set (DesiredReplicas y)" by (rule in_set_takeD)
    have "workloadNameMatch (getWorkload ref)" using w(1,2) unfolding key valid_workload_def by simp
    from GetMetrics_stored[where get = "\<lambda>w. mem_GetLatest None w s", OF this _ assms(12) ds assms(14-16)] assms(11)
    show ?thesis using v r(2) w(3,4) unfolding key by (intro bexI[of _ ?v]) (auto simp: list_all_iff)
  qed
qed

text \<open>The sample policy: reconciled, one tick, and the count the scaler reports.\<close>

theorem policy_reaches_keda_witness:
  "\<exists>v ref s. v \<in> {2, 4, 6} \<and> mem_GetLatest None ''a-web'' s = Ok (Some (loop_snap ''a-web'')) \<and>
     fst (GetMetrics (forecaster_at (forecasterURL sample_scaler) (\<lambda>w. mem_GetLatest None w s) 0 sample_time) sample_time sample_scaler ref ''m'') =
       Ok [(''m'', i2f v)] \<and> v \<le> 100"
proof -
  let ?wc = "(loop_workload ''byom'')\<lparr>wName := ''a-web''\<rparr>" and ?f = "loop_named ''a-web''" and ?y = "loop_snap ''a-web''"
  have key: "workloadKey ''a'' ''web'' = ''a-web''" by (simp add: workloadKey_def)
  obtain reg1 where f: "buildWorkloadForecaster (oCv web_env) (oParse web_env) ?wc empty_registry = Ok (?f, reg1)"
    using loop_built[of "''a-web''"] by (auto simp: web_env_def)
  have t: "toWorkloadConfig (oCv web_env) web_policy web_source = Ok ?wc" using web_translated by (simp add: web_env_def)
  obtain k1 where so: "reconcileScaledObject clusterAPI (oScalerAddress web_env) web_policy ''a-web'' web_cluster = (Ok (fpName web_policy), k1)"
    using clusterAPI_total(1) by blast
  let ?mf = "mf_Upsert ?f started_empty"
  obtain k2 where up: "updateReadyStatus clusterAPI (\<lambda>w. mem_GetLatest None w (mfStore ?mf)) web_policy ''a-web'' (fpName web_policy) k1 = (Ok (), k2)"
    using clusterAPI_total(2) by blast
  have R: "Reconcile clusterAPI web_env ''a'' ''web'' (web_cluster, started_empty, empty_registry) = (Ok (wInterval ?wc), k2, ?mf, reg1)"
    by (simp add: Reconcile_def manager_Upsert_def f t web_found so up)
  have n: "fpNamespace web_policy = ''a''" "fpName web_policy = ''web''" by (simp_all add: web_policy_def)
  obtain p where p: "kGetPolicy clusterAPI (''a'', ''web'') k2 = Ok p"
    "readyOf p = Some (readyCondition ''True'' ''Reconciled'' ''Forecast loop running and ScaledObject reconciled'' web_policy)"
    using kube_ready(1)[OF clusterAPI_laws up] unfolding n by blast
  have "map_of (clObjects k2) (''a'', ''web'') = map_of (clObjects k1) (''a'', ''web'')"
    by (rule kube_ready(2)[OF clusterAPI_laws up])
  then obtain x where x: "map_of (clObjects k2) (''a'', ''web'') = Some x"
    using kube_scaledObject(2)[OF clusterAPI_laws so] unfolding n by auto
  have e: "mf_entry ?mf (workloadKey ''a'' ''web'') = Some ?f"
    using mgr.entry_upsert[OF mf_reach_inv[OF started_empty_reach0 New_inv], of ?f] by (simp add: key loop_named_def NewWorkloadForecaster_def)
  let ?s = "NewMemoryStore\<lparr>snapshots := [(''a-web'', ?y)]\<rparr>"
  obtain g where "tick mem_Put (loop_env [400, 500]) (?f, NewMemoryStore) = (Ok (), g, ?s)"
    using loop_tick[of mem_Put "''a-web''" NewMemoryStore ?s] by (auto simp: mem_Put_def loop_snap_def NewMemoryStore_def)
  then have run: "wf_Run mem_Put [loop_env [400, 500]] (?f, NewMemoryStore) = (CtxDone, g, ?s)"
    by (simp add: wf_Run_def loop_named_def NewWorkloadForecaster_def)
  have y: "servable ?y" "Values ?y \<noteq> []" "sane_step ?y" "DesiredReplicas ?y = [2, 4, 6]" by code_simp+
  have g: "mem_GetLatest None (workloadKey ''a'' ''web'') ?s = Ok (Some ?y)" by (simp add: mem_GetLatest_def key)
  let ?ref = "\<lparr>refName = [], refNamespace = [], ScalerMetadata = snd (hd (soTriggers x))\<rparr>"
  have c: "condStatus (readyCondition ''True'' ''Reconciled'' ''Forecast loop running and ScaledObject reconciled'' web_policy) = ''True''"
    "ScalerMetadata ?ref = snd (hd (soTriggers x))" "capMaxReplicas (specCapacity (fpSpec web_policy)) = 100"
    by (simp_all add: readyCondition_def web_policy_def web_spec_def)
  from policy_reaches_keda[OF clusterAPI_laws web_found(1) started_empty_reach0 R p c(1) e x run g y(1-3) peak_facts(4,6) c(2),
      of 0 sample_time "''m''"]
  obtain v where v: "v \<in> set [2, 4, 6]" "fst (GetMetrics (forecaster_at (forecasterURL sample_scaler) (\<lambda>w. mem_GetLatest None w ?s) 0 sample_time)
      sample_time sample_scaler ?ref ''m'') = Ok [(''m'', i2f v)]" "v \<le> (if (100 :: int) = 0 then 100 else 100)"
    unfolding y(4) c(3) Let_def by blast
  have "mem_GetLatest None ''a-web'' ?s = Ok (Some ?y)" using g unfolding key .
  then show ?thesis using v by (intro exI[of _ v] exI[of _ ?ref] exI[of _ ?s]) simp
qed

end
